(* ===== verification/Prelude.thy ===== *)
theory Prelude
  imports Complex_Main "HOL-Library.AList" "HOL-Library.Word" "HOL-Library.Sublist" "HOL-Library.Multiset"
begin

text \<open>
  What every component shares: JavaScript's insertion-ordered \<open>Map\<close> and
  \<open>Set\<close>, slices, the lemma collections and the generic lemmas on lists.

  A \<open>Map\<close> is an association list. \<open>AList.update\<close> replaces the value of
  a key in place and appends a new key at the end, and \<open>AList.delete\<close> drops
  the key: this is what \<open>Map.prototype.set\<close> and \<open>delete\<close> do,
  iteration order included. \<open>map_of\<close> is \<open>get\<close>, with \<open>None\<close>
  for \<open>undefined\<close>.
\<close>

named_theorems comp_defs \<open>definitions of the operations of a component\<close>
named_theorems inv_intros \<open>an operation keeps the invariant of its component\<close>

section \<open>Map and Set\<close>

abbreviation map_get :: "('k \<times> 'v) list \<Rightarrow> 'k \<Rightarrow> 'v option" where
  "map_get m k \<equiv> map_of m k"

abbreviation map_set :: "'k \<Rightarrow> 'v \<Rightarrow> ('k \<times> 'v) list \<Rightarrow> ('k \<times> 'v) list" where
  "map_set k v m \<equiv> AList.update k v m"

abbreviation map_delete :: "'k \<Rightarrow> ('k \<times> 'v) list \<Rightarrow> ('k \<times> 'v) list" where
  "map_delete k m \<equiv> AList.delete k m"

abbreviation map_has :: "('k \<times> 'v) list \<Rightarrow> 'k \<Rightarrow> bool" where
  "map_has m k \<equiv> map_of m k \<noteq> None"

abbreviation map_keys :: "('k \<times> 'v) list \<Rightarrow> 'k list" where
  "map_keys m \<equiv> map fst m"

abbreviation map_values :: "('k \<times> 'v) list \<Rightarrow> 'v list" where
  "map_values m \<equiv> map snd m"

definition set_add :: "'a \<Rightarrow> 'a list \<Rightarrow> 'a list" where
  "set_add x s = (if x \<in> set s then s else s @ [x])"

lemma set_set_add [simp]: "set (set_add x s) = insert x (set s)"
  by (auto simp: set_add_def)

lemma distinct_set_add [simp]: "distinct s \<Longrightarrow> distinct (set_add x s)"
  by (simp add: set_add_def)

lemma map_of_update [simp]: "map_of (AList.update k v m) = (map_of m)(k \<mapsto> v)"
  by (rule update_conv')

lemma map_of_delete [simp]: "map_of (AList.delete k m) = (map_of m)(k := None)"
  by (rule delete_conv')

lemma distinct_keys_update [simp]:
  "distinct (map fst m) \<Longrightarrow> distinct (map fst (AList.update k v m))"
  by (rule distinct_update)

lemma distinct_keys_delete [simp]:
  "distinct (map fst m) \<Longrightarrow> distinct (map fst (AList.delete k m))"
  by (rule distinct_delete)

lemma distinct_keys_filter [simp]:
  "distinct (map fst m) \<Longrightarrow> distinct (map fst (filter P m))"
  by (induction m) auto

text \<open>
  Lookups stay lookups: the library's rewriting of a lookup to membership in the list is
  taken out of the simplifier and available as \<open>map_of_iff_pair\<close>.
\<close>

declare map_of_eq_Some_iff [simp del] Some_eq_map_of_iff [simp del]

text \<open>With distinct keys the bindings are exactly the pairs of the list.\<close>

lemma map_of_iff_pair:
  "distinct (map fst m) \<Longrightarrow> map_of m k = Some v \<longleftrightarrow> (k, v) \<in> set m"
  by (rule map_of_eq_Some_iff)

lemma map_of_filter_distinct:
  assumes "distinct (map fst m)"
  shows "map_of (filter (\<lambda>(k, v). P k v) m) k =
    (case map_of m k of None \<Rightarrow> None | Some v \<Rightarrow> if P k v then Some v else None)"
  using assms by (induction m) (auto split: option.splits if_splits simp: map_of_eq_None_iff image_iff)

lemma in_set_update:
  assumes "distinct (map fst m)"
  shows "p \<in> set (AList.update k v m) \<longleftrightarrow> p = (k, v) \<or> (fst p \<noteq> k \<and> p \<in> set m)"
proof -
  obtain k' v' where p: "p = (k', v')" by (cases p)
  have "p \<in> set (AList.update k v m) \<longleftrightarrow> map_of (AList.update k v m) k' = Some v'"
    using assms by (simp add: p map_of_iff_pair del: map_of_update)
  then show ?thesis
    using assms by (auto simp: p map_of_iff_pair)
qed

lemma in_set_delete [simp]:
  "p \<in> set (AList.delete k m) \<longleftrightarrow> fst p \<noteq> k \<and> p \<in> set m"
  by (cases p) (auto simp: AList.delete_eq)

lemma map_le_None: "m \<subseteq>\<^sub>m n \<Longrightarrow> n k = None \<Longrightarrow> m k = None"
  by (metis domIff map_le_def)

lemma map_le_Some: "m \<subseteq>\<^sub>m n \<Longrightarrow> m k = Some v \<Longrightarrow> n k = Some v"
  by (metis domIff map_le_def option.distinct(1))

lemma mset_update:
  "distinct (map fst m) \<Longrightarrow>
   mset (AList.update k v m) = add_mset (k, v) (filter_mset (\<lambda>p. fst p \<noteq> k) (mset m))"
proof (induction m)
  case Nil
  show ?case by simp
next
  case (Cons p m)
  show ?case
  proof (cases "fst p = k")
    case True
    with Cons.prems have "filter_mset (\<lambda>p. fst p \<noteq> k) (mset m) = mset m"
      by (auto simp: filter_mset_eq_conv image_iff)
    with True show ?thesis by simp
  next
    case False
    with Cons show ?thesis by simp
  qed
qed

text \<open>Deleting a list of keys, as the registries' loops do.\<close>

definition delete_keys :: "'k list \<Rightarrow> ('k \<times> 'v) list \<Rightarrow> ('k \<times> 'v) list" where
  "delete_keys ks m = fold AList.delete ks m"

lemma delete_keys_filter: "delete_keys ks m = filter (\<lambda>(k, v). k \<notin> set ks) m"
  unfolding delete_keys_def
proof (induction ks arbitrary: m)
  case Nil
  show ?case by simp
next
  case (Cons a ks)
  have "filter (\<lambda>(k, v). k \<notin> set ks) (AList.delete a m) = filter (\<lambda>(k, v). k \<notin> set (a # ks)) m"
    by (auto simp: AList.delete_eq intro: filter_cong)
  then show ?case by (simp add: Cons.IH)
qed

lemma map_of_delete_keys [simp]:
  "map_of (delete_keys ks m) k = (if k \<in> set ks then None else map_of m k)"
  by (induction ks arbitrary: m) (auto simp: delete_keys_def)

lemma distinct_delete_keys [simp]:
  "distinct (map fst m) \<Longrightarrow> distinct (map fst (delete_keys ks m))"
  by (simp add: delete_keys_filter)

section \<open>Arrays\<close>

text \<open>\<open>xs.slice(0, n)\<close>: a negative \<open>n\<close> counts from the end.\<close>

definition slice0 :: "int \<Rightarrow> 'a list \<Rightarrow> 'a list" where
  "slice0 n xs = (if 0 \<le> n then take (nat n) xs else take (length xs - nat (- n)) xs)"

lemma set_slice0: "set (slice0 n xs) \<subseteq> set xs"
  by (auto simp: slice0_def dest: in_set_takeD)

lemma slice0_nonneg [simp]: "0 \<le> n \<Longrightarrow> slice0 n xs = take (nat n) xs"
  by (simp add: slice0_def)

section \<open>Strings\<close>

text \<open>
  A JavaScript string is a list of code units; the model uses \<open>string\<close>
  (\<open>char list\<close>), one character per code unit, so \<open>length\<close>,
  \<open>startsWith\<close> and concatenation are those of the source on the code units a
  \<open>char\<close> can hold (Latin-1).
\<close>

definition starts_with :: "string \<Rightarrow> string \<Rightarrow> bool" where
  "starts_with p s \<longleftrightarrow> take (length p) s = p"

definition ends_with :: "string \<Rightarrow> string \<Rightarrow> bool" where
  "ends_with p s \<longleftrightarrow> starts_with (rev p) (rev s)"

lemma starts_with_append [simp]: "starts_with p (p @ s)"
  by (simp add: starts_with_def)

lemma starts_with_iff: "starts_with p s \<longleftrightarrow> (\<exists>r. s = p @ r)"
  by (metis append_eq_conv_conj starts_with_def starts_with_append)

fun join_with :: "string \<Rightarrow> string list \<Rightarrow> string" where
  "join_with sep [] = []"
| "join_with sep [x] = x"
| "join_with sep (x # y # xs) = x @ sep @ join_with sep (y # xs)"

text \<open>The first separator splits a joined string in one way only.\<close>

lemma split_at_sep:
  assumes "sep \<notin> set a" and "sep \<notin> set b"
    and "a @ sep # r = b @ sep # s"
  shows "a = b \<and> r = s"
  using assms
proof (induction a arbitrary: b)
  case Nil
  then show ?case by (cases b) auto
next
  case (Cons x a)
  then show ?case by (cases b) auto
qed

lemma join_with_inject:
  assumes "\<forall>x \<in> set xs. sep \<notin> set x" and "\<forall>y \<in> set ys. sep \<notin> set y"
    and "length xs = length ys" and "join_with [sep] xs = join_with [sep] ys"
  shows "xs = ys"
  using assms(3,1,2,4)
proof (induction xs ys rule: list_induct2)
  case Nil
  then show ?case by simp
next
  case (Cons x xs y ys)
  show ?case
  proof (cases xs)
    case Nil
    with Cons show ?thesis by simp
  next
    case (Cons x' xs')
    then obtain y' ys' where ys: "ys = y' # ys'"
      using Cons.hyps by (cases ys) auto
    have "x = y \<and> join_with [sep] xs = join_with [sep] ys"
      using Cons.prems Cons ys by (intro split_at_sep [where sep = sep]) auto
    with Cons.IH Cons.prems show ?thesis by simp
  qed
qed

end
