(* ===== verification/Wire.thy ===== *)
theory Wire
  imports Prelude
begin

text \<open>
  The wire contract: the values a Socket.IO packet carries, the event catalogue of
  \<^verbatim>\<open>server/src/events.ts\<close>, the error codes of
  \<^verbatim>\<open>server/src/errors.ts\<close>, and the guards the server runs on an untrusted
  payload (\<^verbatim>\<open>payloadObject\<close>, \<^verbatim>\<open>containsPlaintextPayload\<close>).

  A payload is \<open>json option\<close>: \<open>None\<close> is \<open>undefined\<close> (the client sent no
  argument). An object is the association list of its own properties; reading a missing
  property gives \<open>None\<close>. Binary attachments are not modelled.
\<close>

section \<open>Numbers\<close>

text \<open>
  A finite double is its rational value. \<open>JSON.parse\<close> turns \<open>1e999\<close> into an
  infinity, so the checks on \<open>Number.isFinite\<close> are not idle.
\<close>

datatype js_number = Finite rat | Infinity | NegInfinity | NaN

instantiation js_number :: ord
begin

fun less_js_number :: "js_number \<Rightarrow> js_number \<Rightarrow> bool" where
  "less_js_number (Finite a) (Finite b) = (a < b)"
| "less_js_number NegInfinity (Finite b) = True"
| "less_js_number NegInfinity Infinity = True"
| "less_js_number (Finite a) Infinity = True"
| "less_js_number _ _ = False"

definition less_eq_js_number :: "js_number \<Rightarrow> js_number \<Rightarrow> bool" where
  "less_eq_js_number a b \<longleftrightarrow> a < b \<or> (a = b \<and> a \<noteq> NaN)"

instance ..

end

abbreviation js_int :: "int \<Rightarrow> js_number" where
  "js_int i \<equiv> Finite (of_int i)"

section \<open>Values\<close>

datatype json =
    JNull
  | JBool bool
  | JNum js_number
  | JStr string
  | JArr "json list"
  | JObj "(string \<times> json) list"

type_synonym fields = "(string \<times> json) list"
type_synonym payload = "json option"

abbreviation jint :: "int \<Rightarrow> json" where
  "jint i \<equiv> JNum (js_int i)"

abbreviation jnat :: "nat \<Rightarrow> json" where
  "jnat n \<equiv> JNum (js_int (int n))"

text \<open>\<open>typeof v === 'string'\<close> and \<open>typeof v === 'number'\<close>.\<close>

fun as_string :: "json option \<Rightarrow> string option" where
  "as_string (Some (JStr s)) = Some s"
| "as_string _ = None"

fun as_number :: "json option \<Rightarrow> js_number option" where
  "as_number (Some (JNum n)) = Some n"
| "as_number _ = None"

lemma as_string_Some [simp]: "as_string v = Some s \<longleftrightarrow> v = Some (JStr s)"
  by (cases v rule: as_string.cases) auto

lemma as_number_Some [simp]: "as_number v = Some n \<longleftrightarrow> v = Some (JNum n)"
  by (cases v rule: as_number.cases) auto

text \<open>
  An object literal: a property whose value is \<open>undefined\<close> is dropped when the
  packet is serialised, as is the empty conditional spread. \<open>spread\<close> is
  \<open>{...a, ...b}\<close>.
\<close>

fun object :: "(string \<times> json option) list \<Rightarrow> fields" where
  "object [] = []"
| "object ((k, None) # xs) = object xs"
| "object ((k, Some v) # xs) = (k, v) # object xs"

definition spread :: "fields \<Rightarrow> fields \<Rightarrow> fields" where
  "spread a b = fold (\<lambda>(k, v). AList.update k v) b a"

lemma map_of_spread: "map_of (spread a b) = map_of a ++ map_of (rev b)"
  unfolding spread_def
  by (induction b arbitrary: a) (auto simp: map_add_def fun_eq_iff split: option.splits)

lemma keys_object: "fst ` set (object xs) \<subseteq> fst ` set xs"
  by (induction xs rule: object.induct) auto

lemma map_of_object:
  "distinct (map fst xs) \<Longrightarrow>
   map_of (object xs) k = (case map_of xs k of None \<Rightarrow> None | Some v \<Rightarrow> v)"
proof (induction xs rule: object.induct)
  case (2 k' xs)
  show ?case
  proof (cases "k = k'")
    case True
    with 2 have "k \<notin> fst ` set (object xs)"
      using keys_object [of xs] by auto
    with True show ?thesis by (simp add: map_of_eq_None_iff)
  next
    case False
    with 2 show ?thesis by simp
  qed
qed auto

lemma keys_spread: "fst ` set (spread a b) = fst ` set a \<union> fst ` set b"
  unfolding spread_def
proof (induction b arbitrary: a)
  case Nil
  show ?case by simp
next
  case (Cons p b)
  then show ?case by (cases p) (simp add: dom_update)
qed

text \<open>
  \<open>String(v)\<close>, as far as the code looks at it: does it throw (\<open>None\<close>), and is
  the result non-empty? Converting an object calls its \<open>toString\<close>; an own property
  of that name, which is data in a parsed packet and not callable, makes
  \<open>String\<close> throw a \<open>TypeError\<close>. An array is the join of its elements with
  commas, \<open>null\<close> giving the empty string.
\<close>

fun string_nonempty :: "json \<Rightarrow> bool option" where
  "string_nonempty JNull = Some True"
| "string_nonempty (JBool b) = Some True"
| "string_nonempty (JNum n) = Some True"
| "string_nonempty (JStr s) = Some (s \<noteq> [])"
| "string_nonempty (JArr xs) =
     (if list_ex (\<lambda>x. x \<noteq> JNull \<and> string_nonempty x = None) xs then None
      else Some (2 \<le> length xs \<or> list_ex (\<lambda>x. x \<noteq> JNull \<and> string_nonempty x = Some True) xs))"
| "string_nonempty (JObj fs) = (if map_has fs ''toString'' then None else Some True)"

section \<open>Error codes (errors.ts)\<close>

datatype socket_error_code =
    AuthFailed | RateLimited | DeviceRevoked | SessionExpired
  | Forbidden | Duplicate | PayloadInvalid | ServerClosing

primrec error_code :: "socket_error_code \<Rightarrow> string" where
  "error_code AuthFailed = ''AUTH_FAILED''"
| "error_code RateLimited = ''RATE_LIMITED''"
| "error_code DeviceRevoked = ''DEVICE_REVOKED''"
| "error_code SessionExpired = ''SESSION_EXPIRED''"
| "error_code Forbidden = ''FORBIDDEN''"
| "error_code Duplicate = ''DUPLICATE''"
| "error_code PayloadInvalid = ''PAYLOAD_INVALID''"
| "error_code ServerClosing = ''SERVER_CLOSING''"

lemma error_code_inject [simp]: "error_code a = error_code b \<longleftrightarrow> a = b"
  by (cases a; cases b) simp_all

section \<open>The event catalogue (events.ts)\<close>

datatype socket_event =
    AuthChallenge | AuthResponse | AuthSuccess | AuthFailure
  | MessageSend | MessageNew | MessageAck | MessageDelivered | MessageRead | MessageTyping
  | SyncRequest | SyncResponse
  | PresenceUpdate | PresenceChanged
  | CallOffer | CallAnswer | CallIce | CallEnd
  | DeviceAdded | DeviceRevokedEvent
  | SystemError | SystemShutdown

primrec event_name :: "socket_event \<Rightarrow> string" where
  "event_name AuthChallenge = ''auth.challenge''"
| "event_name AuthResponse = ''auth.response''"
| "event_name AuthSuccess = ''auth.success''"
| "event_name AuthFailure = ''auth.failure''"
| "event_name MessageSend = ''message.send''"
| "event_name MessageNew = ''message.new''"
| "event_name MessageAck = ''message.ack''"
| "event_name MessageDelivered = ''message.delivered''"
| "event_name MessageRead = ''message.read''"
| "event_name MessageTyping = ''message.typing''"
| "event_name SyncRequest = ''sync.request''"
| "event_name SyncResponse = ''sync.response''"
| "event_name PresenceUpdate = ''presence.update''"
| "event_name PresenceChanged = ''presence.changed''"
| "event_name CallOffer = ''call.offer''"
| "event_name CallAnswer = ''call.answer''"
| "event_name CallIce = ''call.ice''"
| "event_name CallEnd = ''call.end''"
| "event_name DeviceAdded = ''device.added''"
| "event_name DeviceRevokedEvent = ''device.revoked''"
| "event_name SystemError = ''system.error''"
| "event_name SystemShutdown = ''system.shutdown''"

lemma event_name_inject [simp]: "event_name a = event_name b \<longleftrightarrow> a = b"
  by (cases a; cases b) simp_all

datatype socket_event_domain =
  DomAuth | DomPresence | DomMessage | DomSync | DomCall | DomDevice | DomSystem

definition domainForEvent :: "string \<Rightarrow> socket_event_domain option" where
  "domainForEvent event =
     (if starts_with ''auth.'' event then Some DomAuth
      else if starts_with ''message.'' event then Some DomMessage
      else if starts_with ''sync.'' event then Some DomSync
      else if starts_with ''presence.'' event then Some DomPresence
      else if starts_with ''call.'' event then Some DomCall
      else if starts_with ''device.'' event then Some DomDevice
      else if starts_with ''system.'' event then Some DomSystem
      else None)"

definition CLIENT_EMITTABLE_EVENTS :: "string list" where
  "CLIENT_EMITTABLE_EVENTS = map event_name
     [AuthResponse, MessageSend, MessageTyping, MessageRead, MessageDelivered, SyncRequest,
      PresenceUpdate, CallOffer, CallAnswer, CallIce, CallEnd]"

definition isClientEmittableEvent :: "string \<Rightarrow> bool" where
  "isClientEmittableEvent event \<longleftrightarrow> event \<in> set CLIENT_EMITTABLE_EVENTS"

lemma domainForEvent_catalogue: "domainForEvent (event_name e) \<noteq> None"
  by (cases e) (simp_all add: domainForEvent_def starts_with_def)

section \<open>Guards on a payload (realtime_server.ts)\<close>

text \<open>\<open>payloadObject\<close>: anything but a plain object reads as the empty object.\<close>

fun payloadObject :: "payload \<Rightarrow> fields" where
  "payloadObject (Some (JObj fs)) = fs"
| "payloadObject _ = []"

text \<open>\<open>payload?.[key]\<close> without an object check: other values have no such property.\<close>

abbreviation payload_field :: "payload \<Rightarrow> string \<Rightarrow> json option" where
  "payload_field p k \<equiv> map_of (payloadObject p) k"

definition FORBIDDEN_PLAINTEXT_KEYS :: "string list" where
  "FORBIDDEN_PLAINTEXT_KEYS =
     [''plaintext'', ''plain_text'', ''text'', ''content'', ''body'', ''message'', ''decrypted'']"

text \<open>
  The loop over the forbidden keys, in order: \<open>None\<close> is a throwing
  \<open>String(value)\<close>, which leaves the loop with a \<open>TypeError\<close>.
\<close>

fun plaintext_loop :: "string list \<Rightarrow> fields \<Rightarrow> bool option" where
  "plaintext_loop [] m = Some False"
| "plaintext_loop (key # keys) m =
     (case map_get m key of
        None \<Rightarrow> plaintext_loop keys m
      | Some JNull \<Rightarrow> plaintext_loop keys m
      | Some value \<Rightarrow>
          (case string_nonempty value of
             None \<Rightarrow> None
           | Some True \<Rightarrow> Some True
           | Some False \<Rightarrow> plaintext_loop keys m))"

definition containsPlaintextPayload :: "fields \<Rightarrow> bool option" where
  "containsPlaintextPayload m = plaintext_loop FORBIDDEN_PLAINTEXT_KEYS m"

lemma plaintext_loop_False:
  "plaintext_loop keys m = Some False \<Longrightarrow> key \<in> set keys \<Longrightarrow> map_get m key = Some v \<Longrightarrow>
   v = JNull \<or> string_nonempty v = Some False"
  by (induction keys m rule: plaintext_loop.induct)
    (auto split: option.splits json.splits bool.splits)

lemma containsPlaintextPayload_False:
  assumes "containsPlaintextPayload m = Some False" and "key \<in> set FORBIDDEN_PLAINTEXT_KEYS"
    and "map_get m key = Some (JStr s)"
  shows "s = []"
  using plaintext_loop_False [of FORBIDDEN_PLAINTEXT_KEYS m key "JStr s"] assms
  by (simp add: containsPlaintextPayload_def)

end
