(* ===== verification/Rate_Limiter.thy ===== *)
theory Rate_Limiter
  imports Wire
begin

text \<open>
  The token bucket of \<^verbatim>\<open>server/src/rate_limiter.ts\<close> and the seven buckets of
  a socket. Tokens are fractional in the code (doubles); here they are rationals, so no
  rounding enters. The clock reading is an argument of every operation.

  The locale \<open>admission\<close> is the contract a client of a limiter relies on: each
  granted call is paid from a budget that only the passing of time refills. Its lemma
  bounds the number of granted calls of any run; it is interpreted for one bucket and for
  the pair of buckets (domain and aggregate) an event has to pass.
\<close>

section \<open>Token bucket\<close>

record bucket =
  bk_burst :: rat
  bk_perMinute :: rat
  bk_tokens :: rat
  bk_lastRefillMs :: "int option"

definition new_bucket :: "rat \<Rightarrow> rat \<Rightarrow> bucket" where
  "new_bucket burst perMinute =
     \<lparr>bk_burst = burst, bk_perMinute = perMinute, bk_tokens = burst, bk_lastRefillMs = None\<rparr>"

definition refill :: "bucket \<Rightarrow> int \<Rightarrow> bucket" where
  "refill b now =
     (case bk_lastRefillMs b of
        None \<Rightarrow> b\<lparr>bk_lastRefillMs := Some now\<rparr>
      | Some lastMs \<Rightarrow>
          (let elapsedMs = now - lastMs in
           if elapsedMs \<le> 0 then b
           else
             (let amount = (of_int elapsedMs * bk_perMinute b) / 60000 in
              b\<lparr>bk_tokens := min (bk_burst b) (bk_tokens b + amount),
                bk_lastRefillMs := Some now\<rparr>)))"

definition availableTokens :: "bucket \<Rightarrow> int \<Rightarrow> rat \<times> bucket" where
  "availableTokens b now = (let b' = refill b now in (bk_tokens b', b'))"

definition allowN :: "bucket \<Rightarrow> int \<Rightarrow> rat \<Rightarrow> bool \<times> bucket" where
  "allowN b now n =
     (let b' = refill b now in
      if n > bk_burst b' \<or> bk_tokens b' < n then (False, b')
      else (True, b'\<lparr>bk_tokens := bk_tokens b' - n\<rparr>))"

definition allow :: "bucket \<Rightarrow> int \<Rightarrow> bool \<times> bucket" where
  "allow b now = allowN b now 1"

definition drain :: "bucket \<Rightarrow> bucket" where
  "drain b = b\<lparr>bk_tokens := 0\<rparr>"

text \<open>Well-formed: \<open>0 \<le> tokens \<le> burst\<close> and a rate that is not negative.\<close>

definition bucket_ok :: "bucket \<Rightarrow> bool" where
  "bucket_ok b \<longleftrightarrow> 0 \<le> bk_tokens b \<and> bk_tokens b \<le> bk_burst b \<and> 0 \<le> bk_perMinute b"

lemma bucket_ok_new [inv_intros]: "0 \<le> burst \<Longrightarrow> 0 \<le> rate \<Longrightarrow> bucket_ok (new_bucket burst rate)"
  by (simp add: bucket_ok_def new_bucket_def)

lemma bucket_ok_refill [inv_intros]: "bucket_ok b \<Longrightarrow> bucket_ok (refill b now)"
  by (auto simp: bucket_ok_def refill_def Let_def min_def split: option.splits)

lemma refill_burst [simp]: "bk_burst (refill b now) = bk_burst b"
  by (simp add: refill_def Let_def split: option.splits)

lemma refill_perMinute [simp]: "bk_perMinute (refill b now) = bk_perMinute b"
  by (simp add: refill_def Let_def split: option.splits)

lemma bucket_ok_allowN [inv_intros]: "bucket_ok b \<Longrightarrow> 0 \<le> n \<Longrightarrow> bucket_ok (snd (allowN b now n))"
  using bucket_ok_refill [of b now] by (auto simp: allowN_def Let_def bucket_ok_def)

lemma bucket_ok_allow [inv_intros]: "bucket_ok b \<Longrightarrow> bucket_ok (snd (allow b now))"
  by (simp add: allow_def bucket_ok_allowN)

lemma bucket_ok_drain [inv_intros]: "bucket_ok b \<Longrightarrow> bucket_ok (drain b)"
  by (auto simp: drain_def bucket_ok_def)

lemma allow_perMinute [simp]: "bk_perMinute (snd (allow b now)) = bk_perMinute b"
  by (simp add: allow_def allowN_def Let_def)

lemma allow_burst [simp]: "bk_burst (snd (allow b now)) = bk_burst b"
  by (simp add: allow_def allowN_def Let_def)

section \<open>The contract of a limiter\<close>

text \<open>The number of granted calls of a run, one call per clock reading.\<close>

fun granted :: "('l \<Rightarrow> int \<Rightarrow> bool \<times> 'l) \<Rightarrow> 'l \<Rightarrow> int list \<Rightarrow> nat" where
  "granted allw l [] = 0"
| "granted allw l (t # ts) =
     (let (ok, l') = allw l t in (if ok then 1 else 0) + granted allw l' ts)"

locale admission =
  fixes allw :: "'l \<Rightarrow> int \<Rightarrow> bool \<times> 'l"
    and budget :: "'l \<Rightarrow> rat"
    and credited :: "'l \<Rightarrow> int"
    and rate :: "'l \<Rightarrow> rat"
    and ok :: "'l \<Rightarrow> bool"
  assumes ok_step: "ok l \<Longrightarrow> ok (snd (allw l t))"
    and rate_step: "ok l \<Longrightarrow> rate (snd (allw l t)) = rate l"
    and rate_nonneg: "ok l \<Longrightarrow> 0 \<le> rate l"
    and budget_nonneg: "ok l \<Longrightarrow> 0 \<le> budget l"
    and credited_step: "ok l \<Longrightarrow> credited (snd (allw l t)) \<le> max (credited l) t"
    and spend: "ok l \<Longrightarrow>
      budget (snd (allw l t)) + (if fst (allw l t) then 1 else 0)
        \<le> budget l + rate l * of_int (credited (snd (allw l t)) - credited l) / 60000"
begin

lemma granted_bound:
  assumes "ok l" and "credited l \<le> T" and "\<forall>t \<in> set ts. t \<le> T"
  shows "of_nat (granted allw l ts) \<le> budget l + rate l * of_int (T - credited l) / 60000"
  using assms
proof (induction ts arbitrary: l)
  case Nil
  then show ?case
    using rate_nonneg [of l] budget_nonneg [of l] by simp
next
  case (Cons t ts)
  obtain g l' where step: "allw l t = (g, l')" by fastforce
  have l': "ok l'" "rate l' = rate l" "credited l' \<le> T"
    using Cons.prems ok_step [of l t] rate_step [of l t] credited_step [of l t] step by auto
  have "of_nat (granted allw l' ts) \<le> budget l' + rate l * of_int (T - credited l') / 60000"
    using Cons.IH [of l'] Cons.prems l' by simp
  moreover have "budget l' + (if g then 1 else 0) \<le> budget l + rate l * of_int (credited l' - credited l) / 60000"
    using spend [of l t] Cons.prems step by simp
  moreover have "rate l * of_int (T - credited l') / 60000 + rate l * of_int (credited l' - credited l) / 60000
      = rate l * of_int (T - credited l) / 60000"
    by (simp add: field_simps)
  moreover have "(of_nat (granted allw l (t # ts)) :: rat) = (if g then 1 else 0) + of_nat (granted allw l' ts)"
    by (simp add: step)
  ultimately show ?case by linarith
qed

end

section \<open>A bucket keeps the contract\<close>

text \<open>Once the first reading has been taken (\<open>lastRefillMs\<close> set).\<close>

definition bucket_started :: "bucket \<Rightarrow> bool" where
  "bucket_started b \<longleftrightarrow> bucket_ok b \<and> bk_lastRefillMs b \<noteq> None"

definition bucket_credited :: "bucket \<Rightarrow> int" where
  "bucket_credited b = (case bk_lastRefillMs b of None \<Rightarrow> 0 | Some t \<Rightarrow> t)"

lemma refill_credit:
  assumes "bucket_started b"
  shows "bucket_started (refill b now)"
    and "bucket_credited b \<le> bucket_credited (refill b now)"
    and "bucket_credited (refill b now) \<le> max (bucket_credited b) now"
    and "bk_tokens (refill b now) \<le>
      bk_tokens b + bk_perMinute b * of_int (bucket_credited (refill b now) - bucket_credited b) / 60000"
proof -
  obtain t0 where last: "bk_lastRefillMs b = Some t0"
    using assms by (auto simp: bucket_started_def)
  show "bucket_started (refill b now)"
    using assms bucket_ok_refill [of b now] last
    by (auto simp: bucket_started_def refill_def Let_def)
  show "bucket_credited b \<le> bucket_credited (refill b now)"
    "bucket_credited (refill b now) \<le> max (bucket_credited b) now"
    by (auto simp: last refill_def bucket_credited_def Let_def)
  show "bk_tokens (refill b now) \<le>
      bk_tokens b + bk_perMinute b * of_int (bucket_credited (refill b now) - bucket_credited b) / 60000"
    by (auto simp: last refill_def bucket_credited_def Let_def min_def mult.commute)
qed

lemma allow_eq_refill:
  "snd (allow b now) = (if fst (allow b now) then (refill b now)\<lparr>bk_tokens := bk_tokens (refill b now) - 1\<rparr>
    else refill b now)"
  by (simp add: allow_def allowN_def Let_def)

lemma allow_credited [simp]: "bucket_credited (snd (allow b now)) = bucket_credited (refill b now)"
  by (simp add: allow_eq_refill bucket_credited_def)

lemma allow_started: "bucket_started b \<Longrightarrow> bucket_started (snd (allow b now))"
  using refill_credit(1) [of b now] bucket_ok_allow [of b now]
  by (auto simp: bucket_started_def allow_eq_refill split: if_splits)

lemma allow_spend:
  assumes "bucket_started b"
  shows "bk_tokens (snd (allow b now)) + (if fst (allow b now) then 1 else 0)
    \<le> bk_tokens b + bk_perMinute b * of_int (bucket_credited (snd (allow b now)) - bucket_credited b) / 60000"
  using refill_credit(4) [OF assms, of now] by (subst allow_eq_refill) simp

interpretation bucket_admission: admission allow bk_tokens bucket_credited bk_perMinute bucket_started
proof unfold_locales
  fix b :: bucket and t :: int
  assume b: "bucket_started b"
  show "bucket_started (snd (allow b t))" using b by (rule allow_started)
  show "bk_perMinute (snd (allow b t)) = bk_perMinute b" by simp
  show "0 \<le> bk_perMinute b" "0 \<le> bk_tokens b"
    using b by (simp_all add: bucket_started_def bucket_ok_def)
  show "bucket_credited (snd (allow b t)) \<le> max (bucket_credited b) t"
    using refill_credit(3) [OF b] by simp
  show "bk_tokens (snd (allow b t)) + (if fst (allow b t) then 1 else 0)
     \<le> bk_tokens b + bk_perMinute b * of_int (bucket_credited (snd (allow b t)) - bucket_credited b) / 60000"
    using b by (rule allow_spend)
qed

text \<open>
  A fresh bucket takes its first reading without adding tokens, so it behaves as a
  started one with that reading.
\<close>

lemma allow_fresh:
  assumes "bk_lastRefillMs b = None"
  shows "allow b t = allow (b\<lparr>bk_lastRefillMs := Some t\<rparr>) t"
  using assms by (simp add: allow_def allowN_def refill_def Let_def)

lemma granted_cong_first: "allw l t = allw l' t \<Longrightarrow> granted allw l (t # ts) = granted allw l' (t # ts)"
  by simp

section \<open>The buckets of a socket\<close>

record domain_limiters =
  lim_auth :: bucket
  lim_message :: bucket
  lim_typing :: bucket
  lim_signaling :: bucket
  lim_sync :: bucket
  lim_presence :: bucket
  lim_aggregate :: bucket

record rate_limits =
  authPerMinute :: int
  messagePerMinute :: int
  typingPerMinute :: int
  signalingPerMinute :: int
  syncPerMinute :: int
  presencePerMinute :: int
  totalEventsPerMinute :: int

definition createDomainRateLimiters :: "'a rate_limits_scheme \<Rightarrow> domain_limiters" where
  "createDomainRateLimiters limits =
     (let make = (\<lambda>perMinute :: int. new_bucket (of_int perMinute) (of_int perMinute)) in
      \<lparr>lim_auth = make (authPerMinute limits),
       lim_message = make (messagePerMinute limits),
       lim_typing = make (typingPerMinute limits),
       lim_signaling = make (signalingPerMinute limits),
       lim_sync = make (syncPerMinute limits),
       lim_presence = make (presencePerMinute limits),
       lim_aggregate = make (totalEventsPerMinute limits)\<rparr>)"

datatype rate_domain = RMessage | RTyping | RSignaling | RSync | RPresence

primrec domain_bucket :: "rate_domain \<Rightarrow> domain_limiters \<Rightarrow> bucket" where
  "domain_bucket RMessage l = lim_message l"
| "domain_bucket RTyping l = lim_typing l"
| "domain_bucket RSignaling l = lim_signaling l"
| "domain_bucket RSync l = lim_sync l"
| "domain_bucket RPresence l = lim_presence l"

primrec put_bucket :: "rate_domain \<Rightarrow> bucket \<Rightarrow> domain_limiters \<Rightarrow> domain_limiters" where
  "put_bucket RMessage b l = l\<lparr>lim_message := b\<rparr>"
| "put_bucket RTyping b l = l\<lparr>lim_typing := b\<rparr>"
| "put_bucket RSignaling b l = l\<lparr>lim_signaling := b\<rparr>"
| "put_bucket RSync b l = l\<lparr>lim_sync := b\<rparr>"
| "put_bucket RPresence b l = l\<lparr>lim_presence := b\<rparr>"

lemma domain_bucket_put [simp]: "domain_bucket d (put_bucket d b l) = b"
  by (cases d) simp_all

lemma domain_bucket_put_other [simp]: "d \<noteq> d' \<Longrightarrow> domain_bucket d' (put_bucket d b l) = domain_bucket d' l"
  by (cases d; cases d') simp_all

lemma aggregate_put [simp]: "lim_aggregate (put_bucket d b l) = lim_aggregate l"
  by (cases d) simp_all

lemma auth_put [simp]: "lim_auth (put_bucket d b l) = lim_auth l"
  by (cases d) simp_all

lemma domain_bucket_aggregate [simp]: "domain_bucket d (l\<lparr>lim_aggregate := b\<rparr>) = domain_bucket d l"
  by (cases d) simp_all

text \<open>
  \<open>limiters[domain].allow() && limiters.aggregate.allow()\<close>: a denied domain leaves
  the aggregate alone; a denied aggregate has already spent the domain token.
\<close>

definition consumeRate :: "domain_limiters \<Rightarrow> rate_domain \<Rightarrow> int \<Rightarrow> bool \<times> domain_limiters" where
  "consumeRate l d now =
     (let (ok, b) = allow (domain_bucket d l) now;
          l' = put_bucket d b l in
      if \<not> ok then (False, l')
      else (let (ok2, a) = allow (lim_aggregate l') now in (ok2, l'\<lparr>lim_aggregate := a\<rparr>)))"

text \<open>The test of \<open>onAuthResponse\<close>, on the auth bucket.\<close>

definition consumeAuthRate :: "domain_limiters \<Rightarrow> int \<Rightarrow> bool \<times> domain_limiters" where
  "consumeAuthRate l now =
     (let (ok, b) = allow (lim_auth l) now;
          l' = l\<lparr>lim_auth := b\<rparr> in
      if \<not> ok then (False, l')
      else (let (ok2, a) = allow (lim_aggregate l') now in (ok2, l'\<lparr>lim_aggregate := a\<rparr>)))"

definition drainAggregate :: "domain_limiters \<Rightarrow> domain_limiters" where
  "drainAggregate l = l\<lparr>lim_aggregate := drain (lim_aggregate l)\<rparr>"

definition limiters_ok :: "domain_limiters \<Rightarrow> bool" where
  "limiters_ok l \<longleftrightarrow> bucket_ok (lim_auth l) \<and> bucket_ok (lim_aggregate l) \<and>
     (\<forall>d. bucket_ok (domain_bucket d l))"

lemma limiters_ok_create [inv_intros]:
  assumes "0 \<le> authPerMinute c" "0 \<le> messagePerMinute c" "0 \<le> typingPerMinute c"
    "0 \<le> signalingPerMinute c" "0 \<le> syncPerMinute c" "0 \<le> presencePerMinute c"
    "0 \<le> totalEventsPerMinute c"
  shows "limiters_ok (createDomainRateLimiters c)"
  unfolding limiters_ok_def
proof (intro conjI allI)
  fix d show "bucket_ok (domain_bucket d (createDomainRateLimiters c))"
    using assms by (cases d) (simp_all add: createDomainRateLimiters_def Let_def bucket_ok_new)
qed (use assms in \<open>simp_all add: createDomainRateLimiters_def Let_def bucket_ok_new\<close>)

lemma limiters_ok_consume [inv_intros]:
  assumes "limiters_ok l" shows "limiters_ok (snd (consumeRate l d now))"
proof -
  have "bucket_ok (domain_bucket d' (snd (consumeRate l d now)))" for d'
    using assms bucket_ok_allow [of "domain_bucket d l" now]
    by (cases "d' = d") (auto simp: consumeRate_def Let_def limiters_ok_def split: prod.splits)
  then show ?thesis
    using assms bucket_ok_allow [of "lim_aggregate l" now]
    by (auto simp: consumeRate_def Let_def limiters_ok_def split: prod.splits)
qed

lemma limiters_ok_consume_auth [inv_intros]:
  assumes "limiters_ok l" shows "limiters_ok (snd (consumeAuthRate l now))"
proof -
  have dom: "domain_bucket d' (snd (consumeAuthRate l now)) = domain_bucket d' l" for d'
    by (cases d') (auto simp: consumeAuthRate_def Let_def split: prod.splits)
  show ?thesis
    using assms bucket_ok_allow [of "lim_aggregate l" now] bucket_ok_allow [of "lim_auth l" now]
    unfolding limiters_ok_def dom
    by (auto simp: consumeAuthRate_def Let_def split: prod.splits)
qed

lemma limiters_ok_drain [inv_intros]: "limiters_ok l \<Longrightarrow> limiters_ok (drainAggregate l)"
  by (simp add: drainAggregate_def limiters_ok_def bucket_ok_drain)

lemma consume_granted:
  "fst (consumeRate l d now) \<longleftrightarrow>
   fst (allow (domain_bucket d l) now) \<and> fst (allow (lim_aggregate l) now)"
  by (auto simp: consumeRate_def Let_def split: prod.splits)

lemma consume_domain: "domain_bucket d (snd (consumeRate l d now)) = snd (allow (domain_bucket d l) now)"
  by (auto simp: consumeRate_def Let_def split: prod.splits)

lemma consume_aggregate:
  "lim_aggregate (snd (consumeRate l d now)) =
   (if fst (allow (domain_bucket d l) now) then snd (allow (lim_aggregate l) now) else lim_aggregate l)"
  by (auto simp: consumeRate_def Let_def split: prod.splits)

text \<open>Consumption of a domain, seen through its own bucket and through the aggregate.\<close>

interpretation domain_admission: admission "\<lambda>l t. consumeRate l d t" "\<lambda>l. bk_tokens (domain_bucket d l)"
  "\<lambda>l. bucket_credited (domain_bucket d l)" "\<lambda>l. bk_perMinute (domain_bucket d l)"
  "\<lambda>l. bucket_started (domain_bucket d l)" for d
proof unfold_locales
  fix l :: domain_limiters and t :: int
  let ?b = "domain_bucket d l"
  assume b: "bucket_started ?b"
  note step = bucket_admission.ok_step [OF b, of t] bucket_admission.spend [OF b, of t]
    bucket_admission.credited_step [OF b, of t]
  show "bucket_started (domain_bucket d (snd (consumeRate l d t)))"
    "bk_perMinute (domain_bucket d (snd (consumeRate l d t))) = bk_perMinute ?b"
    "0 \<le> bk_perMinute ?b" "0 \<le> bk_tokens ?b"
    "bucket_credited (domain_bucket d (snd (consumeRate l d t))) \<le> max (bucket_credited ?b) t"
    using step b by (simp_all add: consume_domain bucket_admission.rate_nonneg bucket_admission.budget_nonneg)
  show "bk_tokens (domain_bucket d (snd (consumeRate l d t))) + (if fst (consumeRate l d t) then 1 else 0)
     \<le> bk_tokens ?b + bk_perMinute ?b *
        of_int (bucket_credited (domain_bucket d (snd (consumeRate l d t))) - bucket_credited ?b) / 60000"
    using step by (auto simp: consume_domain consume_granted split: if_splits)
qed

section \<open>Properties\<close>

text \<open>
  C39: However the events of one domain are spread over time, a socket is granted at most its
  per-minute limit plus what the limit refills in the elapsed time. \<open>t0\<close> is the first
  event and \<open>T\<close> bounds the clock readings, which need not be monotone.
\<close>

theorem event_rate_bound:
  assumes "limiters_ok (createDomainRateLimiters c)" and "t0 \<le> T" and "\<forall>t \<in> set ts. t \<le> T"
  shows "of_nat (granted (\<lambda>l t. consumeRate l d t) (createDomainRateLimiters c) (t0 # ts))
    \<le> bk_burst (domain_bucket d (createDomainRateLimiters c)) +
       bk_perMinute (domain_bucket d (createDomainRateLimiters c)) * of_int (T - t0) / 60000"
proof -
  let ?l = "createDomainRateLimiters c"
  let ?b = "domain_bucket d ?l"
  let ?l' = "put_bucket d (?b\<lparr>bk_lastRefillMs := Some t0\<rparr>) ?l"
  have b: "bk_lastRefillMs ?b = None" "bk_tokens ?b = bk_burst ?b"
    by (cases d; simp add: createDomainRateLimiters_def new_bucket_def Let_def)+
  have "put_bucket d x (put_bucket d y ?l) = put_bucket d x ?l" for x y by (cases d) simp_all
  then have "consumeRate ?l d t0 = consumeRate ?l' d t0"
    using allow_fresh [OF b(1), of t0] by (simp add: consumeRate_def Let_def split: prod.splits)
  then have "granted (\<lambda>l t. consumeRate l d t) ?l (t0 # ts) = granted (\<lambda>l t. consumeRate l d t) ?l' (t0 # ts)"
    by (rule granted_cong_first)
  moreover have "bucket_started (domain_bucket d ?l')"
    using assms(1) by (simp add: bucket_started_def limiters_ok_def bucket_ok_def)
  ultimately show ?thesis
    using domain_admission.granted_bound [of d ?l' T "t0 # ts"] assms(2,3) b(2)
    by (simp add: bucket_credited_def)
qed

definition example_limits :: rate_limits where
  "example_limits = \<lparr>authPerMinute = 5, messagePerMinute = 30, typingPerMinute = 12, signalingPerMinute = 60,
     syncPerMinute = 6, presencePerMinute = 12, totalEventsPerMinute = 120\<rparr>"

lemma event_rate_bound_witness:
  "of_nat (granted (\<lambda>l t. consumeRate l RTyping t) (createDomainRateLimiters example_limits) [0, 100, 60000])
    \<le> bk_burst (domain_bucket RTyping (createDomainRateLimiters example_limits)) +
       bk_perMinute (domain_bucket RTyping (createDomainRateLimiters example_limits)) * of_int (60000 - 0) / 60000"
proof (rule event_rate_bound)
  show "limiters_ok (createDomainRateLimiters example_limits)"
    by (rule limiters_ok_create) (simp_all add: example_limits_def)
qed simp_all

text \<open>
  A bucket never starves its client: once the time one token takes has passed since the
  last refill, the next event is granted, whatever was spent before.
\<close>

theorem bucket_recovers:
  assumes "bucket_ok b" and "1 \<le> bk_burst b" and "bk_lastRefillMs b = Some t0"
    and "60000 \<le> of_int (now - t0) * bk_perMinute b" and "t0 < now"
  shows "fst (allow b now)"
proof -
  have "1 \<le> (of_int (now - t0) * bk_perMinute b) / (60000 :: rat)" using assms(4) by simp
  then have "1 \<le> bk_tokens (refill b now)"
    using assms(1,2,3,5) by (simp add: refill_def Let_def bucket_ok_def)
  then show ?thesis using assms(2) by (simp add: allow_def allowN_def Let_def)
qed

lemma bucket_recovers_witness:
  "fst (allow (\<lparr>bk_burst = 5, bk_perMinute = 5, bk_tokens = 0, bk_lastRefillMs = Some 1000\<rparr>) 13000)"
  by (rule bucket_recovers [of _ 1000]) (simp_all add: bucket_ok_def)

end
