(* ===== verification/Config.thy ===== *)
theory Config
  imports Rate_Limiter
begin

text \<open>
  \<^verbatim>\<open>server/src/config.ts\<close>. The process environment is a function from names to
  values (\<open>None\<close> is an unset variable). \<open>configFromEnv\<close> takes the \<open>env\<close> argument of
  the source and, separately, the environment of the process, because the source reads the
  one for some settings and the other for the rest. The configuration extends
  \<open>rate_limits\<close>.
\<close>

type_synonym process_env = "string \<Rightarrow> string option"

datatype lockout_scope = ScopeDevice | ScopeIp
datatype store_backend = MemoryBackend | SupabaseBackend

record realtime_config = rate_limits +
  cf_socketPath :: string
  cf_pingIntervalMs :: int
  cf_pingTimeoutMs :: int
  cf_maxHttpBufferSize :: int
  cf_maxCiphertextBase64Chars :: int
  cf_corsOrigins :: "string list"
  cf_adminToken :: string
  cf_challengeTtlMs :: int
  cf_maxAuthAttemptsPerConnection :: int
  cf_authFailuresLockout :: int
  cf_authLockoutMs :: int
  cf_authLockoutScopes :: "lockout_scope list"
  cf_sessionTtlMs :: int
  cf_newConnectionsPerIpPerMinute :: int
  cf_syncPageLimit :: int
  cf_storeBackend :: store_backend
  cf_supabaseUrl :: string
  cf_supabaseServiceRoleKey :: string

section \<open>Parsing\<close>

text \<open>White space of \<open>String.prototype.trim\<close> within Latin-1.\<close>

definition is_space :: "char \<Rightarrow> bool" where
  "is_space c \<longleftrightarrow> (of_char c :: nat) \<in> {9, 10, 11, 12, 13, 32, 160}"

definition trim :: "string \<Rightarrow> string" where
  "trim s = rev (dropWhile is_space (rev (dropWhile is_space s)))"

text \<open>\<open>s.split(sep)\<close> for a one-character separator.\<close>

fun split_on :: "char \<Rightarrow> string \<Rightarrow> string list" where
  "split_on sep [] = [[]]"
| "split_on sep (c # cs) =
     (if c = sep then [] # split_on sep cs
      else (case split_on sep cs of [] \<Rightarrow> [[c]] | w # ws \<Rightarrow> (c # w) # ws))"

definition is_digit :: "char \<Rightarrow> bool" where
  "is_digit c \<longleftrightarrow> 48 \<le> (of_char c :: nat) \<and> (of_char c :: nat) \<le> 57"

definition digits_value :: "string \<Rightarrow> int" where
  "digits_value ds = foldl (\<lambda>n c. 10 * n + (of_char c - 48)) 0 ds"

text \<open>
  \<open>Number.parseInt(raw, 10)\<close>: leading white space, a sign, the longest run of digits;
  \<open>None\<close> is \<open>NaN\<close>. Values are exact (the double is, up to \<open>2 ^ 53\<close>); from
  \<open>2 ^ 1024 - 2 ^ 970\<close> on, the double is infinite.
\<close>

definition parseInt :: "string \<Rightarrow> int option" where
  "parseInt raw =
     (let s = dropWhile is_space raw;
          (negative, body) = (case s of
             [] \<Rightarrow> (False, [])
           | c # cs \<Rightarrow> if c = CHR ''-'' then (True, cs) else if c = CHR ''+'' then (False, cs) else (False, s));
          ds = takeWhile is_digit body in
      if ds = [] then None
      else Some (if negative then - digits_value ds else digits_value ds))"

definition is_finite_double :: "int \<Rightarrow> bool" where
  "is_finite_double n \<longleftrightarrow> \<bar>n\<bar> < 2 ^ 1024 - 2 ^ 970"

definition intFromEnv :: "process_env \<Rightarrow> string \<Rightarrow> int \<Rightarrow> int" where
  "intFromEnv penv name fallback =
     (case penv name of
        None \<Rightarrow> fallback
      | Some raw \<Rightarrow>
          if raw = [] then fallback
          else (case parseInt raw of
                  None \<Rightarrow> fallback
                | Some parsed \<Rightarrow> if is_finite_double parsed \<and> parsed > 0 then parsed else fallback))"

definition csvFromEnv :: "process_env \<Rightarrow> string \<Rightarrow> string list option" where
  "csvFromEnv penv name =
     (case penv name of
        None \<Rightarrow> None
      | Some raw \<Rightarrow>
          if raw = [] \<or> trim raw = ''*'' then None
          else Some (filter (\<lambda>s. length s > 0) (map trim (split_on (CHR '','') raw))))"

fun lockout_scope_of :: "string \<Rightarrow> lockout_scope option" where
  "lockout_scope_of s =
     (if s = ''device'' then Some ScopeDevice else if s = ''ip'' then Some ScopeIp else None)"

abbreviation or_default :: "'a option \<Rightarrow> 'a \<Rightarrow> 'a" where
  "or_default v d \<equiv> (case v of None \<Rightarrow> d | Some x \<Rightarrow> x)"

definition configFromEnv :: "process_env \<Rightarrow> process_env \<Rightarrow> realtime_config" where
  "configFromEnv penv env =
     (let lockoutScopesRaw = or_default (env ''AUTH_LOCKOUT_SCOPES'') ''device,ip'';
          scopes = List.map_filter (lockout_scope_of \<circ> trim) (split_on (CHR '','') lockoutScopesRaw) in
      \<lparr>authPerMinute = intFromEnv penv ''AUTH_PER_MINUTE'' 5,
       messagePerMinute = intFromEnv penv ''MESSAGE_PER_MINUTE'' 30,
       typingPerMinute = intFromEnv penv ''TYPING_PER_MINUTE'' 12,
       signalingPerMinute = intFromEnv penv ''SIGNALING_PER_MINUTE'' 60,
       syncPerMinute = intFromEnv penv ''SYNC_PER_MINUTE'' 6,
       presencePerMinute = intFromEnv penv ''PRESENCE_PER_MINUTE'' 12,
       totalEventsPerMinute = intFromEnv penv ''TOTAL_EVENTS_PER_MINUTE'' 120,
       cf_socketPath = or_default (env ''SOCKET_PATH'') ''/socket.io/'',
       cf_pingIntervalMs = intFromEnv penv ''PING_INTERVAL'' 25000,
       cf_pingTimeoutMs = intFromEnv penv ''PING_TIMEOUT'' 20000,
       cf_maxHttpBufferSize = intFromEnv penv ''MAX_HTTP_BUFFER_SIZE'' 1000000,
       cf_maxCiphertextBase64Chars = intFromEnv penv ''MAX_CIPHERTEXT_BASE64_CHARS'' 87384,
       cf_corsOrigins = or_default (csvFromEnv penv ''CORS_ORIGIN'') [''*''],
       cf_adminToken = or_default (env ''ADMIN_TOKEN'') [],
       cf_challengeTtlMs = intFromEnv penv ''CHALLENGE_TTL_MS'' 60000,
       cf_maxAuthAttemptsPerConnection = intFromEnv penv ''MAX_AUTH_ATTEMPTS_PER_CONNECTION'' 3,
       cf_authFailuresLockout = intFromEnv penv ''AUTH_FAILURES_LOCKOUT'' 5,
       cf_authLockoutMs = intFromEnv penv ''AUTH_LOCKOUT_MS'' 120000,
       cf_authLockoutScopes = (if length scopes > 0 then scopes else [ScopeDevice, ScopeIp]),
       cf_sessionTtlMs = intFromEnv penv ''SESSION_TTL_MS'' (24 * 60 * 60 * 1000),
       cf_newConnectionsPerIpPerMinute = intFromEnv penv ''NEW_CONNECTIONS_PER_IP_PER_MINUTE'' 60,
       cf_syncPageLimit = intFromEnv penv ''SYNC_PAGE_LIMIT'' 100,
       cf_storeBackend = (if env ''STORE_BACKEND'' = Some ''supabase'' then SupabaseBackend else MemoryBackend),
       cf_supabaseUrl = or_default (env ''SUPABASE_URL'') [],
       cf_supabaseServiceRoleKey = or_default (env ''SUPABASE_SERVICE_ROLE_KEY'') []\<rparr>)"

definition DEFAULT_CONFIG :: "process_env \<Rightarrow> realtime_config" where
  "DEFAULT_CONFIG penv = configFromEnv penv (\<lambda>_. None)"

section \<open>Every configuration from the environment is usable\<close>

text \<open>
  What the server's operations need of a configuration: positive limits, windows and page
  size. \<open>Partial\<close> overrides in code may break it; the environment cannot.
\<close>

definition limits_ok :: "'a rate_limits_scheme \<Rightarrow> bool" where
  "limits_ok c \<longleftrightarrow> 0 \<le> authPerMinute c \<and> 0 \<le> messagePerMinute c \<and> 0 \<le> typingPerMinute c \<and>
     0 \<le> signalingPerMinute c \<and> 0 \<le> syncPerMinute c \<and> 0 \<le> presencePerMinute c \<and> 0 \<le> totalEventsPerMinute c"

definition config_ok :: "realtime_config \<Rightarrow> bool" where
  "config_ok c \<longleftrightarrow> limits_ok c \<and> 0 \<le> cf_newConnectionsPerIpPerMinute c \<and> 0 < cf_syncPageLimit c \<and>
     0 < cf_authLockoutMs c \<and> 0 < cf_authFailuresLockout c \<and> 0 < cf_challengeTtlMs c \<and>
     0 < cf_sessionTtlMs c \<and> cf_authLockoutScopes c \<noteq> []"

lemma intFromEnv_pos: "0 < fallback \<Longrightarrow> 0 < intFromEnv penv name fallback"
  by (auto simp: intFromEnv_def split: option.splits)

lemma intFromEnv_nonneg: "0 < fallback \<Longrightarrow> 0 \<le> intFromEnv penv name fallback"
  using intFromEnv_pos [of fallback penv name] by simp

lemma config_ok_env: "config_ok (configFromEnv penv env)"
  unfolding config_ok_def limits_ok_def
  by (simp add: configFromEnv_def Let_def intFromEnv_pos intFromEnv_nonneg)

lemma limiters_ok_config [inv_intros]: "limits_ok c \<Longrightarrow> limiters_ok (createDomainRateLimiters c)"
  by (rule limiters_ok_create) (simp_all add: limits_ok_def)

text \<open>The numeric settings do not depend on the \<open>env\<close> argument.\<close>

lemma configFromEnv_ignores_env:
  "cf_sessionTtlMs (configFromEnv penv env) = intFromEnv penv ''SESSION_TTL_MS'' 86400000"
  "cf_maxHttpBufferSize (configFromEnv penv env) = intFromEnv penv ''MAX_HTTP_BUFFER_SIZE'' 1000000"
  by (simp_all add: configFromEnv_def Let_def)

section \<open>Properties\<close>

text \<open>
  Every environment gives a usable configuration. Missing, empty, unparseable, negative,
  zero and infinite values fall back, so all limits, windows and the page size are positive
  and at least one lockout scope is on.
\<close>

theorem environment_config_usable:
  "config_ok (configFromEnv penv env) \<and> limiters_ok (createDomainRateLimiters (configFromEnv penv env))"
  using config_ok_env [of penv env] by (simp_all add: config_ok_def limiters_ok_config)

text \<open>
  The numeric settings and the CORS list come from the environment of the process, not
  from the \<open>env\<close> argument, which only the strings and the lockout scopes follow.
\<close>

theorem env_argument_ignored_for_numbers:
  "cf_sessionTtlMs (configFromEnv penv env) = cf_sessionTtlMs (configFromEnv penv env') \<and>
   cf_authLockoutMs (configFromEnv penv env) = cf_authLockoutMs (configFromEnv penv env') \<and>
   messagePerMinute (configFromEnv penv env) = messagePerMinute (configFromEnv penv env') \<and>
   cf_corsOrigins (configFromEnv penv env) = cf_corsOrigins (configFromEnv penv env')"
  by (simp add: configFromEnv_def Let_def)

end
