(* ===== verification/Challenge_Store.thy ===== *)
theory Challenge_Store
  imports Prelude
begin

text \<open>
  \<^verbatim>\<open>server/src/protocol/challenge_store.ts\<close>: challenges bound to a connection
  attempt, expiring and single use. The random identifier and challenge bytes drawn by
  \<open>issue\<close> are arguments, as is the clock reading.

  The locale \<open>single_use\<close> states what the handshake needs of the store: a consume that
  succeeds finds its key live and leaves it dead, and no consume revives a key. Its lemma, that no key
  succeeds twice in any run, is interpreted for \<open>consume\<close>.
\<close>

definition WILDCARD :: string where
  "WILDCARD = ''*''"

record stored_challenge =
  ch_socketKey :: string
  ch_accountId :: string
  ch_deviceId :: string
  ch_challengeBase64 :: string
  ch_expiresAtMs :: int

record issued_challenge =
  is_challengeId :: string
  is_challengeBase64 :: string
  is_expiresAtMs :: int

record challenge_store =
  cs_ttlMs :: int
  cs_challenges :: "(string \<times> stored_challenge) list"

datatype consume_result = ConsumeOk string | UnknownChallenge | ChallengeExpired | WrongAttempt

definition new_challenge_store :: "int \<Rightarrow> challenge_store" where
  "new_challenge_store ttlMs = \<lparr>cs_ttlMs = ttlMs, cs_challenges = []\<rparr>"

definition sweep :: "challenge_store \<Rightarrow> int \<Rightarrow> challenge_store" where
  "sweep cs now =
     cs\<lparr>cs_challenges := filter (\<lambda>(id, entry). \<not> now > ch_expiresAtMs entry) (cs_challenges cs)\<rparr>"

definition issueBound :: "challenge_store \<Rightarrow> int \<Rightarrow> string \<Rightarrow> string \<Rightarrow> string \<Rightarrow> string \<Rightarrow> string
    \<Rightarrow> issued_challenge \<times> challenge_store" where
  "issueBound cs now challengeId challengeBase64 socketKey accountId deviceId =
     (let expiresAtMs = now + cs_ttlMs cs;
          entry = \<lparr>ch_socketKey = socketKey, ch_accountId = accountId, ch_deviceId = deviceId,
            ch_challengeBase64 = challengeBase64, ch_expiresAtMs = expiresAtMs\<rparr>;
          cs' = cs\<lparr>cs_challenges := map_set challengeId entry (cs_challenges cs)\<rparr> in
      (\<lparr>is_challengeId = challengeId, is_challengeBase64 = challengeBase64,
        is_expiresAtMs = expiresAtMs\<rparr>, sweep cs' now))"

definition issue :: "challenge_store \<Rightarrow> int \<Rightarrow> string \<Rightarrow> string \<Rightarrow> string
    \<Rightarrow> issued_challenge \<times> challenge_store" where
  "issue cs now challengeId challengeBase64 socketKey =
     issueBound cs now challengeId challengeBase64 socketKey WILDCARD WILDCARD"

definition rebind :: "challenge_store \<Rightarrow> int \<Rightarrow> string \<Rightarrow> string \<Rightarrow> string \<Rightarrow> bool \<times> challenge_store" where
  "rebind cs now challengeId accountId deviceId =
     (case map_get (cs_challenges cs) challengeId of
        None \<Rightarrow> (False, cs)
      | Some entry \<Rightarrow>
          if now > ch_expiresAtMs entry then (False, cs)
          else if ch_accountId entry \<noteq> WILDCARD \<or> ch_deviceId entry \<noteq> WILDCARD then (False, cs)
          else (True, cs\<lparr>cs_challenges := map_set challengeId
                 (entry\<lparr>ch_accountId := accountId, ch_deviceId := deviceId\<rparr>) (cs_challenges cs)\<rparr>))"

record attempt =
  at_challengeId :: string
  at_socketKey :: string
  at_accountId :: string
  at_deviceId :: string

definition consume :: "challenge_store \<Rightarrow> int \<Rightarrow> attempt \<Rightarrow> consume_result \<times> challenge_store" where
  "consume cs now a =
     (case map_get (cs_challenges cs) (at_challengeId a) of
        None \<Rightarrow> (UnknownChallenge, cs)
      | Some entry \<Rightarrow>
          (let cs' = cs\<lparr>cs_challenges := map_delete (at_challengeId a) (cs_challenges cs)\<rparr> in
           if now > ch_expiresAtMs entry then (ChallengeExpired, cs')
           else if ch_socketKey entry \<noteq> at_socketKey a \<or> ch_accountId entry \<noteq> at_accountId a
             \<or> ch_deviceId entry \<noteq> at_deviceId a then (WrongAttempt, cs')
           else (ConsumeOk (ch_challengeBase64 entry), cs')))"

definition challenge_liveCount :: "challenge_store \<Rightarrow> nat" where
  "challenge_liveCount cs = length (cs_challenges cs)"

section \<open>Well-formedness\<close>

definition challenges_ok :: "challenge_store \<Rightarrow> bool" where
  "challenges_ok cs \<longleftrightarrow> distinct (map_keys (cs_challenges cs))"

lemma challenges_ok_new [inv_intros]: "challenges_ok (new_challenge_store ttl)"
  by (simp add: challenges_ok_def new_challenge_store_def)

lemma challenges_ok_sweep [inv_intros]: "challenges_ok cs \<Longrightarrow> challenges_ok (sweep cs now)"
  by (simp add: challenges_ok_def sweep_def)

lemma challenges_ok_issueBound [inv_intros]:
  "challenges_ok cs \<Longrightarrow> challenges_ok (snd (issueBound cs now i c s a d))"
  by (simp add: issueBound_def Let_def challenges_ok_sweep) (simp add: challenges_ok_def sweep_def)

lemma challenges_ok_issue [inv_intros]:
  "challenges_ok cs \<Longrightarrow> challenges_ok (snd (issue cs now i c s))"
  by (simp add: issue_def challenges_ok_issueBound)

lemma challenges_ok_rebind [inv_intros]: "challenges_ok cs \<Longrightarrow> challenges_ok (snd (rebind cs now i a d))"
  by (auto simp: challenges_ok_def rebind_def split: option.splits)

lemma challenges_ok_consume [inv_intros]: "challenges_ok cs \<Longrightarrow> challenges_ok (snd (consume cs now a))"
  by (auto simp: challenges_ok_def consume_def Let_def split: option.splits)

lemma map_get_sweep:
  assumes "challenges_ok cs"
  shows "map_get (cs_challenges (sweep cs now)) i =
    (case map_get (cs_challenges cs) i of None \<Rightarrow> None
     | Some e \<Rightarrow> if now \<le> ch_expiresAtMs e then Some e else None)"
  using assms map_of_filter_distinct [of "cs_challenges cs" "\<lambda>i e. \<not> now > ch_expiresAtMs e" i]
  by (cases "map_get (cs_challenges cs) i") (simp_all add: sweep_def challenges_ok_def not_less)

lemma map_get_issueBound:
  assumes "challenges_ok cs"
  shows "map_get (cs_challenges (snd (issueBound cs now i c s a d))) j =
    (if j = i then (if 0 \<le> cs_ttlMs cs then Some \<lparr>ch_socketKey = s, ch_accountId = a, ch_deviceId = d,
        ch_challengeBase64 = c, ch_expiresAtMs = now + cs_ttlMs cs\<rparr> else None)
     else map_get (cs_challenges (sweep cs now)) j)"
proof -
  have "challenges_ok (cs\<lparr>cs_challenges := map_set i e (cs_challenges cs)\<rparr>)" for e
    using assms by (simp add: challenges_ok_def)
  then show ?thesis
    using assms by (simp add: issueBound_def Let_def map_get_sweep)
qed

section \<open>Single use\<close>

text \<open>The successes of a run of consumes, in order.\<close>

fun successes :: "('s \<Rightarrow> 'q \<Rightarrow> 'r option \<times> 's) \<Rightarrow> 's \<Rightarrow> 'q list \<Rightarrow> 'q list" where
  "successes use s [] = []"
| "successes use s (q # qs) =
     (let (r, s') = use s q in (if r = None then [] else [q]) @ successes use s' qs)"

locale single_use =
  fixes use :: "'s \<Rightarrow> 'q \<Rightarrow> 'r option \<times> 's"
    and live :: "'s \<Rightarrow> 'k set"
    and key :: "'q \<Rightarrow> 'k"
  assumes use_live: "fst (use s q) \<noteq> None \<Longrightarrow> key q \<in> live s"
    and use_shrinks: "live (snd (use s q)) \<subseteq> live s"
    and use_kills: "fst (use s q) \<noteq> None \<Longrightarrow> key q \<notin> live (snd (use s q))"
begin

lemma successes_live: "q \<in> set (successes use s qs) \<Longrightarrow> key q \<in> live s"
proof (induction qs arbitrary: s)
  case Nil
  then show ?case by simp
next
  case (Cons a qs)
  obtain r s' where step: "use s a = (r, s')" by fastforce
  show ?case
  proof (cases "q \<in> set (successes use s' qs)")
    case True
    then have "key q \<in> live s'" by (rule Cons.IH)
    with use_shrinks [of s a] step show ?thesis by auto
  next
    case False
    with Cons.prems step have "q = a" "r \<noteq> None" by (auto split: if_splits)
    with use_live [of s a] step show ?thesis by simp
  qed
qed

lemma at_most_one: "distinct (map key (successes use s qs))"
proof (induction qs arbitrary: s)
  case Nil
  then show ?case by simp
next
  case (Cons a qs)
  obtain r s' where step: "use s a = (r, s')" by fastforce
  have "key a \<notin> key ` set (successes use s' qs)" if "r \<noteq> None"
  proof
    assume "key a \<in> key ` set (successes use s' qs)"
    then obtain q where "q \<in> set (successes use s' qs)" and "key q = key a" by auto
    then have "key a \<in> live s'" using successes_live by metis
    then show False using use_kills [of s a] step that by simp
  qed
  moreover have "distinct (map key (successes use s' qs))" by (rule Cons.IH)
  ultimately show ?case by (simp add: step)
qed

end

text \<open>A consume as a call with its clock reading; only \<open>'ok'\<close> returns the bytes.\<close>

definition consume_bytes :: "challenge_store \<Rightarrow> int \<times> attempt \<Rightarrow> string option \<times> challenge_store" where
  "consume_bytes cs q =
     (case consume cs (fst q) (snd q) of
        (ConsumeOk bytes, cs') \<Rightarrow> (Some bytes, cs')
      | (_, cs') \<Rightarrow> (None, cs'))"

lemma snd_consume_bytes: "snd (consume_bytes cs q) = snd (consume cs (fst q) (snd q))"
  by (auto simp: consume_bytes_def split: prod.splits consume_result.splits)

lemma fst_consume_bytes:
  "fst (consume_bytes cs q) = Some bytes \<longleftrightarrow> fst (consume cs (fst q) (snd q)) = ConsumeOk bytes"
  by (auto simp: consume_bytes_def split: prod.splits consume_result.splits)

lemma consume_removes:
  "cs_challenges (snd (consume cs now a)) = map_delete (at_challengeId a) (cs_challenges cs)"
  by (auto simp: consume_def Let_def delete_id map_of_eq_None_iff split: option.splits)

lemma consume_ok_iff:
  "fst (consume cs now a) = ConsumeOk bytes \<longleftrightarrow>
   (\<exists>entry. map_get (cs_challenges cs) (at_challengeId a) = Some entry \<and> now \<le> ch_expiresAtMs entry \<and>
      ch_socketKey entry = at_socketKey a \<and> ch_accountId entry = at_accountId a \<and>
      ch_deviceId entry = at_deviceId a \<and> ch_challengeBase64 entry = bytes)"
  by (auto simp: consume_def Let_def split: option.splits)

interpretation challenge_single_use: single_use consume_bytes
  "\<lambda>cs. dom (map_get (cs_challenges cs))" "\<lambda>q. at_challengeId (snd q)"
proof unfold_locales
  fix cs and q :: "int \<times> attempt"
  show "fst (consume_bytes cs q) \<noteq> None \<Longrightarrow> at_challengeId (snd q) \<in> dom (map_get (cs_challenges cs))"
    by (auto simp: fst_consume_bytes consume_ok_iff)
  show "dom (map_get (cs_challenges (snd (consume_bytes cs q)))) \<subseteq> dom (map_get (cs_challenges cs))"
    "at_challengeId (snd q) \<notin> dom (map_get (cs_challenges (snd (consume_bytes cs q))))"
    by (auto simp: snd_consume_bytes consume_removes split: if_splits)
qed

section \<open>Rebinding\<close>

lemma rebind_get:
  "map_get (cs_challenges (snd (rebind cs now i a d))) j =
     (case map_get (cs_challenges cs) j of
        None \<Rightarrow> None
      | Some e \<Rightarrow> Some (if j = i \<and> now \<le> ch_expiresAtMs e \<and> ch_accountId e = WILDCARD \<and> ch_deviceId e = WILDCARD
                     then e\<lparr>ch_accountId := a, ch_deviceId := d\<rparr> else e))"
  by (auto simp: rebind_def split: option.splits)

lemma rebind_dom:
  "map_get (cs_challenges (snd (rebind cs now i a d))) j = None \<longleftrightarrow> map_get (cs_challenges cs) j = None"
  by (simp add: rebind_get split: option.splits)

text \<open>
  The connect-time variant: rebinding to the claimed identity and consuming right after
  succeeds exactly for a live challenge of this socket that is unbound, or already bound to
  the same identity.
\<close>

lemma rebind_consume_ok:
  "fst (consume (snd (rebind cs now i a d)) now
      \<lparr>at_challengeId = i, at_socketKey = s, at_accountId = a, at_deviceId = d\<rparr>) = ConsumeOk bytes \<longleftrightarrow>
   (\<exists>e. map_get (cs_challenges cs) i = Some e \<and> now \<le> ch_expiresAtMs e \<and> ch_socketKey e = s \<and>
      ch_challengeBase64 e = bytes \<and>
      (ch_accountId e = WILDCARD \<and> ch_deviceId e = WILDCARD \<or> ch_accountId e = a \<and> ch_deviceId e = d))"
  by (auto simp: consume_ok_iff rebind_get split: option.splits if_splits)

section \<open>Properties\<close>

text \<open>
  A challenge is answered at most once. In any run of consume attempts, from any store,
  the attempts that succeed name pairwise different challenges.
\<close>

theorem challenge_used_once:
  "distinct (map (\<lambda>q. at_challengeId (snd q)) (successes consume_bytes cs qs))"
  by (rule challenge_single_use.at_most_one)

text \<open>
  What a fresh challenge is good for: after \<open>issue\<close>, rebinding to an identity and
  consuming at a later time gives the issued bytes exactly to the socket it was issued to and
  until its expiry.
\<close>

theorem issued_challenge_consumable:
  assumes "challenges_ok cs" and "0 \<le> cs_ttlMs cs" and "issue cs t0 i bytes sk = (issued, cs')"
  shows "fst (consume (snd (rebind cs' t i a d)) t
      \<lparr>at_challengeId = i, at_socketKey = s, at_accountId = a, at_deviceId = d\<rparr>) = ConsumeOk b \<longleftrightarrow>
    b = bytes \<and> s = sk \<and> t \<le> is_expiresAtMs issued"
proof -
  have "issued = \<lparr>is_challengeId = i, is_challengeBase64 = bytes, is_expiresAtMs = t0 + cs_ttlMs cs\<rparr>"
    using assms(3) by (auto simp: issue_def issueBound_def Let_def)
  moreover have "map_get (cs_challenges cs') i = Some \<lparr>ch_socketKey = sk, ch_accountId = WILDCARD,
      ch_deviceId = WILDCARD, ch_challengeBase64 = bytes, ch_expiresAtMs = t0 + cs_ttlMs cs\<rparr>"
    using map_get_issueBound [OF assms(1), of t0 i bytes sk WILDCARD WILDCARD i] assms(2,3)
    by (simp add: issue_def)
  ultimately show ?thesis by (auto simp: rebind_consume_ok)
qed

lemma issued_challenge_consumable_witness:
  "fst (consume (snd (rebind (snd (issue (new_challenge_store 60000) 5 ''c'' ''b'' ''s'')) 60 ''c'' ''alice'' ''a1'')) 60
      \<lparr>at_challengeId = ''c'', at_socketKey = ''s'', at_accountId = ''alice'', at_deviceId = ''a1''\<rparr>) = ConsumeOk ''b''"
proof -
  have "issue (new_challenge_store 60000) 5 ''c'' ''b'' ''s'' =
      (\<lparr>is_challengeId = ''c'', is_challengeBase64 = ''b'', is_expiresAtMs = 60005\<rparr>,
       snd (issue (new_challenge_store 60000) 5 ''c'' ''b'' ''s''))"
    by (simp add: issue_def issueBound_def new_challenge_store_def Let_def)
  from issued_challenge_consumable [OF challenges_ok_new _ this] show ?thesis
    by (simp add: new_challenge_store_def)
qed

end
