(* ===== verification/Message_Dedup.thy ===== *)
theory Message_Dedup
  imports Prelude
begin

text \<open>
  \<^verbatim>\<open>server/src/protocol/message_dedup.ts\<close>: the window of recently accepted message
  keys. The code keeps a tick per key and scans for the smallest on eviction; the abstract
  specification is a queue in order of last use. \<open>abs_dedup\<close> maps one to the other and
  \<open>accept_refines\<close> is the simulation.

  \<open>clockTick++\<close> is exact below \<open>Number.MAX_SAFE_INTEGER\<close>, which is also where the
  scan starts its minimum; \<open>dedup_ok\<close> asks for ticks below it.
\<close>

definition MAX_SAFE_INTEGER :: int where
  "MAX_SAFE_INTEGER = 9007199254740991"

record message_dedup =
  dd_windowSize :: nat
  dd_seen :: "(string \<times> int) list"
  dd_clockTick :: int

definition new_dedup :: "nat \<Rightarrow> message_dedup" where
  "new_dedup windowSize = \<lparr>dd_windowSize = windowSize, dd_seen = [], dd_clockTick = 0\<rparr>"

fun oldest_loop :: "(string \<times> int) list \<Rightarrow> int \<Rightarrow> string option \<Rightarrow> string option" where
  "oldest_loop [] oldestTick oldest = oldest"
| "oldest_loop ((key, tick) # rest) oldestTick oldest =
     (if tick < oldestTick then oldest_loop rest tick (Some key) else oldest_loop rest oldestTick oldest)"

definition evictOldest :: "message_dedup \<Rightarrow> message_dedup" where
  "evictOldest d =
     (case oldest_loop (dd_seen d) MAX_SAFE_INTEGER None of
        None \<Rightarrow> d
      | Some oldest \<Rightarrow> d\<lparr>dd_seen := map_delete oldest (dd_seen d)\<rparr>)"

definition accept :: "message_dedup \<Rightarrow> string \<Rightarrow> bool \<times> message_dedup" where
  "accept d messageId =
     (let d' = d\<lparr>dd_seen := map_set messageId (dd_clockTick d) (dd_seen d),
                 dd_clockTick := dd_clockTick d + 1\<rparr> in
      if map_has (dd_seen d) messageId then (False, d')
      else if length (dd_seen d') > dd_windowSize d' then (True, evictOldest d')
      else (True, d'))"

definition dedup_contains :: "message_dedup \<Rightarrow> string \<Rightarrow> bool" where
  "dedup_contains d messageId \<longleftrightarrow> map_has (dd_seen d) messageId"

definition remembered :: "message_dedup \<Rightarrow> nat" where
  "remembered d = length (dd_seen d)"

section \<open>The specification: a queue in order of last use\<close>

definition lru_accept :: "nat \<Rightarrow> string list \<Rightarrow> string \<Rightarrow> bool \<times> string list" where
  "lru_accept w q m =
     (if m \<in> set q then (False, remove1 m q @ [m])
      else (True, if length q + 1 > w then tl (q @ [m]) else q @ [m]))"

definition abs_dedup :: "message_dedup \<Rightarrow> string list" where
  "abs_dedup d = map fst (sort_key snd (dd_seen d))"

definition dedup_ok :: "message_dedup \<Rightarrow> bool" where
  "dedup_ok d \<longleftrightarrow> distinct (map_keys (dd_seen d)) \<and> distinct (map_values (dd_seen d)) \<and>
     (\<forall>t \<in> set (map_values (dd_seen d)). t < dd_clockTick d) \<and> length (dd_seen d) \<le> dd_windowSize d"

lemma dedup_ok_new [inv_intros]: "dedup_ok (new_dedup w)"
  by (simp add: dedup_ok_def new_dedup_def)

lemma set_abs_dedup: "set (abs_dedup d) = dom (map_get (dd_seen d))"
  by (simp add: abs_dedup_def dom_map_of_conv_image_fst)

lemma length_abs_dedup: "length (abs_dedup d) = length (dd_seen d)"
  by (simp add: abs_dedup_def)

text \<open>The scan returns the first key of the list sorted by tick.\<close>

lemma oldest_loop_spec:
  "(oldest_loop xs t o' = o' \<and> (\<forall>p \<in> set xs. t \<le> snd p)) \<or>
   (\<exists>p \<in> set xs. oldest_loop xs t o' = Some (fst p) \<and> snd p < t \<and> (\<forall>q \<in> set xs. snd p \<le> snd q))"
proof (induction xs t o' rule: oldest_loop.induct)
  case (1 t o')
  then show ?case by simp
next
  case (2 i k rest t o')
  show ?case
  proof (cases "k < t")
    case True
    from "2.IH"(1) [OF True] True show ?thesis by force
  next
    case False
    from "2.IH"(2) [OF False] False show ?thesis by force
  qed
qed

lemma oldest_loop_hd:
  assumes "xs \<noteq> []" and "distinct (map snd xs)" and "\<forall>p \<in> set xs. snd p < t"
  shows "oldest_loop xs t None = Some (fst (hd (sort_key snd xs)))"
proof -
  obtain p where p: "p \<in> set xs" "oldest_loop xs t None = Some (fst p)" "\<forall>q \<in> set xs. snd p \<le> snd q"
  proof -
    have "\<not> (\<forall>p \<in> set xs. t \<le> snd p)"
      using assms(1,3) by (cases xs) auto
    then show thesis using that oldest_loop_spec [of xs t None] by blast
  qed
  let ?s = "sort_key snd xs"
  have hd: "hd ?s \<in> set xs"
    using assms(1) by (metis hd_in_set set_empty set_sort)
  obtain a l where s: "?s = a # l"
    using assms(1) by (cases ?s) (auto dest: arg_cong [where f = length])
  have "p \<in> set (a # l)" using p(1) s by (metis set_sort)
  moreover have "sorted (map snd (a # l))" by (metis s sorted_sort_key)
  ultimately have "snd (hd ?s) \<le> snd p" by (auto simp: s)
  with p(3) hd have "snd (hd ?s) = snd p" by force
  with assms(2) p(1) hd have "hd ?s = p"
    by (auto simp: distinct_map inj_on_def)
  with p(2) show ?thesis by simp
qed

text \<open>Touching or adding a key moves it to the end of the sorted list.\<close>

lemma sort_touch:
  assumes "distinct (map fst xs)" and "distinct (map snd xs)" and "\<forall>p \<in> set xs. snd p < (t :: int)"
  shows "sort_key snd (AList.update m t xs) = filter (\<lambda>p. fst p \<noteq> m) (sort_key snd xs) @ [(m, t)]"
proof (rule sort_key_inj_key_eq)
  show "mset (AList.update m t xs) = mset (filter (\<lambda>p. fst p \<noteq> m) (sort_key snd xs) @ [(m, t)])"
    using assms(1) by (simp add: mset_update)
  show "inj_on snd (set (AList.update m t xs))"
    using assms by (fastforce simp: inj_on_def in_set_update distinct_map)
  show "sorted (map snd (filter (\<lambda>p. fst p \<noteq> m) (sort_key snd xs) @ [(m, t)]))"
    using assms(3) by (fastforce simp: sorted_append intro: sorted_filter)
qed

lemma touched_ok:
  fixes m :: string
  assumes "dedup_ok d"
  defines "seen' \<equiv> map_set m (dd_clockTick d) (dd_seen d)"
  shows "distinct (map fst seen')" and "distinct (map snd seen')" and "\<forall>p \<in> set seen'. snd p < dd_clockTick d + 1"
proof -
  have keys: "distinct (map fst (dd_seen d))" and vals: "distinct (map snd (dd_seen d))"
    and lt: "\<forall>p \<in> set (dd_seen d). snd p < dd_clockTick d"
    using assms by (auto simp: dedup_ok_def)
  show k: "distinct (map fst seen')" using keys by (simp add: seen'_def)
  show "\<forall>p \<in> set seen'. snd p < dd_clockTick d + 1"
    using keys lt by (fastforce simp: seen'_def in_set_update)
  have "distinct seen'" using k by (simp add: distinct_map)
  moreover have "inj_on snd (set seen')"
    using keys vals lt by (fastforce simp: seen'_def inj_on_def in_set_update distinct_map)
  ultimately show "distinct (map snd seen')" by (simp add: distinct_map)
qed

lemma sort_touched:
  assumes "dedup_ok d"
  shows "map fst (sort_key snd (map_set m (dd_clockTick d) (dd_seen d))) = filter (\<lambda>k. k \<noteq> m) (abs_dedup d) @ [m]"
  using assms sort_touch [of "dd_seen d" "dd_clockTick d" m]
  by (auto simp: dedup_ok_def abs_dedup_def filter_map comp_def)

section \<open>Simulation\<close>

lemma distinct_abs_dedup: "dedup_ok d \<Longrightarrow> distinct (abs_dedup d)"
  unfolding abs_dedup_def dedup_ok_def
  by (metis distinct_map distinct_sort set_sort)

lemma evict_oldest_abs:
  assumes "distinct (map fst (dd_seen d))" "distinct (map snd (dd_seen d))" "dd_seen d \<noteq> []"
    "\<forall>p \<in> set (dd_seen d). snd p < MAX_SAFE_INTEGER"
  shows "abs_dedup (evictOldest d) = tl (abs_dedup d)"
    and "dd_seen (evictOldest d) = filter (\<lambda>p. fst p \<noteq> hd (abs_dedup d)) (dd_seen d)"
    and "dd_clockTick (evictOldest d) = dd_clockTick d" and "dd_windowSize (evictOldest d) = dd_windowSize d"
proof -
  let ?s = "sort_key snd (dd_seen d)"
  have old: "oldest_loop (dd_seen d) MAX_SAFE_INTEGER None = Some (fst (hd ?s))"
    using assms by (intro oldest_loop_hd) auto
  obtain p ps where s: "?s = p # ps"
    using assms(3) by (cases ?s) (auto dest: arg_cong [where f = length])
  show seen: "dd_seen (evictOldest d) = filter (\<lambda>p. fst p \<noteq> hd (abs_dedup d)) (dd_seen d)"
    by (simp add: evictOldest_def old abs_dedup_def s AList.delete_eq case_prod_unfold eq_commute)
  have "distinct (map fst ?s)"
    using assms(1) by (simp add: distinct_map)
  then have "fst p \<notin> fst ` set ps" by (simp add: s)
  then have "filter (\<lambda>q. fst q \<noteq> fst p) ps = ps"
    by (intro filter_True ballI notI) (metis imageI)
  moreover have "sort_key snd (filter (\<lambda>q. fst q \<noteq> fst p) (dd_seen d)) = filter (\<lambda>q. fst q \<noteq> fst p) ?s"
    by (simp add: filter_sort)
  ultimately show "abs_dedup (evictOldest d) = tl (abs_dedup d)"
    using seen by (simp add: abs_dedup_def s)
  show "dd_clockTick (evictOldest d) = dd_clockTick d" "dd_windowSize (evictOldest d) = dd_windowSize d"
    by (simp_all add: evictOldest_def old)
qed

lemma length_touch:
  "distinct (map fst m) \<Longrightarrow> length (AList.update k v m) = (if map_has m k then length m else length m + 1)"
  by (induction m) auto

lemma accept_refines:
  assumes ok: "dedup_ok d" and tick: "dd_clockTick d < MAX_SAFE_INTEGER"
  shows "fst (accept d m) = fst (lru_accept (dd_windowSize d) (abs_dedup d) m)"
    and "abs_dedup (snd (accept d m)) = snd (lru_accept (dd_windowSize d) (abs_dedup d) m)"
    and "dedup_ok (snd (accept d m))"
proof -
  let ?seen = "map_set m (dd_clockTick d) (dd_seen d)"
  let ?d = "d\<lparr>dd_seen := ?seen, dd_clockTick := dd_clockTick d + 1\<rparr>"
  have known: "m \<in> set (abs_dedup d) \<longleftrightarrow> map_has (dd_seen d) m"
    unfolding set_abs_dedup by auto
  have len: "length ?seen = (if map_has (dd_seen d) m then length (dd_seen d) else length (dd_seen d) + 1)"
    using ok by (simp add: dedup_ok_def length_touch)
  have abs': "abs_dedup ?d = filter (\<lambda>k. k \<noteq> m) (abs_dedup d) @ [m]"
    using sort_touched [OF ok, of m] by (simp add: abs_dedup_def)
  note touched = touched_ok [OF ok, of m]
  have w: "length (dd_seen d) \<le> dd_windowSize d" using ok by (simp add: dedup_ok_def)
  show "fst (accept d m) = fst (lru_accept (dd_windowSize d) (abs_dedup d) m)"
    by (auto simp: accept_def lru_accept_def Let_def set_abs_dedup)
  consider (dup) "map_has (dd_seen d) m"
    | (fits) "\<not> map_has (dd_seen d) m" "length (dd_seen d) + 1 \<le> dd_windowSize d"
    | (full) "\<not> map_has (dd_seen d) m" "length (dd_seen d) + 1 > dd_windowSize d"
    by linarith
  then have "abs_dedup (snd (accept d m)) = snd (lru_accept (dd_windowSize d) (abs_dedup d) m) \<and>
      dedup_ok (snd (accept d m))"
  proof cases
    case dup
    then have acc: "accept d m = (False, ?d)" by (simp add: accept_def Let_def)
    have "filter (\<lambda>k. k \<noteq> m) (abs_dedup d) = remove1 m (abs_dedup d)"
      using distinct_abs_dedup [OF ok] by (simp add: distinct_remove1_removeAll removeAll_filter_not_eq eq_commute)
    then show ?thesis
      using touched dup len w abs' by (auto simp: acc dedup_ok_def lru_accept_def known)
  next
    case fits
    then have acc: "accept d m = (True, ?d)" by (auto simp: accept_def Let_def len)
    have "filter (\<lambda>k. k \<noteq> m) (abs_dedup d) = abs_dedup d"
      using fits known by (auto simp: filter_id_conv)
    then show ?thesis
      using touched fits len known abs' by (auto simp: acc dedup_ok_def lru_accept_def length_abs_dedup)
  next
    case full
    then have acc: "accept d m = (True, evictOldest ?d)" by (auto simp: accept_def Let_def len)
    have same: "filter (\<lambda>k. k \<noteq> m) (abs_dedup d) = abs_dedup d"
      using full known by (auto simp: filter_id_conv)
    have "\<forall>p \<in> set (dd_seen ?d). snd p < MAX_SAFE_INTEGER"
      using touched(3) tick by fastforce
    then have ev: "abs_dedup (evictOldest ?d) = tl (abs_dedup ?d)"
      "dd_seen (evictOldest ?d) = filter (\<lambda>p. fst p \<noteq> hd (abs_dedup ?d)) ?seen"
      "dd_clockTick (evictOldest ?d) = dd_clockTick d + 1" "dd_windowSize (evictOldest ?d) = dd_windowSize d"
      using evict_oldest_abs [of ?d] touched(1,2) by simp_all
    have "length (dd_seen (evictOldest ?d)) = length (abs_dedup ?d) - 1"
      using ev(1) length_abs_dedup [of "evictOldest ?d"] by simp
    then have "length (dd_seen (evictOldest ?d)) \<le> dd_windowSize d"
      using w by (simp add: abs' same length_abs_dedup)
    moreover have "distinct (map fst (dd_seen (evictOldest ?d)))" "distinct (map snd (dd_seen (evictOldest ?d)))"
      using touched by (simp_all add: ev(2) distinct_map inj_on_def)
    moreover have "\<forall>t \<in> set (map_values (dd_seen (evictOldest ?d))). t < dd_clockTick d + 1"
      using touched(3) by (auto simp: ev(2))
    ultimately have "dedup_ok (evictOldest ?d)" by (simp add: dedup_ok_def ev)
    then show ?thesis
      using full known ev(1) abs' by (auto simp: acc lru_accept_def length_abs_dedup same)
  qed
  then show "abs_dedup (snd (accept d m)) = snd (lru_accept (dd_windowSize d) (abs_dedup d) m)"
    and "dedup_ok (snd (accept d m))" by blast+
qed

text \<open>The key just seen is remembered.\<close>

lemma accept_contains:
  assumes "dedup_ok d" and "dd_clockTick d < MAX_SAFE_INTEGER" and "0 < dd_windowSize d"
  shows "dedup_contains (snd (accept d m)) m"
proof -
  have "length (abs_dedup d) \<le> dd_windowSize d" using assms(1) by (simp add: dedup_ok_def length_abs_dedup)
  then have "m \<in> set (snd (lru_accept (dd_windowSize d) (abs_dedup d) m))"
    using assms(3) by (cases "abs_dedup d") (auto simp: lru_accept_def)
  then have "m \<in> set (abs_dedup (snd (accept d m)))"
    using accept_refines(2) [OF assms(1,2)] by simp
  then show ?thesis by (auto simp: set_abs_dedup dedup_contains_def)
qed

lemma accept_fresh_iff: "fst (accept d m) \<longleftrightarrow> \<not> dedup_contains d m"
  by (simp add: accept_def dedup_contains_def Let_def)

lemma accept_windowSize [simp]: "dd_windowSize (snd (accept d m)) = dd_windowSize d"
  by (auto simp: accept_def evictOldest_def Let_def split: option.splits)

lemma accept_clockTick [simp]: "dd_clockTick (snd (accept d m)) = dd_clockTick d + 1"
  by (auto simp: accept_def evictOldest_def Let_def split: option.splits)

section \<open>Exactly once within the window\<close>

fun accepted :: "('d \<Rightarrow> 'm \<Rightarrow> bool \<times> 'd) \<Rightarrow> 'd \<Rightarrow> 'm list \<Rightarrow> 'm list" where
  "accepted acc d [] = []"
| "accepted acc d (m # ms) = (let (ok, d') = acc d m in (if ok then [m] else []) @ accepted acc d' ms)"

text \<open>
  The contract of an idempotency filter: an accept succeeds exactly for an unknown key, and
  remembers it; nothing is forgotten while the distinct keys fit the window. \<open>room\<close> is
  the number of calls before the counter of the filter runs out.
\<close>

locale idempotency_filter =
  fixes acc :: "'d \<Rightarrow> 'm \<Rightarrow> bool \<times> 'd"
    and known :: "'d \<Rightarrow> 'm set"
    and capacity :: "'d \<Rightarrow> nat"
    and room :: "'d \<Rightarrow> nat"
    and ok :: "'d \<Rightarrow> bool"
  assumes accept_iff: "ok d \<Longrightarrow> 0 < room d \<Longrightarrow> fst (acc d m) \<longleftrightarrow> m \<notin> known d"
    and remembers: "ok d \<Longrightarrow> 0 < room d \<Longrightarrow> card (insert m (known d)) \<le> capacity d \<Longrightarrow>
      known (snd (acc d m)) = insert m (known d)"
    and capacity_const: "capacity (snd (acc d m)) = capacity d"
    and ok_step: "ok d \<Longrightarrow> 0 < room d \<Longrightarrow> ok (snd (acc d m))"
    and room_step: "room d \<le> Suc (room (snd (acc d m)))"
    and finite_known: "ok d \<Longrightarrow> finite (known d)"
begin

lemma exactly_once:
  assumes "ok d" and "length ms \<le> room d" and "card (known d \<union> set ms) \<le> capacity d"
  shows "distinct (accepted acc d ms) \<and> set (accepted acc d ms) = set ms - known d"
  using assms
proof (induction ms arbitrary: d)
  case Nil
  then show ?case by simp
next
  case (Cons m ms)
  obtain g d' where step: "acc d m = (g, d')" by fastforce
  have "card (insert m (known d)) \<le> card (known d \<union> set (m # ms))"
    using finite_known [OF Cons.prems(1)] by (intro card_mono) auto
  then have d': "known d' = insert m (known d)" "capacity d' = capacity d" "ok d'" "length ms \<le> room d'"
    using Cons.prems remembers [of d m] capacity_const [of d m] ok_step [of d m] room_step [of d m] step
    by simp_all
  have g: "g \<longleftrightarrow> m \<notin> known d" using accept_iff [of d m] Cons.prems step by simp
  have "distinct (accepted acc d' ms) \<and> set (accepted acc d' ms) = set ms - known d'"
    using Cons.IH [of d'] Cons.prems d' by simp
  with g d' show ?case by (auto simp: step)
qed

end

lemma lru_remembers:
  assumes "distinct q" and "card (insert m (set q)) \<le> w"
  shows "set (snd (lru_accept w q m)) = insert m (set q)"
  using assms by (auto simp: lru_accept_def distinct_card)

definition dedup_room :: "message_dedup \<Rightarrow> nat" where
  "dedup_room d = nat (MAX_SAFE_INTEGER - dd_clockTick d)"

interpretation dedup_filter: idempotency_filter accept "\<lambda>d. dom (map_get (dd_seen d))" dd_windowSize
  dedup_room dedup_ok
proof unfold_locales
  fix d m
  show "dd_windowSize (snd (accept d m)) = dd_windowSize d" by simp
  show "dedup_room d \<le> Suc (dedup_room (snd (accept d m)))" by (simp add: dedup_room_def)
  assume ok: "dedup_ok d"
  show "finite (dom (map_get (dd_seen d)))" by (rule finite_dom_map_of)
  assume "0 < dedup_room d"
  then have tick: "dd_clockTick d < MAX_SAFE_INTEGER" by (simp add: dedup_room_def)
  note sim = accept_refines [OF ok tick, of m]
  show "fst (accept d m) = (m \<notin> dom (map_get (dd_seen d)))"
    using sim(1) by (simp add: lru_accept_def set_abs_dedup)
  show "dedup_ok (snd (accept d m))" by (rule sim(3))
  show "dom (map_get (dd_seen (snd (accept d m)))) = insert m (dom (map_get (dd_seen d)))"
    if "card (insert m (dom (map_get (dd_seen d)))) \<le> dd_windowSize d"
    using that lru_remembers [OF distinct_abs_dedup [OF ok], of m "dd_windowSize d"] sim(2)
    by (simp flip: set_abs_dedup)
qed

section \<open>Properties\<close>

text \<open>
  C36: The window of recently seen keys is a least-recently-used queue. Each \<open>accept\<close> of
  the code, with its ticks and its scan for the smallest one, answers as the queue does and
  leaves the state the queue's successor describes.
\<close>

theorem dedup_refines_lru:
  assumes "dedup_ok d" and "dd_clockTick d < MAX_SAFE_INTEGER"
  shows "(fst (accept d m), abs_dedup (snd (accept d m))) = lru_accept (dd_windowSize d) (abs_dedup d) m \<and>
    dedup_ok (snd (accept d m))"
  using accept_refines [OF assms, of m] by (simp add: prod_eq_iff)

lemma dedup_refines_lru_witness:
  "(fst (accept \<lparr>dd_windowSize = 2, dd_seen = [(''a'', 3), (''b'', 1)], dd_clockTick = 4\<rparr> ''c''),
    abs_dedup (snd (accept \<lparr>dd_windowSize = 2, dd_seen = [(''a'', 3), (''b'', 1)], dd_clockTick = 4\<rparr> ''c'')))
   = (True, [''a'', ''c''])"
proof -
  let ?d = "\<lparr>dd_windowSize = 2, dd_seen = [(''a'', 3), (''b'', 1)], dd_clockTick = 4\<rparr>"
  have "dedup_ok ?d" by (simp add: dedup_ok_def)
  moreover have "abs_dedup ?d = [''b'', ''a'']" by (simp add: abs_dedup_def)
  ultimately show ?thesis
    using dedup_refines_lru [of ?d "''c''"] by (simp add: lru_accept_def MAX_SAFE_INTEGER_def)
qed

text \<open>
  Each key is accepted exactly once. In a run whose keys fit the window, the accepted keys
  are the new ones, each one time, however often and in whatever order they are retried.
\<close>

theorem dedup_exactly_once:
  assumes "dedup_ok d" and "dd_clockTick d + int (length ms) \<le> MAX_SAFE_INTEGER"
    and "card (dom (map_get (dd_seen d)) \<union> set ms) \<le> dd_windowSize d"
  shows "distinct (accepted accept d ms) \<and> set (accepted accept d ms) = {m \<in> set ms. \<not> dedup_contains d m}"
proof -
  have "length ms \<le> dedup_room d" using assms(2) by (simp add: dedup_room_def)
  from dedup_filter.exactly_once [OF assms(1) this assms(3)] show ?thesis
    by (auto simp: dedup_contains_def)
qed

lemma dedup_exactly_once_witness:
  "set (accepted accept (new_dedup 4) [''a'', ''b'', ''a'', ''a'']) = {''a'', ''b''}"
proof -
  have "card (dom (map_get (dd_seen (new_dedup 4))) \<union> set [''a'', ''b'', ''a'', ''a'']) \<le> dd_windowSize (new_dedup 4)"
    by (simp add: new_dedup_def card_insert_if)
  from dedup_exactly_once [OF dedup_ok_new _ this] show ?thesis
    by (auto simp: new_dedup_def MAX_SAFE_INTEGER_def dedup_contains_def)
qed

end
