(* ===== verification/Auth_Failure_Tracker.thy ===== *)
theory Auth_Failure_Tracker
  imports Prelude
begin

text \<open>
  \<^verbatim>\<open>server/src/auth_failure_tracker.ts\<close>: failure counters per scope key and the
  lockout they cause. A counter starts with the first failure and lives for one window from
  that failure; \<open>isLocked\<close> drops it once the window is over.
\<close>

record failure_entry =
  fe_count :: int
  fe_firstAtMs :: int

record failure_tracker =
  ft_failures :: "(string \<times> failure_entry) list"
  ft_lockoutThreshold :: int
  ft_lockoutMs :: int
  ft_windowMs :: int

text \<open>The constructor; \<open>windowMs\<close> defaults to \<open>lockoutMs\<close>.\<close>

definition new_tracker :: "int \<Rightarrow> int \<Rightarrow> int option \<Rightarrow> failure_tracker" where
  "new_tracker lockoutThreshold lockoutMs windowMs =
     \<lparr>ft_failures = [], ft_lockoutThreshold = lockoutThreshold, ft_lockoutMs = lockoutMs,
      ft_windowMs = (case windowMs of None \<Rightarrow> lockoutMs | Some w \<Rightarrow> w)\<rparr>"

definition isLocked :: "failure_tracker \<Rightarrow> int \<Rightarrow> string \<Rightarrow> bool \<times> failure_tracker" where
  "isLocked t now scopeKey =
     (case map_get (ft_failures t) scopeKey of
        None \<Rightarrow> (False, t)
      | Some entry \<Rightarrow>
          if now - fe_firstAtMs entry > ft_windowMs t then
            (False, t\<lparr>ft_failures := map_delete scopeKey (ft_failures t)\<rparr>)
          else (fe_count entry \<ge> ft_lockoutThreshold t, t))"

definition recordFailure :: "failure_tracker \<Rightarrow> int \<Rightarrow> string \<Rightarrow> int \<times> failure_tracker" where
  "recordFailure t now scopeKey =
     (let fresh = (1, t\<lparr>ft_failures := map_set scopeKey \<lparr>fe_count = 1, fe_firstAtMs = now\<rparr> (ft_failures t)\<rparr>) in
      case map_get (ft_failures t) scopeKey of
        None \<Rightarrow> fresh
      | Some existing \<Rightarrow>
          if now - fe_firstAtMs existing > ft_windowMs t then fresh
          else (fe_count existing + 1,
                t\<lparr>ft_failures := map_set scopeKey
                    (existing\<lparr>fe_count := fe_count existing + 1\<rparr>) (ft_failures t)\<rparr>))"

definition clear_failures :: "failure_tracker \<Rightarrow> string \<Rightarrow> failure_tracker" where
  "clear_failures t scopeKey = t\<lparr>ft_failures := map_delete scopeKey (ft_failures t)\<rparr>"

text \<open>\<open>keys.some(isLocked)\<close> stops at the first locked key.\<close>

fun someLocked :: "failure_tracker \<Rightarrow> int \<Rightarrow> string list \<Rightarrow> bool \<times> failure_tracker" where
  "someLocked t now [] = (False, t)"
| "someLocked t now (key # keys) =
     (let (locked, t') = isLocked t now key in if locked then (True, t') else someLocked t' now keys)"

fun recordFailures :: "failure_tracker \<Rightarrow> int \<Rightarrow> string list \<Rightarrow> failure_tracker" where
  "recordFailures t now [] = t"
| "recordFailures t now (key # keys) = recordFailures (snd (recordFailure t now key)) now keys"

section \<open>Lemmas\<close>

lemma isLocked_config [simp]:
  "ft_lockoutThreshold (snd (isLocked t now k)) = ft_lockoutThreshold t"
  "ft_windowMs (snd (isLocked t now k)) = ft_windowMs t"
  by (auto simp: isLocked_def split: option.splits)

lemma recordFailure_config [simp]:
  "ft_lockoutThreshold (snd (recordFailure t now k)) = ft_lockoutThreshold t"
  "ft_windowMs (snd (recordFailure t now k)) = ft_windowMs t"
  by (auto simp: recordFailure_def Let_def split: option.splits)

text \<open>The entry that counts at a given time.\<close>

definition live_entry :: "failure_tracker \<Rightarrow> int \<Rightarrow> string \<Rightarrow> failure_entry option" where
  "live_entry t now k =
     (case map_get (ft_failures t) k of None \<Rightarrow> None
      | Some e \<Rightarrow> if now - fe_firstAtMs e > ft_windowMs t then None else Some e)"

lemma isLocked_iff:
  "fst (isLocked t now k) \<longleftrightarrow> (\<exists>e. live_entry t now k = Some e \<and> ft_lockoutThreshold t \<le> fe_count e)"
  by (auto simp: isLocked_def live_entry_def split: option.splits)

lemma isLocked_live [simp]: "live_entry (snd (isLocked t now k)) now k' = live_entry t now k'"
  by (auto simp: isLocked_def live_entry_def split: option.splits)

lemma recordFailure_live:
  assumes "0 \<le> ft_windowMs t"
  shows "live_entry (snd (recordFailure t now k)) now k' =
    (if k' = k then Some (case live_entry t now k of None \<Rightarrow> \<lparr>fe_count = 1, fe_firstAtMs = now\<rparr>
        | Some e \<Rightarrow> e\<lparr>fe_count := fe_count e + 1\<rparr>)
     else live_entry t now k')"
  using assms by (auto simp: recordFailure_def live_entry_def Let_def split: option.splits)

lemma recordFailure_get_other:
  "k' \<noteq> k \<Longrightarrow> map_get (ft_failures (snd (recordFailure t now k))) k' = map_get (ft_failures t) k'"
  by (auto simp: recordFailure_def Let_def split: option.splits)

lemma someLocked_iff: "fst (someLocked t now keys) \<longleftrightarrow> (\<exists>k \<in> set keys. fst (isLocked t now k))"
proof (induction keys arbitrary: t)
  case Nil
  then show ?case by simp
next
  case (Cons a keys)
  obtain g t' where step: "isLocked t now a = (g, t')" by fastforce
  have "fst (isLocked t' now k) = fst (isLocked t now k)" for k
    using isLocked_live [of t now a k] isLocked_config [of t now a] step
    by (simp add: isLocked_iff)
  with Cons.IH [of t'] step show ?case by simp
qed

text \<open>A run of failures of one scope key, at the given times.\<close>

fun fail_run :: "failure_tracker \<Rightarrow> string \<Rightarrow> int list \<Rightarrow> failure_tracker" where
  "fail_run t k [] = t"
| "fail_run t k (now # ts) = fail_run (snd (recordFailure t now k)) k ts"

lemma fail_run_config [simp]:
  "ft_lockoutThreshold (fail_run t k ts) = ft_lockoutThreshold t" "ft_windowMs (fail_run t k ts) = ft_windowMs t"
  by (induction ts arbitrary: t) simp_all

lemma fail_run_counts:
  assumes "map_get (ft_failures t) k = Some e" and "\<forall>x \<in> set ts. x - fe_firstAtMs e \<le> ft_windowMs t"
  shows "map_get (ft_failures (fail_run t k ts)) k = Some (e\<lparr>fe_count := fe_count e + int (length ts)\<rparr>)"
  using assms
proof (induction ts arbitrary: t e)
  case Nil
  then show ?case by simp
next
  case (Cons x ts)
  let ?e = "e\<lparr>fe_count := fe_count e + 1\<rparr>"
  have "map_get (ft_failures (snd (recordFailure t x k))) k = Some ?e"
    using Cons.prems by (simp add: recordFailure_def Let_def)
  from Cons.IH [OF this] Cons.prems show ?case by simp
qed

text \<open>
  From a clear key: the counter is the number of failures, and its window is that of the
  first of them.
\<close>

lemma fail_run_fresh:
  assumes "map_get (ft_failures t) k = None" and "\<forall>x \<in> set ts. x - t0 \<le> ft_windowMs t"
  shows "map_get (ft_failures (fail_run t k (t0 # ts))) k =
    Some \<lparr>fe_count = 1 + int (length ts), fe_firstAtMs = t0\<rparr>"
proof -
  have "map_get (ft_failures (snd (recordFailure t t0 k))) k = Some \<lparr>fe_count = 1, fe_firstAtMs = t0\<rparr>"
    using assms(1) by (simp add: recordFailure_def Let_def)
  from fail_run_counts [OF this, of ts] assms(2) show ?thesis by simp
qed

lemma fail_run_locked:
  assumes "map_get (ft_failures t) k = None" and "\<forall>x \<in> set ts. x - t0 \<le> ft_windowMs t"
  shows "fst (isLocked (fail_run t k (t0 # ts)) now k) \<longleftrightarrow>
    now - t0 \<le> ft_windowMs t \<and> ft_lockoutThreshold t \<le> 1 + int (length ts)"
  using fail_run_fresh [OF assms] by (auto simp: isLocked_iff live_entry_def)

lemma fail_run_other: "k' \<noteq> k \<Longrightarrow> map_get (ft_failures (fail_run t k ts)) k' = map_get (ft_failures t) k'"
  by (induction ts arbitrary: t) (simp_all add: recordFailure_get_other)

section \<open>Properties\<close>

text \<open>
  C37: The lockout of a scope, for any run of failures within one window: it is locked exactly
  when the threshold has been reached and the window, counted from the first failure of the
  run, is not over. The failures of one scope lock no other.
\<close>

theorem lockout_exact:
  assumes "map_get (ft_failures t) k = None" and "\<forall>x \<in> set ts. x - t0 \<le> ft_windowMs t"
  shows "(fst (isLocked (fail_run t k (t0 # ts)) now k) \<longleftrightarrow>
      now - t0 \<le> ft_windowMs t \<and> ft_lockoutThreshold t \<le> 1 + int (length ts)) \<and>
    (\<forall>j. j \<noteq> k \<longrightarrow> fst (isLocked (fail_run t k (t0 # ts)) now j) = fst (isLocked t now j))"
proof -
  have "fst (isLocked (fail_run t k (t0 # ts)) now j) = fst (isLocked t now j)" if "j \<noteq> k" for j
    using fail_run_other [OF that, of t "t0 # ts"] fail_run_config [of t k "t0 # ts"]
    by (simp only: isLocked_iff live_entry_def)
  then show ?thesis using fail_run_locked [OF assms] by blast
qed

lemma lockout_exact_witness:
  "fst (isLocked (fail_run (new_tracker 3 100 None) ''ip'' [10, 20, 110]) 110 ''ip'') \<and>
   \<not> fst (isLocked (fail_run (new_tracker 3 100 None) ''ip'' [10, 20, 110]) 111 ''ip'')"
  using lockout_exact [of "new_tracker 3 100 None" "''ip''" "[20, 110]" 10 110]
    lockout_exact [of "new_tracker 3 100 None" "''ip''" "[20, 110]" 10 111]
  by (simp add: new_tracker_def)

end
