(* ===== verification/Session_Registry.thy ===== *)
theory Session_Registry
  imports Prelude
begin

text \<open>
  \<^verbatim>\<open>server/src/protocol/session_registry.ts\<close>: sessions with a sliding time to live,
  bound to a socket, at most one per device. The random session id of \<open>create\<close> is an
  argument.

  The locale \<open>session_authority\<close> is what the event handlers rely on: who may use a
  session, until when, and that a refusal never extends anything. Its lemmas (a dead id
  stays dead, the sliding window) are interpreted for \<open>validate\<close>.
\<close>

record session =
  ses_sessionId :: string
  ses_socketKey :: string
  ses_accountId :: string
  ses_deviceId :: string
  ses_novaId :: string
  ses_createdAtMs :: int
  ses_expiresAtMs :: int

record session_registry =
  sr_sessionTtlMs :: int
  sr_sessions :: "(string \<times> session) list"

datatype session_validation = SessionOk | SessionInvalid | SessionIsExpired | SessionIsRevoked

definition new_session_registry :: "int \<Rightarrow> session_registry" where
  "new_session_registry ttlMs = \<lparr>sr_sessionTtlMs = ttlMs, sr_sessions = []\<rparr>"

definition sessions_of_device :: "session_registry \<Rightarrow> string \<Rightarrow> session list" where
  "sessions_of_device reg deviceId = filter (\<lambda>s. ses_deviceId s = deviceId) (map_values (sr_sessions reg))"

definition evictByDevice :: "session_registry \<Rightarrow> string \<Rightarrow> session list \<times> session_registry" where
  "evictByDevice reg deviceId =
     (let evicted = sessions_of_device reg deviceId in
      (evicted, reg\<lparr>sr_sessions := delete_keys (map ses_sessionId evicted) (sr_sessions reg)\<rparr>))"

definition create_session :: "session_registry \<Rightarrow> int \<Rightarrow> string \<Rightarrow> string \<Rightarrow> string \<Rightarrow> string \<Rightarrow> string
    \<Rightarrow> session \<times> session list \<times> session_registry" where
  "create_session reg now sessionId socketKey accountId deviceId novaId =
     (let (evicted, reg') = evictByDevice reg deviceId;
          ses = \<lparr>ses_sessionId = sessionId, ses_socketKey = socketKey, ses_accountId = accountId,
            ses_deviceId = deviceId, ses_novaId = novaId, ses_createdAtMs = now,
            ses_expiresAtMs = now + sr_sessionTtlMs reg\<rparr> in
      (ses, evicted, reg'\<lparr>sr_sessions := map_set sessionId ses (sr_sessions reg')\<rparr>))"

definition validate :: "session_registry \<Rightarrow> int \<Rightarrow> string \<Rightarrow> string \<Rightarrow> session_validation \<times> session_registry" where
  "validate reg now sessionId socketKey =
     (case map_get (sr_sessions reg) sessionId of
        None \<Rightarrow> (SessionInvalid, reg)
      | Some ses \<Rightarrow>
          if now > ses_expiresAtMs ses then
            (SessionIsExpired, reg\<lparr>sr_sessions := map_delete sessionId (sr_sessions reg)\<rparr>)
          else if ses_socketKey ses \<noteq> socketKey then (SessionInvalid, reg)
          else (SessionOk, reg\<lparr>sr_sessions := map_set sessionId
                 (ses\<lparr>ses_expiresAtMs := now + sr_sessionTtlMs reg\<rparr>) (sr_sessions reg)\<rparr>))"

definition revoke_session :: "session_registry \<Rightarrow> string \<Rightarrow> session option \<times> session_registry" where
  "revoke_session reg sessionId =
     (map_get (sr_sessions reg) sessionId,
      reg\<lparr>sr_sessions := map_delete sessionId (sr_sessions reg)\<rparr>)"

definition revokeByDevice :: "session_registry \<Rightarrow> string \<Rightarrow> session list \<times> session_registry" where
  "revokeByDevice reg deviceId =
     (let doomed = filter (\<lambda>s. ses_deviceId s = deviceId) (map_values (sr_sessions reg)) in
      (doomed, reg\<lparr>sr_sessions := delete_keys (map ses_sessionId doomed) (sr_sessions reg)\<rparr>))"

definition bySessionId :: "session_registry \<Rightarrow> string \<Rightarrow> session option" where
  "bySessionId reg sessionId = map_get (sr_sessions reg) sessionId"

definition deviceHasLiveSession :: "session_registry \<Rightarrow> string \<Rightarrow> bool" where
  "deviceHasLiveSession reg deviceId \<longleftrightarrow>
     list_ex (\<lambda>s. ses_deviceId s = deviceId) (map_values (sr_sessions reg))"

definition session_liveCount :: "session_registry \<Rightarrow> nat" where
  "session_liveCount reg = length (sr_sessions reg)"

section \<open>Invariant: keyed by id, one session per device\<close>

definition sessions_ok :: "session_registry \<Rightarrow> bool" where
  "sessions_ok reg \<longleftrightarrow>
     distinct (map_keys (sr_sessions reg)) \<and>
     (\<forall>i s. map_get (sr_sessions reg) i = Some s \<longrightarrow> ses_sessionId s = i) \<and>
     (\<forall>i j s t. map_get (sr_sessions reg) i = Some s \<longrightarrow> map_get (sr_sessions reg) j = Some t \<longrightarrow>
        ses_deviceId s = ses_deviceId t \<longrightarrow> i = j)"

lemma sessions_ok_new [inv_intros]: "sessions_ok (new_session_registry ttl)"
  by (simp add: sessions_ok_def new_session_registry_def)

text \<open>Removing entries, and replacing one by a session of the same id and device, keep it.\<close>

lemma sessions_ok_shrink:
  assumes "sessions_ok reg" and "distinct (map_keys m)" and "map_get m \<subseteq>\<^sub>m map_get (sr_sessions reg)"
  shows "sessions_ok (reg\<lparr>sr_sessions := m\<rparr>)"
  using assms(1,2) map_le_Some [OF assms(3)]
  unfolding sessions_ok_def by (simp add: Ball_def)

lemma delete_le: "map_get (map_delete k m) \<subseteq>\<^sub>m map_get m"
  by (auto simp: map_le_def)

lemma delete_keys_le: "map_get (delete_keys ks m) \<subseteq>\<^sub>m map_get m"
  by (auto simp: map_le_def split: if_splits)

lemma sessions_ok_revoke [inv_intros]: "sessions_ok reg \<Longrightarrow> sessions_ok (snd (revoke_session reg i))"
  using delete_le by (auto simp: revoke_session_def sessions_ok_def intro!: sessions_ok_shrink)

lemma sessions_ok_evict [inv_intros]: "sessions_ok reg \<Longrightarrow> sessions_ok (snd (evictByDevice reg d))"
  using delete_keys_le by (auto simp: evictByDevice_def Let_def sessions_ok_def intro!: sessions_ok_shrink)

lemma revokeByDevice_evict: "revokeByDevice reg d = evictByDevice reg d"
  by (simp add: revokeByDevice_def evictByDevice_def sessions_of_device_def)

lemma sessions_ok_revokeByDevice [inv_intros]: "sessions_ok reg \<Longrightarrow> sessions_ok (snd (revokeByDevice reg d))"
  by (simp add: revokeByDevice_evict sessions_ok_evict)

lemma sessions_ok_validate [inv_intros]:
  assumes "sessions_ok reg" shows "sessions_ok (snd (validate reg now i s))"
proof (cases "map_get (sr_sessions reg) i")
  case None
  with assms show ?thesis by (simp add: validate_def)
next
  case (Some ses)
  have "sessions_ok (reg\<lparr>sr_sessions := map_delete i (sr_sessions reg)\<rparr>)"
    using assms delete_le by (auto simp: sessions_ok_def intro!: sessions_ok_shrink)
  moreover have "sessions_ok (reg\<lparr>sr_sessions := map_set i (ses\<lparr>ses_expiresAtMs := e\<rparr>) (sr_sessions reg)\<rparr>)" for e
    using assms Some unfolding sessions_ok_def by (auto split: if_splits)
  ultimately show ?thesis
    using Some assms by (simp add: validate_def)
qed

text \<open>Eviction leaves no session of the device; every other binding is kept.\<close>

lemma evict_get:
  assumes "sessions_ok reg"
  shows "map_get (sr_sessions (snd (evictByDevice reg d))) i =
    (case map_get (sr_sessions reg) i of None \<Rightarrow> None
     | Some s \<Rightarrow> if ses_deviceId s = d then None else Some s)"
proof (cases "map_get (sr_sessions reg) i")
  case None
  then show ?thesis by (simp add: evictByDevice_def Let_def)
next
  case (Some s)
  have dist: "distinct (map_keys (sr_sessions reg))"
    using assms by (simp add: sessions_ok_def)
  have ids: "ses_sessionId t = j" if "(j, t) \<in> set (sr_sessions reg)" for j t
    using that assms map_of_iff_pair [OF dist, of j t] by (auto simp: sessions_ok_def)
  have "i \<in> set (map ses_sessionId (sessions_of_device reg d)) \<longleftrightarrow> ses_deviceId s = d"
  proof
    assume "i \<in> set (map ses_sessionId (sessions_of_device reg d))"
    then obtain j t where "(j, t) \<in> set (sr_sessions reg)" "ses_deviceId t = d" "ses_sessionId t = i"
      by (auto simp: sessions_of_device_def)
    then show "ses_deviceId s = d"
      using Some ids map_of_iff_pair [OF dist, of i t] by auto
  next
    assume "ses_deviceId s = d"
    moreover have "(i, s) \<in> set (sr_sessions reg)"
      using Some by (rule map_of_SomeD)
    ultimately show "i \<in> set (map ses_sessionId (sessions_of_device reg d))"
      using ids [of i s] by (force simp: sessions_of_device_def)
  qed
  then show ?thesis
    using Some by (simp add: evictByDevice_def Let_def)
qed

lemma create_get:
  assumes "sessions_ok reg" and "create_session reg now i k a d n = (ses, evicted, reg')"
  shows "map_get (sr_sessions reg') j =
    (if j = i then Some ses
     else (case map_get (sr_sessions reg) j of None \<Rightarrow> None
           | Some s \<Rightarrow> if ses_deviceId s = d then None else Some s))"
  using assms evict_get [OF assms(1), of d j]
  by (auto simp: create_session_def Let_def split: prod.splits)

lemma create_fields:
  assumes "create_session reg now i k a d n = (ses, evicted, reg')"
  shows "ses = \<lparr>ses_sessionId = i, ses_socketKey = k, ses_accountId = a, ses_deviceId = d, ses_novaId = n,
      ses_createdAtMs = now, ses_expiresAtMs = now + sr_sessionTtlMs reg\<rparr>"
    and "sr_sessionTtlMs reg' = sr_sessionTtlMs reg"
    and "evicted = sessions_of_device reg d"
  using assms by (auto simp: create_session_def evictByDevice_def Let_def)

lemma sessions_ok_create [inv_intros]:
  assumes "sessions_ok reg" and "create_session reg now i k a d n = (ses, evicted, reg')"
  shows "sessions_ok reg'"
proof -
  have "distinct (map_keys (sr_sessions reg'))"
    using assms by (auto simp: create_session_def evictByDevice_def Let_def sessions_ok_def)
  moreover have "ses_sessionId ses = i" "ses_deviceId ses = d"
    using create_fields(1) [OF assms(2)] by simp_all
  ultimately show ?thesis
    using assms(1) unfolding sessions_ok_def
    by (auto simp: create_get [OF assms] split: option.splits if_splits)
qed

section \<open>The authority of a session\<close>

fun grants :: "('r \<Rightarrow> int \<Rightarrow> string \<Rightarrow> string \<Rightarrow> bool \<times> 'r) \<Rightarrow> 'r \<Rightarrow> (int \<times> string \<times> string) list \<Rightarrow> bool list" where
  "grants val r [] = []"
| "grants val r ((now, sid, sk) # qs) = (let (g, r') = val r now sid sk in g # grants val r' qs)"

text \<open>The sliding window: each access comes before the deadline the one before it set.\<close>

fun within_ttl :: "int \<Rightarrow> int \<Rightarrow> int list \<Rightarrow> bool" where
  "within_ttl ttl deadline [] = True"
| "within_ttl ttl deadline (t # ts) = (t \<le> deadline \<and> within_ttl ttl (t + ttl) ts)"

locale session_authority =
  fixes val :: "'r \<Rightarrow> int \<Rightarrow> string \<Rightarrow> string \<Rightarrow> bool \<times> 'r"
    and holder :: "'r \<Rightarrow> string \<Rightarrow> (string \<times> int) option"
    and ttl :: "'r \<Rightarrow> int"
  assumes granted_iff: "fst (val r now sid sk) \<longleftrightarrow> (\<exists>d. holder r sid = Some (sk, d) \<and> now \<le> d)"
    and renews: "fst (val r now sid sk) \<Longrightarrow> holder (snd (val r now sid sk)) = (holder r)(sid \<mapsto> (sk, now + ttl r))"
    and refuses: "\<not> fst (val r now sid sk) \<Longrightarrow> holder (snd (val r now sid sk)) \<subseteq>\<^sub>m holder r"
    and ttl_const: "ttl (snd (val r now sid sk)) = ttl r"
begin

lemma dead_stays_dead:
  assumes "holder r sid = None"
  shows "\<forall>(q, g) \<in> set (zip qs (grants val r qs)). fst (snd q) = sid \<longrightarrow> \<not> g"
  using assms
proof (induction qs arbitrary: r)
  case Nil
  then show ?case by simp
next
  case (Cons q qs)
  obtain now i sk where q: "q = (now, i, sk)" by (cases q)
  obtain g r' where step: "val r now i sk = (g, r')" by fastforce
  have "\<not> g" if "i = sid"
    using that Cons.prems granted_iff [of r now i sk] step by simp
  moreover have "holder r' sid = None"
  proof (cases g)
    case True
    with granted_iff [of r now i sk] Cons.prems step have "i \<noteq> sid" by auto
    with True renews [of r now i sk] Cons.prems step show ?thesis by simp
  next
    case False
    with refuses [of r now i sk] step have "holder r' \<subseteq>\<^sub>m holder r" by simp
    then show ?thesis using Cons.prems by (rule map_le_None)
  qed
  ultimately show ?case
    using Cons.IH [of r'] by (simp add: q step)
qed

lemma sliding_window:
  assumes "holder r sid = Some (sk, d)"
  shows "grants val r (map (\<lambda>t. (t, sid, sk)) ts) = replicate (length ts) True \<longleftrightarrow> within_ttl (ttl r) d ts"
  using assms
proof (induction ts arbitrary: r d)
  case Nil
  then show ?case by simp
next
  case (Cons t ts)
  obtain g r' where step: "val r t sid sk = (g, r')" by fastforce
  show ?case
  proof (cases "t \<le> d")
    case True
    then have "g" using granted_iff [of r t sid sk] Cons.prems step by simp
    then have "holder r' sid = Some (sk, t + ttl r)" "ttl r' = ttl r"
      using renews [of r t sid sk] ttl_const [of r t sid sk] step by simp_all
    with Cons.IH [of r' "t + ttl r"] \<open>g\<close> True show ?thesis by (simp add: step)
  next
    case False
    then have "\<not> g" using granted_iff [of r t sid sk] Cons.prems step by simp
    with False show ?thesis by (simp add: step)
  qed
qed

end

definition validate_ok :: "session_registry \<Rightarrow> int \<Rightarrow> string \<Rightarrow> string \<Rightarrow> bool \<times> session_registry" where
  "validate_ok reg now sid sk = (let (v, reg') = validate reg now sid sk in (v = SessionOk, reg'))"

definition session_holder :: "session_registry \<Rightarrow> string \<Rightarrow> (string \<times> int) option" where
  "session_holder reg sid = map_option (\<lambda>s. (ses_socketKey s, ses_expiresAtMs s)) (map_get (sr_sessions reg) sid)"

lemma validate_ttl [simp]: "sr_sessionTtlMs (snd (validate reg now i s)) = sr_sessionTtlMs reg"
  by (auto simp: validate_def split: option.splits)

lemma validate_ok_iff:
  "fst (validate reg now i k) = SessionOk \<longleftrightarrow>
   (\<exists>s. bySessionId reg i = Some s \<and> now \<le> ses_expiresAtMs s \<and> ses_socketKey s = k)"
  by (auto simp: validate_def bySessionId_def split: option.splits)

lemma validate_get:
  "map_get (sr_sessions (snd (validate reg now i k))) j =
    (case map_get (sr_sessions reg) j of None \<Rightarrow> None
     | Some s \<Rightarrow> if j \<noteq> i then Some s
        else if now > ses_expiresAtMs s then None
        else if ses_socketKey s \<noteq> k then Some s
        else Some (s\<lparr>ses_expiresAtMs := now + sr_sessionTtlMs reg\<rparr>))"
  by (auto simp: validate_def split: option.splits)

interpretation registry_authority: session_authority validate_ok session_holder sr_sessionTtlMs
proof unfold_locales
  fix r :: session_registry and now sid sk
  show "fst (validate_ok r now sid sk) = (\<exists>d. session_holder r sid = Some (sk, d) \<and> now \<le> d)"
    using validate_ok_iff [of r now sid sk]
    by (auto simp: validate_ok_def session_holder_def bySessionId_def split: prod.splits)
  show "session_holder (snd (validate_ok r now sid sk)) = (session_holder r)(sid \<mapsto> (sk, now + sr_sessionTtlMs r))"
    if "fst (validate_ok r now sid sk)"
  proof
    fix j
    have "\<exists>s. map_get (sr_sessions r) sid = Some s \<and> now \<le> ses_expiresAtMs s \<and> ses_socketKey s = sk"
      using that validate_ok_iff [of r now sid sk]
      by (auto simp: validate_ok_def bySessionId_def split: prod.splits)
    then show "session_holder (snd (validate_ok r now sid sk)) j =
        ((session_holder r)(sid \<mapsto> (sk, now + sr_sessionTtlMs r))) j"
      using validate_get [of r now sid sk j]
      by (auto simp: validate_ok_def session_holder_def split: prod.splits option.splits)
  qed
  show "session_holder (snd (validate_ok r now sid sk)) \<subseteq>\<^sub>m session_holder r"
    if "\<not> fst (validate_ok r now sid sk)"
    using that
    by (auto simp: map_le_def validate_ok_def session_holder_def validate_def split: option.splits if_splits)
  show "sr_sessionTtlMs (snd (validate_ok r now sid sk)) = sr_sessionTtlMs r"
    by (simp add: validate_ok_def split: prod.splits) (metis snd_conv validate_ttl)
qed

section \<open>Properties\<close>

text \<open>
  Once a session id is gone (revoked, evicted, expired or never issued), no sequence of
  validations, by any socket at any time, ever accepts it.
\<close>

theorem revoked_session_never_validates:
  assumes "q \<in> set (zip qs (grants validate_ok (snd (revoke_session reg sid)) qs))" and "fst (snd (fst q)) = sid"
  shows "\<not> snd q"
proof -
  have "session_holder (snd (revoke_session reg sid)) sid = None"
    by (simp add: session_holder_def revoke_session_def)
  from registry_authority.dead_stays_dead [OF this, of qs] assms show ?thesis
    by (cases q) auto
qed

lemma revoked_session_never_validates_witness:
  "\<not> snd ((5 :: int, ''S'', ''k''), False) \<and>
   ((5, ''S'', ''k''), False) \<in> set (zip [(5, ''S'', ''k'')]
     (grants validate_ok (snd (revoke_session (new_session_registry 10) ''S'')) [(5, ''S'', ''k'')]))"
proof
  show member: "((5, ''S'', ''k''), False) \<in> set (zip [(5, ''S'', ''k'')]
     (grants validate_ok (snd (revoke_session (new_session_registry 10) ''S'')) [(5, ''S'', ''k'')]))"
    by (simp add: validate_ok_def validate_def revoke_session_def new_session_registry_def)
  show "\<not> snd ((5 :: int, ''S'', ''k''), False)"
    using revoked_session_never_validates [OF member] by simp
qed

text \<open>
  The time to live slides. The socket a session was created for is let through on every
  access of a run exactly when each access comes no later than one time to live after the one
  before it, the first counted from the creation.
\<close>

theorem session_sliding_window:
  assumes "sessions_ok reg" and "create_session reg t0 sid k a d n = (ses, evicted, reg')"
  shows "grants validate_ok reg' (map (\<lambda>t. (t, sid, k)) ts) = replicate (length ts) True \<longleftrightarrow>
    within_ttl (sr_sessionTtlMs reg) (t0 + sr_sessionTtlMs reg) ts"
proof -
  have "session_holder reg' sid = Some (k, t0 + sr_sessionTtlMs reg)"
    using create_get [OF assms, of sid] create_fields(1) [OF assms(2)] by (simp add: session_holder_def)
  from registry_authority.sliding_window [OF this] create_fields(2) [OF assms(2)] show ?thesis by simp
qed

lemma session_sliding_window_witness:
  "grants validate_ok (snd (snd (create_session (new_session_registry 10) 0 ''S'' ''k'' ''a'' ''d'' ''n'')))
     (map (\<lambda>t. (t, ''S'', ''k'')) [9, 18, 29]) \<noteq> replicate (length [9, 18, 29 :: int]) True"
proof -
  obtain ses evicted reg' where c:
    "create_session (new_session_registry 10) 0 ''S'' ''k'' ''a'' ''d'' ''n'' = (ses, evicted, reg')"
    by (metis prod_cases3)
  have "\<not> within_ttl 10 (0 + 10) [9, 18, 29]" by simp
  with session_sliding_window [OF sessions_ok_new c, of "[9, 18, 29]"] show ?thesis
    by (simp only: c snd_conv) (simp add: new_session_registry_def)
qed

text \<open>
  A new session is the only one of its device: the evicted sessions are exactly those the
  device had, the sessions of other devices stay as they are, and no evicted id validates.
\<close>

theorem create_replaces_device_sessions:
  assumes "sessions_ok reg" and "create_session reg now sid k a d n = (ses, evicted, reg')"
    and "bySessionId reg sid = None"
  shows "(\<forall>s. s \<in> set evicted \<longleftrightarrow> bySessionId reg (ses_sessionId s) = Some s \<and> ses_deviceId s = d) \<and>
    (\<forall>i s. bySessionId reg' i = Some s \<longleftrightarrow>
      i = sid \<and> s = ses \<or> i \<noteq> sid \<and> bySessionId reg i = Some s \<and> ses_deviceId s \<noteq> d) \<and>
    (\<forall>s \<in> set evicted. \<forall>t k'. fst (validate reg' t (ses_sessionId s) k') \<noteq> SessionOk)"
proof -
  have dist: "distinct (map_keys (sr_sessions reg))"
    and ids: "\<And>i s. map_get (sr_sessions reg) i = Some s \<Longrightarrow> ses_sessionId s = i"
    using assms(1) by (auto simp: sessions_ok_def)
  have ev: "s \<in> set evicted \<longleftrightarrow> bySessionId reg (ses_sessionId s) = Some s \<and> ses_deviceId s = d" for s
  proof -
    have "s \<in> set evicted \<longleftrightarrow> (\<exists>i. (i, s) \<in> set (sr_sessions reg)) \<and> ses_deviceId s = d"
      using create_fields(3) [OF assms(2)] by (force simp: sessions_of_device_def)
    also have "(\<exists>i. (i, s) \<in> set (sr_sessions reg)) \<longleftrightarrow> bySessionId reg (ses_sessionId s) = Some s"
      using ids by (auto simp: bySessionId_def simp flip: map_of_iff_pair [OF dist])
    finally show ?thesis .
  qed
  moreover have get: "bySessionId reg' i = Some s \<longleftrightarrow>
      i = sid \<and> s = ses \<or> i \<noteq> sid \<and> bySessionId reg i = Some s \<and> ses_deviceId s \<noteq> d" for i s
    using create_get [OF assms(1,2), of i] by (auto simp: bySessionId_def split: option.splits if_splits)
  moreover have "fst (validate reg' t (ses_sessionId s) k') \<noteq> SessionOk" if "s \<in> set evicted" for s t k'
    using that ev [of s] get [of "ses_sessionId s"] assms(3) by (auto simp: validate_ok_iff)
  ultimately show ?thesis by blast
qed

lemma create_replaces_device_sessions_witness:
  "fst (validate (snd (snd (create_session
      \<lparr>sr_sessionTtlMs = 10, sr_sessions = [(''old'', \<lparr>ses_sessionId = ''old'', ses_socketKey = ''k'',
         ses_accountId = ''a'', ses_deviceId = ''d'', ses_novaId = ''n'', ses_createdAtMs = 0, ses_expiresAtMs = 10\<rparr>)]\<rparr>
      5 ''new'' ''k2'' ''a'' ''d'' ''n''))) 6 ''old'' ''k'') \<noteq> SessionOk"
proof -
  let ?old = "\<lparr>ses_sessionId = ''old'', ses_socketKey = ''k'', ses_accountId = ''a'', ses_deviceId = ''d'',
    ses_novaId = ''n'', ses_createdAtMs = 0, ses_expiresAtMs = 10\<rparr>"
  let ?reg = "\<lparr>sr_sessionTtlMs = 10, sr_sessions = [(''old'', ?old)]\<rparr>"
  obtain ses evicted reg' where c: "create_session ?reg 5 ''new'' ''k2'' ''a'' ''d'' ''n'' = (ses, evicted, reg')"
    by (metis prod_cases3)
  have "sessions_ok ?reg" by (simp add: sessions_ok_def)
  moreover have "bySessionId ?reg ''new'' = None" by (simp add: bySessionId_def)
  ultimately have "?old \<in> set evicted \<and> (\<forall>s \<in> set evicted. \<forall>t k'. fst (validate reg' t (ses_sessionId s) k') \<noteq> SessionOk)"
    using create_replaces_device_sessions [OF _ c] by (simp add: bySessionId_def)
  then show ?thesis by (fastforce simp: c)
qed

end
