(* ===== verification/Device_Registry.thy ===== *)
theory Device_Registry
  imports Prelude
begin

text \<open>
  \<^verbatim>\<open>server/src/protocol/device_registry.ts\<close>: the registered Ed25519 key and the
  status of each device. A revoked device is never active again unless an administrator
  registers it anew.
\<close>

type_synonym byte = "8 word"

datatype device_status = Pending | Active | Revoked

record device_record =
  dev_accountId :: string
  dev_deviceId :: string
  dev_novaId :: string
  dev_ed25519PublicKey :: "byte list"
  dev_status :: device_status

type_synonym device_registry = "(string \<times> device_record) list"

text \<open>\<open>register\<close> with an optional status: the default is \<open>'active'\<close>.\<close>

definition register_device :: "device_registry \<Rightarrow> device_record \<Rightarrow> device_status option \<Rightarrow> device_registry" where
  "register_device reg rec status =
     map_set (dev_deviceId rec)
       (rec\<lparr>dev_status := (case status of None \<Rightarrow> Active | Some s \<Rightarrow> s)\<rparr>) reg"

definition byDeviceId :: "device_registry \<Rightarrow> string \<Rightarrow> device_record option" where
  "byDeviceId reg deviceId = map_get reg deviceId"

definition isActive :: "device_registry \<Rightarrow> string \<Rightarrow> bool" where
  "isActive reg deviceId \<longleftrightarrow> (case map_get reg deviceId of None \<Rightarrow> False | Some r \<Rightarrow> dev_status r = Active)"

definition revoke_device :: "device_registry \<Rightarrow> string \<Rightarrow> bool \<times> device_registry" where
  "revoke_device reg deviceId =
     (case map_get reg deviceId of
        None \<Rightarrow> (False, reg)
      | Some rec \<Rightarrow> (True, map_set deviceId (rec\<lparr>dev_status := Revoked\<rparr>) reg))"

definition delete_device :: "device_registry \<Rightarrow> string \<Rightarrow> device_registry" where
  "delete_device reg deviceId = map_delete deviceId reg"

text \<open>Every record is stored under its own device id.\<close>

definition devices_ok :: "device_registry \<Rightarrow> bool" where
  "devices_ok reg \<longleftrightarrow> distinct (map_keys reg) \<and> (\<forall>i r. map_get reg i = Some r \<longrightarrow> dev_deviceId r = i)"

lemma devices_ok_empty [inv_intros]: "devices_ok []"
  by (simp add: devices_ok_def)

lemma devices_ok_register [inv_intros]: "devices_ok reg \<Longrightarrow> devices_ok (register_device reg rec st)"
  by (auto simp: devices_ok_def register_device_def)

lemma devices_ok_revoke [inv_intros]: "devices_ok reg \<Longrightarrow> devices_ok (snd (revoke_device reg i))"
  by (auto simp: devices_ok_def revoke_device_def split: option.splits)

lemma devices_ok_delete [inv_intros]: "devices_ok reg \<Longrightarrow> devices_ok (delete_device reg i)"
  by (auto simp: devices_ok_def delete_device_def split: if_splits)

lemma revoke_not_active: "\<not> isActive (snd (revoke_device reg i)) i"
  by (auto simp: revoke_device_def isActive_def split: option.splits)

lemma revoke_other: "j \<noteq> i \<Longrightarrow> byDeviceId (snd (revoke_device reg i)) j = byDeviceId reg j"
  by (auto simp: revoke_device_def byDeviceId_def split: option.splits)

lemma revoke_found: "fst (revoke_device reg i) \<longleftrightarrow> byDeviceId reg i \<noteq> None"
  by (auto simp: revoke_device_def byDeviceId_def split: option.splits)

lemma byDeviceId_register:
  "byDeviceId (register_device reg rec st) i =
    (if i = dev_deviceId rec then Some (rec\<lparr>dev_status := (case st of None \<Rightarrow> Active | Some s \<Rightarrow> s)\<rparr>)
     else byDeviceId reg i)"
  by (auto simp: byDeviceId_def register_device_def)

end
