(* ===== verification/Canonical.thy ===== *)
theory Canonical
  imports Device_Registry
begin

text \<open>
  \<^verbatim>\<open>server/src/canonical.ts\<close>: the canonical message a device signs and its
  verification. Node's cryptography and base64 decoder are the parameter \<open>node_crypto\<close>:
  \<open>nc_fromBase64\<close> is \<open>Buffer.from(s, 'base64')\<close> and \<open>nc_verify der message
  signature\<close> is \<open>crypto.verify\<close> with the key parsed from its DER encoding, where
  \<open>None\<close> is a thrown error.
\<close>

record node_crypto =
  nc_fromBase64 :: "string \<Rightarrow> byte list"
  nc_verify :: "byte list \<Rightarrow> string \<Rightarrow> byte list \<Rightarrow> bool option"

definition CANONICAL_PREFIX :: string where
  "CANONICAL_PREFIX = ''NOVA_AUTH_v1''"

record auth_claims =
  cl_accountId :: string
  cl_deviceId :: string
  cl_novaId :: string
  cl_challengeId :: string
  cl_challengeBase64 :: string

definition canonicalMessage :: "auth_claims \<Rightarrow> string" where
  "canonicalMessage input = join_with ''|''
     [CANONICAL_PREFIX, cl_accountId input, cl_deviceId input, cl_novaId input,
      cl_challengeId input, cl_challengeBase64 input]"

definition SPKI_PREFIX :: "byte list" where
  "SPKI_PREFIX = [0x30, 0x2a, 0x30, 0x05, 0x06, 0x03, 0x2b, 0x65, 0x70, 0x03, 0x21, 0x00]"

text \<open>The DER bytes handed to \<open>createPublicKey\<close>; \<open>None\<close> is the \<open>TypeError\<close>.\<close>

definition ed25519PublicKeyFromRaw :: "byte list \<Rightarrow> byte list option" where
  "ed25519PublicKeyFromRaw raw = (if length raw \<noteq> 32 then None else Some (SPKI_PREFIX @ raw))"

definition verifyAuthSignature :: "node_crypto \<Rightarrow> auth_claims \<Rightarrow> string \<Rightarrow> byte list \<Rightarrow> bool" where
  "verifyAuthSignature nc claims signatureBase64 registeredPublicKey =
     (let message = canonicalMessage claims;
          signature = nc_fromBase64 nc signatureBase64 in
      if length signature \<noteq> 64 then False
      else (case ed25519PublicKeyFromRaw registeredPublicKey of
              None \<Rightarrow> False
            | Some publicKey \<Rightarrow>
                (case nc_verify nc publicKey message signature of
                   None \<Rightarrow> False
                 | Some ok \<Rightarrow> ok)))"

lemma verifyAuthSignature_iff:
  "verifyAuthSignature nc claims sig key \<longleftrightarrow>
   length (nc_fromBase64 nc sig) = 64 \<and> length key = 32 \<and>
   nc_verify nc (SPKI_PREFIX @ key) (canonicalMessage claims) (nc_fromBase64 nc sig) = Some True"
  by (auto simp: verifyAuthSignature_def ed25519PublicKeyFromRaw_def Let_def split: option.splits)

text \<open>No field of the claims contains the separator.\<close>

definition separator_free :: "auth_claims \<Rightarrow> bool" where
  "separator_free c \<longleftrightarrow>
     (\<forall>s \<in> {cl_accountId c, cl_deviceId c, cl_novaId c, cl_challengeId c, cl_challengeBase64 c}.
        CHR ''|'' \<notin> set s)"

text \<open>
  The separators of a message can be counted: one text that is put together from five pieces
  without the separator cannot be put together from other pieces, with it or without.
\<close>

lemma separators_join: "count_list (join_with [x] (y # ys)) x = count_list (concat (y # ys)) x + length ys"
  by (induction ys arbitrary: y) simp_all

lemma canonicalMessage_inject:
  assumes "separator_free c" and "canonicalMessage c' = canonicalMessage c"
  shows "c' = (c :: auth_claims)"
proof -
  let ?parts = "\<lambda>c. [cl_accountId c, cl_deviceId c, cl_novaId c, cl_challengeId c, cl_challengeBase64 c]"
  have n: "count_list (canonicalMessage c) (CHR ''|'') = count_list (concat (CANONICAL_PREFIX # ?parts c)) (CHR ''|'') + 5" for c
    using separators_join [of "CHR ''|''" CANONICAL_PREFIX "?parts c"] by (simp add: canonicalMessage_def)
  have "count_list (concat (CANONICAL_PREFIX # ?parts c')) (CHR ''|'') = count_list (concat (CANONICAL_PREFIX # ?parts c)) (CHR ''|'')"
    using n [of c] n [of c'] assms(2) by simp
  also have "\<dots> = 0"
    using assms(1) by (auto simp: separator_free_def CANONICAL_PREFIX_def count_list_0_iff)
  finally have "separator_free c'" by (auto simp: separator_free_def count_list_0_iff)
  then have "CANONICAL_PREFIX # ?parts c' = CANONICAL_PREFIX # ?parts c"
    using assms unfolding canonicalMessage_def
    by (intro join_with_inject [where sep = "CHR ''|''"]) (auto simp: separator_free_def CANONICAL_PREFIX_def)
  then show ?thesis by simp
qed

text \<open>A small cryptography: it accepts one message, under any key.\<close>

definition example_claims :: auth_claims where
  "example_claims = \<lparr>cl_accountId = ''a'', cl_deviceId = ''d'', cl_novaId = ''n'', cl_challengeId = ''c'',
     cl_challengeBase64 = ''b''\<rparr>"

definition example_crypto :: node_crypto where
  "example_crypto = \<lparr>nc_fromBase64 = (\<lambda>s. replicate 64 0),
     nc_verify = (\<lambda>key m s. Some (m = canonicalMessage example_claims))\<rparr>"

section \<open>Properties\<close>

text \<open>
  The separator is what the binding rests on: two different claims of which one carries it
  inside a field have the same canonical message.
\<close>

theorem canonical_message_ambiguous:
  "canonicalMessage \<lparr>cl_accountId = a @ ''|'' @ d, cl_deviceId = n, cl_novaId = c, cl_challengeId = b, cl_challengeBase64 = r\<rparr>
   = canonicalMessage \<lparr>cl_accountId = a, cl_deviceId = d, cl_novaId = n, cl_challengeId = c, cl_challengeBase64 = b @ ''|'' @ r\<rparr>"
  by (simp add: canonicalMessage_def)

end
