(* ===== verification/Handshake_Engine.thy ===== *)
theory Handshake_Engine
  imports Wire Challenge_Store Session_Registry Canonical
begin

text \<open>
  \<^verbatim>\<open>server/src/protocol/handshake_engine.ts\<close>: the verification sequence of an
  \<open>auth.response\<close>. The engine reads the device registry and updates the challenge store
  and the session registry, which are passed and returned; the random session id is an
  argument.
\<close>

datatype handshake_outcome =
  HsSuccess | HsBadPayload | HsDeviceUnknownOrRevoked | HsChallengeRejected | HsBadSignature

record handshake_result =
  hr_outcome :: handshake_outcome
  hr_session :: "session option"
  hr_evicted :: "session list"

primrec outcome_name :: "handshake_outcome \<Rightarrow> string" where
  "outcome_name HsSuccess = ''success''"
| "outcome_name HsBadPayload = ''badPayload''"
| "outcome_name HsDeviceUnknownOrRevoked = ''deviceUnknownOrRevoked''"
| "outcome_name HsChallengeRejected = ''challengeRejected''"
| "outcome_name HsBadSignature = ''badSignature''"

primrec wireFailureCode :: "handshake_outcome \<Rightarrow> string" where
  "wireFailureCode HsSuccess = ''''"
| "wireFailureCode HsBadPayload = ''AUTH_FAILED''"
| "wireFailureCode HsDeviceUnknownOrRevoked = ''AUTH_FAILED''"
| "wireFailureCode HsChallengeRejected = ''AUTH_FAILED''"
| "wireFailureCode HsBadSignature = ''AUTH_FAILED''"

definition hs_failure :: "handshake_outcome \<Rightarrow> handshake_result" where
  "hs_failure outcome = \<lparr>hr_outcome = outcome, hr_session = None, hr_evicted = []\<rparr>"

text \<open>Step 1: the five strings of the payload, in the order challenge, signature, account,
  device, Nova id.\<close>

definition response_strings :: "fields \<Rightarrow> (string \<times> string \<times> string \<times> string \<times> string) option" where
  "response_strings payload =
     (case (as_string (map_get payload ''challenge_id''), as_string (map_get payload ''signature''),
            as_string (map_get payload ''account_id''), as_string (map_get payload ''device_id''),
            as_string (map_get payload ''nova_id'')) of
        (Some challengeId, Some signature, Some accountId, Some deviceId, Some novaId) \<Rightarrow>
          Some (challengeId, signature, accountId, deviceId, novaId)
      | _ \<Rightarrow> None)"

lemma response_strings_Some:
  "response_strings p = Some (c, s, a, d, n) \<longleftrightarrow>
   map_get p ''challenge_id'' = Some (JStr c) \<and> map_get p ''signature'' = Some (JStr s) \<and>
   map_get p ''account_id'' = Some (JStr a) \<and> map_get p ''device_id'' = Some (JStr d) \<and>
   map_get p ''nova_id'' = Some (JStr n)"
  by (auto simp: response_strings_def split: option.splits simp del: as_string_Some)
    (auto)

definition handleAuthResponse ::
  "node_crypto \<Rightarrow> device_registry \<Rightarrow> challenge_store \<Rightarrow> session_registry \<Rightarrow> int \<Rightarrow> string \<Rightarrow> string
   \<Rightarrow> fields \<Rightarrow> bool \<Rightarrow> handshake_result \<times> challenge_store \<times> session_registry" where
  "handleAuthResponse nc devices challenges sessions now newSessionId socketKey payload rebindWildcardChallenge =
     (case response_strings payload of
        None \<Rightarrow> (hs_failure HsBadPayload, challenges, sessions)
      | Some (challengeId, signature, accountId, deviceId, novaId) \<Rightarrow>
          (case byDeviceId devices deviceId of
             None \<Rightarrow> (hs_failure HsDeviceUnknownOrRevoked, challenges, sessions)
           | Some device \<Rightarrow>
               if dev_status device \<noteq> Active \<or> dev_accountId device \<noteq> accountId
                  \<or> dev_novaId device \<noteq> novaId
               then (hs_failure HsDeviceUnknownOrRevoked, challenges, sessions)
               else
                 (let challenges1 = (if rebindWildcardChallenge
                        then snd (rebind challenges now challengeId accountId deviceId) else challenges);
                      (consumed, challenges2) = consume challenges1 now
                        \<lparr>at_challengeId = challengeId, at_socketKey = socketKey,
                         at_accountId = accountId, at_deviceId = deviceId\<rparr> in
                  case consumed of
                    ConsumeOk challengeBase64 \<Rightarrow>
                      if \<not> verifyAuthSignature nc
                            \<lparr>cl_accountId = accountId, cl_deviceId = deviceId, cl_novaId = novaId,
                             cl_challengeId = challengeId, cl_challengeBase64 = challengeBase64\<rparr>
                            signature (dev_ed25519PublicKey device)
                      then (hs_failure HsBadSignature, challenges2, sessions)
                      else
                        (let (ses, evicted, sessions') =
                               create_session sessions now newSessionId socketKey accountId deviceId novaId in
                         (\<lparr>hr_outcome = HsSuccess, hr_session = Some ses, hr_evicted = evicted\<rparr>,
                          challenges2, sessions'))
                  | _ \<Rightarrow> (hs_failure HsChallengeRejected, challenges2, sessions))))"

section \<open>What a success means\<close>

text \<open>
  The specification of an accepted response: the claimed identity is that of an active
  registered device, the challenge is live, was issued to this socket and is unbound or
  bound to this identity, and the signature over the canonical message of exactly these
  claims verifies with the registered key.
\<close>

definition response_accepted ::
  "node_crypto \<Rightarrow> device_registry \<Rightarrow> challenge_store \<Rightarrow> int \<Rightarrow> string \<Rightarrow> fields \<Rightarrow> auth_claims \<Rightarrow> bool" where
  "response_accepted nc devices challenges now socketKey payload c \<longleftrightarrow>
     map_get payload ''challenge_id'' = Some (JStr (cl_challengeId c)) \<and>
     map_get payload ''account_id'' = Some (JStr (cl_accountId c)) \<and>
     map_get payload ''device_id'' = Some (JStr (cl_deviceId c)) \<and>
     map_get payload ''nova_id'' = Some (JStr (cl_novaId c)) \<and>
     (\<exists>device e signature.
        map_get payload ''signature'' = Some (JStr signature) \<and>
        byDeviceId devices (cl_deviceId c) = Some device \<and> dev_status device = Active \<and>
        dev_accountId device = cl_accountId c \<and> dev_novaId device = cl_novaId c \<and>
        map_get (cs_challenges challenges) (cl_challengeId c) = Some e \<and> now \<le> ch_expiresAtMs e \<and>
        ch_socketKey e = socketKey \<and> ch_challengeBase64 e = cl_challengeBase64 c \<and>
        (ch_accountId e = WILDCARD \<and> ch_deviceId e = WILDCARD \<or>
         ch_accountId e = cl_accountId c \<and> ch_deviceId e = cl_deviceId c) \<and>
        verifyAuthSignature nc c signature (dev_ed25519PublicKey device))"

lemma hs_failure_simps [simp]:
  "hr_outcome (hs_failure oc) = oc" "hr_session (hs_failure oc) = None" "hr_evicted (hs_failure oc) = []"
  by (simp_all add: hs_failure_def)

text \<open>The claims a payload makes about a challenge with the given bytes.\<close>

lemma response_accepted_iff:
  assumes "response_strings payload = Some (cid, sig, acc, dev, nova)"
  shows "response_accepted nc devs chs now sk payload c \<longleftrightarrow>
    c = \<lparr>cl_accountId = acc, cl_deviceId = dev, cl_novaId = nova, cl_challengeId = cid,
         cl_challengeBase64 = cl_challengeBase64 c\<rparr> \<and>
    (\<exists>device. byDeviceId devs dev = Some device \<and> dev_status device = Active \<and>
        dev_accountId device = acc \<and> dev_novaId device = nova \<and>
        verifyAuthSignature nc c sig (dev_ed25519PublicKey device)) \<and>
    fst (consume (snd (rebind chs now cid acc dev)) now
      \<lparr>at_challengeId = cid, at_socketKey = sk, at_accountId = acc, at_deviceId = dev\<rparr>)
      = ConsumeOk (cl_challengeBase64 c)"
proof -
  have "c = \<lparr>cl_accountId = acc, cl_deviceId = dev, cl_novaId = nova, cl_challengeId = cid,
         cl_challengeBase64 = cl_challengeBase64 c\<rparr> \<longleftrightarrow>
      cl_accountId c = acc \<and> cl_deviceId c = dev \<and> cl_novaId c = nova \<and> cl_challengeId c = cid"
    by (cases c) auto
  then show ?thesis
    using assms unfolding response_strings_Some response_accepted_def rebind_consume_ok by auto
qed

lemma response_accepted_strings:
  assumes "response_accepted nc devs chs now sk payload c"
  obtains sig where "response_strings payload =
    Some (cl_challengeId c, sig, cl_accountId c, cl_deviceId c, cl_novaId c)"
  using assms by (auto simp: response_accepted_def response_strings_Some)

text \<open>The challenge store after a consume: exactly the named challenge is gone.\<close>

lemma rebind_consume_store:
  "map_get (cs_challenges (snd (consume (snd (rebind chs now cid acc dev)) t
      \<lparr>at_challengeId = cid, at_socketKey = sk, at_accountId = acc, at_deviceId = dev\<rparr>)))
   = (map_get (cs_challenges chs))(cid := None)"
  by (auto simp: consume_removes rebind_get fun_eq_iff split: option.splits)

section \<open>Every branch of the engine\<close>

lemma handshake_bad_payload:
  "response_strings payload = None \<Longrightarrow>
   handleAuthResponse nc devs chs sess now nid sk payload rb = (hs_failure HsBadPayload, chs, sess)"
  by (simp add: handleAuthResponse_def)

lemma handshake_bad_device:
  assumes "response_strings payload = Some (cid, sig, acc, dev, nova)"
    and "\<nexists>device. byDeviceId devs dev = Some device \<and> dev_status device = Active \<and>
        dev_accountId device = acc \<and> dev_novaId device = nova"
  shows "handleAuthResponse nc devs chs sess now nid sk payload rb = (hs_failure HsDeviceUnknownOrRevoked, chs, sess)"
  using assms by (auto simp: handleAuthResponse_def split: option.splits)

lemma handshake_checked:
  assumes "response_strings payload = Some (cid, sig, acc, dev, nova)"
    and "byDeviceId devs dev = Some device" "dev_status device = Active"
      "dev_accountId device = acc" "dev_novaId device = nova"
    and "consume (snd (rebind chs now cid acc dev)) now
      \<lparr>at_challengeId = cid, at_socketKey = sk, at_accountId = acc, at_deviceId = dev\<rparr> = (res, chs')"
  shows "handleAuthResponse nc devs chs sess now nid sk payload True =
    (case res of
       ConsumeOk bytes \<Rightarrow>
         if verifyAuthSignature nc \<lparr>cl_accountId = acc, cl_deviceId = dev, cl_novaId = nova,
              cl_challengeId = cid, cl_challengeBase64 = bytes\<rparr> sig (dev_ed25519PublicKey device)
         then (let (ses, evicted, sess') = create_session sess now nid sk acc dev nova in
           (\<lparr>hr_outcome = HsSuccess, hr_session = Some ses, hr_evicted = evicted\<rparr>, chs', sess'))
         else (hs_failure HsBadSignature, chs', sess)
     | _ \<Rightarrow> (hs_failure HsChallengeRejected, chs', sess))"
  using assms by (simp add: handleAuthResponse_def Let_def split: consume_result.splits)

lemma handshake_cases:
  assumes eq: "handleAuthResponse nc devs chs sess now nid sk payload True = (r, chs', sess')"
  obtains
    (failed) "hr_outcome r \<noteq> HsSuccess" "hr_session r = None" "hr_evicted r = []" "sess' = sess"
      "\<nexists>c. response_accepted nc devs chs now sk payload c"
      "map_get (cs_challenges chs') \<subseteq>\<^sub>m map_get (cs_challenges chs)"
  | (success) c ses evicted where "r = \<lparr>hr_outcome = HsSuccess, hr_session = Some ses, hr_evicted = evicted\<rparr>"
      "response_accepted nc devs chs now sk payload c"
      "create_session sess now nid sk (cl_accountId c) (cl_deviceId c) (cl_novaId c) = (ses, evicted, sess')"
      "map_get (cs_challenges chs') = (map_get (cs_challenges chs))(cl_challengeId c := None)"
proof (cases "response_strings payload")
  case None
  then have "\<nexists>c. response_accepted nc devs chs now sk payload c"
    by (metis option.distinct(1) response_accepted_strings)
  with None eq show thesis
    by (intro failed) (auto simp: handshake_bad_payload)
next
  case (Some strs)
  obtain cid sig acc dev nova where strs: "response_strings payload = Some (cid, sig, acc, dev, nova)"
    using Some by (cases strs) auto
  note acc_iff = response_accepted_iff [OF strs]
  show thesis
  proof (cases "\<exists>device. byDeviceId devs dev = Some device \<and> dev_status device = Active \<and>
        dev_accountId device = acc \<and> dev_novaId device = nova")
    case False
    with eq handshake_bad_device [OF strs False] show thesis
      by (intro failed) (auto simp: acc_iff)
  next
    case True
    then obtain device where device: "byDeviceId devs dev = Some device" "dev_status device = Active"
      "dev_accountId device = acc" "dev_novaId device = nova" by blast
    obtain res chs1 where res: "consume (snd (rebind chs now cid acc dev)) now
      \<lparr>at_challengeId = cid, at_socketKey = sk, at_accountId = acc, at_deviceId = dev\<rparr> = (res, chs1)"
      by fastforce
    have store: "map_get (cs_challenges chs1) = (map_get (cs_challenges chs))(cid := None)"
      using rebind_consume_store [of chs now cid acc dev now sk] unfolding res snd_conv .
    then have le: "map_get (cs_challenges chs1) \<subseteq>\<^sub>m map_get (cs_challenges chs)"
      by (auto simp: map_le_def split: if_splits)
    let ?claims = "\<lambda>bytes. \<lparr>cl_accountId = acc, cl_deviceId = dev, cl_novaId = nova,
      cl_challengeId = cid, cl_challengeBase64 = bytes\<rparr>"
    note eq' = eq [unfolded handshake_checked [OF strs device res]]
    show thesis
    proof (cases "\<exists>bytes. res = ConsumeOk bytes \<and>
        verifyAuthSignature nc (?claims bytes) sig (dev_ed25519PublicKey device)")
      case True
      then obtain bytes where ok: "res = ConsumeOk bytes"
        "verifyAuthSignature nc (?claims bytes) sig (dev_ed25519PublicKey device)" by blast
      obtain ses evicted sess2 where cr: "create_session sess now nid sk acc dev nova = (ses, evicted, sess2)"
        by (metis prod_cases3)
      have "response_accepted nc devs chs now sk payload (?claims bytes)"
        using ok device res by (simp add: acc_iff)
      with eq' ok cr store show thesis
        by (intro success [of ses evicted "?claims bytes"]) auto
    next
      case False
      then have "\<nexists>c. response_accepted nc devs chs now sk payload c"
        using device res by (auto simp: acc_iff)
      with eq' False le show thesis
        by (intro failed) (auto split: consume_result.splits if_splits)
    qed
  qed
qed

text \<open>Only the challenge a response names is touched.\<close>

lemma consume_other: "consume cs now a = (res, cs') \<Longrightarrow> i \<noteq> at_challengeId a \<Longrightarrow>
    map_get (cs_challenges cs') i = map_get (cs_challenges cs) i"
  using consume_removes [of cs now a] by simp

lemma rebind_other: "i \<noteq> cid \<Longrightarrow>
    map_get (cs_challenges (snd (rebind cs now cid a d))) i = map_get (cs_challenges cs) i"
  by (auto simp: rebind_get split: option.splits)

lemma handshake_other_challenges:
  assumes "handleAuthResponse nc devs chs sess now nid sk payload rb = (r, chs', sess')"
    and "map_get payload ''challenge_id'' \<noteq> Some (JStr i)"
  shows "map_get (cs_challenges chs') i = map_get (cs_challenges chs) i"
proof (cases "response_strings payload")
  case None
  with assms show ?thesis by (simp add: handshake_bad_payload)
next
  case (Some strs)
  obtain cid sig acc dev nova where strs: "strs = (cid, sig, acc, dev, nova)" by (cases strs) auto
  with Some have "map_get payload ''challenge_id'' = Some (JStr cid)" by (simp add: response_strings_Some)
  with assms(2) have "i \<noteq> cid" by auto
  with Some strs assms show ?thesis
    by (auto simp: handleAuthResponse_def Let_def rebind_other consume_other
        split: option.splits if_splits consume_result.splits prod.splits)
qed

text \<open>The engine keeps the invariants of both stores.\<close>

lemma challenges_ok_consumed: "consume cs now a = (res, cs') \<Longrightarrow> challenges_ok cs \<Longrightarrow> challenges_ok cs'"
  by (metis challenges_ok_consume snd_conv)

lemma handshake_challenges_ok:
  assumes "handleAuthResponse nc devs chs sess now nid sk payload rb = (r, chs', sess')" and "challenges_ok chs"
  shows "challenges_ok chs'"
proof (cases "response_strings payload")
  case None
  with assms show ?thesis by (simp add: handshake_bad_payload)
next
  case (Some strs)
  obtain cid sig acc dev nova where "strs = (cid, sig, acc, dev, nova)" by (cases strs) auto
  with Some assms show ?thesis
    by (auto simp: handleAuthResponse_def Let_def
        split: option.splits if_splits consume_result.splits prod.splits
        intro: challenges_ok_rebind challenges_ok_consumed)
qed

lemma handshake_sessions_ok:
  assumes "handleAuthResponse nc devs chs sess now nid sk payload True = (r, chs', sess')" and "sessions_ok sess"
  shows "sessions_ok sess'"
  using assms(1)
proof (cases rule: handshake_cases)
  case failed
  with assms(2) show ?thesis by simp
next
  case (success c ses evicted)
  with assms(2) show ?thesis by (blast intro: sessions_ok_create)
qed

section \<open>A challenge gives at most one session\<close>

text \<open>One response as a call on the three stores: its clock reading, the random session id
  it would use, its socket and its payload.\<close>

record auth_call =
  ac_now :: int
  ac_newSessionId :: string
  ac_socketKey :: string
  ac_payload :: fields

definition answer ::
  "node_crypto \<Rightarrow> device_registry \<Rightarrow> challenge_store \<times> session_registry \<Rightarrow> auth_call
   \<Rightarrow> session option \<times> challenge_store \<times> session_registry" where
  "answer nc devs st q =
     (let (r, st') = handleAuthResponse nc devs (fst st) (snd st) (ac_now q) (ac_newSessionId q)
        (ac_socketKey q) (ac_payload q) True in (hr_session r, st'))"

interpretation handshake_single_use: single_use "answer nc devs"
  "\<lambda>st. Some ` dom (map_get (cs_challenges (fst st)))"
  "\<lambda>q. as_string (map_get (ac_payload q) ''challenge_id'')" for nc devs
proof unfold_locales
  fix st :: "challenge_store \<times> session_registry" and q :: auth_call
  obtain r chs' sess' where h: "handleAuthResponse nc devs (fst st) (snd st) (ac_now q)
      (ac_newSessionId q) (ac_socketKey q) (ac_payload q) True = (r, chs', sess')"
    by (metis prod_cases3)
  have ans: "answer nc devs st q = (hr_session r, chs', sess')"
    by (simp add: answer_def h)
  show "fst (answer nc devs st q) \<noteq> None \<Longrightarrow>
      as_string (map_get (ac_payload q) ''challenge_id'') \<in> Some ` dom (map_get (cs_challenges (fst st)))"
    using h by (cases rule: handshake_cases) (auto simp: ans response_accepted_def)
  show "Some ` dom (map_get (cs_challenges (fst (snd (answer nc devs st q))))) \<subseteq>
      Some ` dom (map_get (cs_challenges (fst st)))"
    using h by (cases rule: handshake_cases) (auto simp: ans map_le_def dom_def split: if_splits)
  show "fst (answer nc devs st q) \<noteq> None \<Longrightarrow>
      as_string (map_get (ac_payload q) ''challenge_id'') \<notin>
        Some ` dom (map_get (cs_challenges (fst (snd (answer nc devs st q)))))"
    using h by (cases rule: handshake_cases) (auto simp: ans response_accepted_def)
qed

section \<open>Properties\<close>

text \<open>
  C7: The handshake succeeds exactly for an accepted response: an active registered device
  with the claimed account and Nova id, a live challenge issued to this socket, and a
  signature over these claims and these challenge bytes. The session created is for that
  identity and this socket.
\<close>

theorem handshake_success_iff:
  assumes "handleAuthResponse nc devs chs sess now nid sk payload True = (r, chs', sess')"
  shows "hr_outcome r = HsSuccess \<and> hr_session r = Some s \<longleftrightarrow>
    (\<exists>c. response_accepted nc devs chs now sk payload c \<and>
       s = fst (create_session sess now nid sk (cl_accountId c) (cl_deviceId c) (cl_novaId c)))"
  using assms
proof (cases rule: handshake_cases)
  case failed
  then show ?thesis by auto
next
  case (success c ses evicted)
  have "cl_accountId c' = cl_accountId c \<and> cl_deviceId c' = cl_deviceId c \<and> cl_novaId c' = cl_novaId c"
    if "response_accepted nc devs chs now sk payload c'" for c'
    using that success(2) by (simp add: response_accepted_def)
  with success show ?thesis by (metis (no_types, lifting) fst_conv handshake_result.select_convs(1,2) option.inject)
qed

lemma handshake_success_iff_witness:
  "hr_outcome (fst (handleAuthResponse example_crypto [] (new_challenge_store 10) (new_session_registry 10) 0
      ''S'' ''k'' [(''challenge_id'', JStr ''c'')] True)) \<noteq> HsSuccess"
proof -
  obtain r chs' sess' where h: "handleAuthResponse example_crypto [] (new_challenge_store 10)
      (new_session_registry 10) 0 ''S'' ''k'' [(''challenge_id'', JStr ''c'')] True = (r, chs', sess')"
    by (metis prod_cases3)
  have "hr_session r \<noteq> None" if "hr_outcome r = HsSuccess"
    using h that by (cases rule: handshake_cases) auto
  with handshake_success_iff [OF h] show ?thesis
    by (auto simp: h response_accepted_def)
qed

text \<open>
  A failed handshake grants nothing and tells nothing: no session is created or evicted,
  the code on the wire is the same for every reason, and only the challenge the response named
  can have been spent.
\<close>

theorem handshake_failure_generic:
  assumes "handleAuthResponse nc devs chs sess now nid sk payload True = (r, chs', sess')"
    and "hr_outcome r \<noteq> HsSuccess"
  shows "sess' = sess \<and> hr_session r = None \<and> hr_evicted r = [] \<and>
    wireFailureCode (hr_outcome r) = error_code AuthFailed \<and>
    (\<forall>i. map_get payload ''challenge_id'' \<noteq> Some (JStr i) \<longrightarrow>
       map_get (cs_challenges chs') i = map_get (cs_challenges chs) i)"
proof -
  have "map_get (cs_challenges chs') i = map_get (cs_challenges chs) i"
    if "map_get payload ''challenge_id'' \<noteq> Some (JStr i)" for i
    using handshake_other_challenges [OF assms(1) that] .
  moreover have "wireFailureCode (hr_outcome r) = error_code AuthFailed"
    using assms(2) by (cases "hr_outcome r") simp_all
  moreover have "sess' = sess \<and> hr_session r = None \<and> hr_evicted r = []"
    using assms by (cases rule: handshake_cases) auto
  ultimately show ?thesis by blast
qed

lemma handshake_failure_generic_witness:
  "snd (snd (handleAuthResponse example_crypto [] (new_challenge_store 10) (new_session_registry 10) 0
      ''S'' ''k'' [] True)) = new_session_registry 10"
  using handshake_failure_generic [of example_crypto "[]" "new_challenge_store 10" "new_session_registry 10" 0
      "''S''" "''k''" "[]" "hs_failure HsBadPayload" "new_challenge_store 10" "new_session_registry 10"]
  by (simp add: handleAuthResponse_def response_strings_def)

text \<open>
  C30: One challenge, at most one session: in any run of responses, from any sockets at any
  times, the responses that get a session name pairwise different challenges.
\<close>

theorem challenge_gives_one_session:
  "distinct (map (\<lambda>q. as_string (map_get (ac_payload q) ''challenge_id''))
     (successes (answer nc devs) (chs, sess) qs))"
  by (rule handshake_single_use.at_most_one)

end
