(* ===== verification/Directory_Model.thy ===== *)
theory Directory_Model
  imports Device_Registry
begin

text \<open>
  \<^verbatim>\<open>server/src/directory/directory.ts\<close> and
  \<^verbatim>\<open>server/src/directory/memory_directory.ts\<close>. The \<open>Directory\<close> interface is the
  locale \<open>directory\<close>: memberships, contact relationships and presence audiences, with the
  laws the authorization relies on. \<open>MemoryDirectory\<close> is the default backend and
  interprets it. A \<open>Set\<close> is a list without duplicates, in insertion order.
\<close>

section \<open>The interface\<close>

locale directory =
  fixes member :: "'d \<Rightarrow> string \<Rightarrow> string \<Rightarrow> bool"
    and add_member :: "'d \<Rightarrow> string \<Rightarrow> string \<Rightarrow> 'd"
    and conversations :: "'d \<Rightarrow> string \<Rightarrow> string list"
    and related :: "'d \<Rightarrow> string \<Rightarrow> string \<Rightarrow> bool"
    and relate :: "'d \<Rightarrow> string \<Rightarrow> string \<Rightarrow> 'd"
    and audience :: "'d \<Rightarrow> string \<Rightarrow> string list"
    and allow_viewer :: "'d \<Rightarrow> string \<Rightarrow> string \<Rightarrow> 'd"
    and ok :: "'d \<Rightarrow> bool"
  assumes member_add: "ok d \<Longrightarrow> member (add_member d c a) c' a' \<longleftrightarrow> c' = c \<and> a' = a \<or> member d c' a'"
    and member_relate: "ok d \<Longrightarrow> member (relate d x y) c a \<longleftrightarrow> member d c a"
    and member_allow: "ok d \<Longrightarrow> member (allow_viewer d x y) c a \<longleftrightarrow> member d c a"
    and conversations_member: "ok d \<Longrightarrow> c \<in> set (conversations d a) \<longleftrightarrow> member d c a"
    and distinct_conversations: "ok d \<Longrightarrow> distinct (conversations d a)"
    and related_relate: "ok d \<Longrightarrow> related (relate d x y) a b \<longleftrightarrow> (a = x \<and> b = y \<or> a = y \<and> b = x) \<or> related d a b"
    and related_sym: "ok d \<Longrightarrow> related d a b \<longleftrightarrow> related d b a"
    and audience_allow: "ok d \<Longrightarrow>
      set (audience (allow_viewer d s v) s') = (if s' = s then insert v (set (audience d s)) else set (audience d s'))"
    and ok_add: "ok d \<Longrightarrow> ok (add_member d c a)"
    and ok_relate: "ok d \<Longrightarrow> ok (relate d a b)"
    and ok_allow: "ok d \<Longrightarrow> ok (allow_viewer d s v)"
begin

text \<open>Seeding a list of members, as the admin endpoint does, adds exactly these.\<close>

lemma member_seed:
  "ok d \<Longrightarrow> member (fold (\<lambda>a d. add_member d c a) as d) c' a' \<longleftrightarrow> c' = c \<and> a' \<in> set as \<or> member d c' a'"
  by (induction as arbitrary: d) (auto simp: member_add ok_add)

lemma ok_seed: "ok d \<Longrightarrow> ok (fold (\<lambda>a d. add_member d c a) as d)"
  by (induction as arbitrary: d) (auto simp: ok_add)

end

section \<open>The memory backend\<close>

record memory_directory =
  md_devices :: device_registry
  md_conversationMembers :: "(string \<times> string list) list"
  md_accountConversations :: "(string \<times> string list) list"
  md_relationships :: "(string \<times> string list) list"
  md_presenceAudiences :: "(string \<times> string list) list"

definition new_directory :: memory_directory where
  "new_directory = \<lparr>md_devices = [], md_conversationMembers = [], md_accountConversations = [],
     md_relationships = [], md_presenceAudiences = []\<rparr>"

text \<open>\<open>m.get(k) ?? []\<close>, and \<open>if (!m.has(k)) m.set(k, new Set()); m.get(k).add(v)\<close>.\<close>

definition get_set :: "(string \<times> string list) list \<Rightarrow> string \<Rightarrow> string list" where
  "get_set m k = (case map_get m k of None \<Rightarrow> [] | Some s \<Rightarrow> s)"

definition add_to_set :: "string \<Rightarrow> string \<Rightarrow> (string \<times> string list) list \<Rightarrow> (string \<times> string list) list" where
  "add_to_set k v m =
     (let m' = (if \<not> map_has m k then map_set k [] m else m) in map_set k (set_add v (get_set m' k)) m')"

definition getDevice :: "memory_directory \<Rightarrow> string \<Rightarrow> device_record option" where
  "getDevice d deviceId = map_get (md_devices d) deviceId"

definition upsertDevice :: "memory_directory \<Rightarrow> device_record \<Rightarrow> memory_directory" where
  "upsertDevice d rec = d\<lparr>md_devices := map_set (dev_deviceId rec) rec (md_devices d)\<rparr>"

definition revokeDevice :: "memory_directory \<Rightarrow> string \<Rightarrow> bool \<times> memory_directory" where
  "revokeDevice d deviceId =
     (case map_get (md_devices d) deviceId of
        None \<Rightarrow> (False, d)
      | Some rec \<Rightarrow> (True, d\<lparr>md_devices := map_set deviceId (rec\<lparr>dev_status := Revoked\<rparr>) (md_devices d)\<rparr>))"

definition isConversationMember :: "memory_directory \<Rightarrow> string \<Rightarrow> string \<Rightarrow> bool" where
  "isConversationMember d conversationId accountId \<longleftrightarrow>
     accountId \<in> set (get_set (md_conversationMembers d) conversationId)"

definition addConversationMember :: "memory_directory \<Rightarrow> string \<Rightarrow> string \<Rightarrow> memory_directory" where
  "addConversationMember d conversationId accountId =
     d\<lparr>md_conversationMembers := add_to_set conversationId accountId (md_conversationMembers d),
       md_accountConversations := add_to_set accountId conversationId (md_accountConversations d)\<rparr>"

definition listConversationsForAccount :: "memory_directory \<Rightarrow> string \<Rightarrow> string list" where
  "listConversationsForAccount d accountId = get_set (md_accountConversations d) accountId"

definition hasRelationship :: "memory_directory \<Rightarrow> string \<Rightarrow> string \<Rightarrow> bool" where
  "hasRelationship d a b \<longleftrightarrow> b \<in> set (get_set (md_relationships d) a)"

definition addRelationship :: "memory_directory \<Rightarrow> string \<Rightarrow> string \<Rightarrow> memory_directory" where
  "addRelationship d a b =
     (let r1 = (if \<not> map_has (md_relationships d) a then map_set a [] (md_relationships d) else md_relationships d);
          r2 = (if \<not> map_has r1 b then map_set b [] r1 else r1);
          r3 = map_set a (set_add b (get_set r2 a)) r2 in
      d\<lparr>md_relationships := map_set b (set_add a (get_set r3 b)) r3\<rparr>)"

definition presenceAudience :: "memory_directory \<Rightarrow> string \<Rightarrow> string list" where
  "presenceAudience d subjectAccountId = get_set (md_presenceAudiences d) subjectAccountId"

definition allowPresence :: "memory_directory \<Rightarrow> string \<Rightarrow> string \<Rightarrow> memory_directory" where
  "allowPresence d subjectAccountId viewerAccountId =
     d\<lparr>md_presenceAudiences := add_to_set subjectAccountId viewerAccountId (md_presenceAudiences d)\<rparr>"

section \<open>The memory backend keeps the laws\<close>

lemma get_set_put: "get_set (map_set k s m) x = (if x = k then s else get_set m x)"
  by (simp add: get_set_def)

lemma get_set_ensure: "get_set (if map_get m k = None then map_set k [] m else m) x = get_set m x"
proof (cases "map_get m k")
  case None
  then have "get_set m k = []" unfolding get_set_def by simp
  with None show ?thesis by (simp add: get_set_put)
next
  case (Some y)
  then show ?thesis by simp
qed

lemma get_add_to_set: "get_set (add_to_set k v m) k' = (if k' = k then set_add v (get_set m k) else get_set m k')"
  by (simp add: add_to_set_def Let_def get_set_put get_set_ensure)

lemma get_addRelationship:
  "set (get_set (md_relationships (addRelationship d a b)) x) =
     (if x = a then {b} else {}) \<union> (if x = b then {a} else {}) \<union> set (get_set (md_relationships d) x)"
  by (simp add: addRelationship_def Let_def get_set_put get_set_ensure insert_commute) auto

text \<open>Both membership indices say the same, and the contact relation is symmetric.\<close>

definition directory_ok :: "memory_directory \<Rightarrow> bool" where
  "directory_ok d \<longleftrightarrow>
     (\<forall>c a. a \<in> set (get_set (md_conversationMembers d) c) \<longleftrightarrow> c \<in> set (get_set (md_accountConversations d) a)) \<and>
     (\<forall>a. distinct (get_set (md_accountConversations d) a)) \<and>
     (\<forall>a b. b \<in> set (get_set (md_relationships d) a) \<longleftrightarrow> a \<in> set (get_set (md_relationships d) b))"

lemma directory_ok_new [inv_intros]: "directory_ok new_directory"
  by (simp add: directory_ok_def new_directory_def get_set_def)

lemma directory_ok_addMember [inv_intros]: "directory_ok d \<Longrightarrow> directory_ok (addConversationMember d c a)"
  by (auto simp: directory_ok_def addConversationMember_def get_add_to_set)

lemma directory_ok_addRelationship [inv_intros]:
  assumes "directory_ok d" shows "directory_ok (addRelationship d x y)"
proof -
  have other: "md_conversationMembers (addRelationship d x y) = md_conversationMembers d"
    "md_accountConversations (addRelationship d x y) = md_accountConversations d"
    by (simp_all add: addRelationship_def Let_def)
  show ?thesis
    using assms unfolding directory_ok_def other get_addRelationship by auto
qed

lemma directory_ok_allowPresence [inv_intros]: "directory_ok d \<Longrightarrow> directory_ok (allowPresence d s v)"
  by (simp add: directory_ok_def allowPresence_def)

lemma directory_ok_upsertDevice [inv_intros]: "directory_ok d \<Longrightarrow> directory_ok (upsertDevice d r)"
  by (simp add: directory_ok_def upsertDevice_def)

lemma directory_ok_revokeDevice [inv_intros]: "directory_ok d \<Longrightarrow> directory_ok (snd (revokeDevice d i))"
  by (auto simp: directory_ok_def revokeDevice_def split: option.splits)

lemma member_upsertDevice [simp]: "isConversationMember (upsertDevice d r) = isConversationMember d"
  by (simp add: fun_eq_iff isConversationMember_def upsertDevice_def)

lemma member_revokeDevice [simp]: "isConversationMember (snd (revokeDevice d i)) = isConversationMember d"
  by (auto simp: fun_eq_iff isConversationMember_def revokeDevice_def split: option.splits)

interpretation memory_directory: directory isConversationMember addConversationMember
  listConversationsForAccount hasRelationship addRelationship presenceAudience allowPresence directory_ok
proof unfold_locales
  fix d :: memory_directory and c a c' a' x y s v s' b :: string
  assume ok: "directory_ok d"
  show "isConversationMember (addConversationMember d c a) c' a' = (c' = c \<and> a' = a \<or> isConversationMember d c' a')"
    by (auto simp: isConversationMember_def addConversationMember_def get_add_to_set)
  show "isConversationMember (addRelationship d x y) c a = isConversationMember d c a"
    by (simp add: isConversationMember_def addRelationship_def Let_def)
  show "isConversationMember (allowPresence d x y) c a = isConversationMember d c a"
    by (simp add: isConversationMember_def allowPresence_def)
  show "(c \<in> set (listConversationsForAccount d a)) = isConversationMember d c a"
    using ok by (simp add: directory_ok_def listConversationsForAccount_def isConversationMember_def)
  show "distinct (listConversationsForAccount d a)"
    using ok by (simp add: directory_ok_def listConversationsForAccount_def)
  show "hasRelationship (addRelationship d x y) a b = ((a = x \<and> b = y \<or> a = y \<and> b = x) \<or> hasRelationship d a b)"
    by (auto simp: hasRelationship_def get_addRelationship)
  show "hasRelationship d a b = hasRelationship d b a"
    using ok by (simp add: directory_ok_def hasRelationship_def)
  show "set (presenceAudience (allowPresence d s v) s') =
      (if s' = s then insert v (set (presenceAudience d s)) else set (presenceAudience d s'))"
    by (simp add: presenceAudience_def allowPresence_def get_add_to_set)
qed (simp_all add: inv_intros)

end
