(* ===== verification/Authorization_Policy.thy ===== *)
theory Authorization_Policy
  imports Directory_Model Session_Registry
begin

text \<open>
  \<^verbatim>\<open>server/src/protocol/authorization_policy.ts\<close>: every decision asks the directory.
  The policy is given the directory's operations, as its constructor is.
\<close>

datatype authz_decision = AuthzAllow | DenyNotAuthenticated | DenyNotAuthorized

definition canSendMessage :: "('d \<Rightarrow> string \<Rightarrow> string \<Rightarrow> bool) \<Rightarrow> 'd \<Rightarrow> session option \<Rightarrow> string \<Rightarrow> authz_decision" where
  "canSendMessage member d ses conversationId =
     (case ses of
        None \<Rightarrow> DenyNotAuthenticated
      | Some s \<Rightarrow> if member d conversationId (ses_accountId s) then AuthzAllow else DenyNotAuthorized)"

definition canReadConversation :: "('d \<Rightarrow> string \<Rightarrow> string \<Rightarrow> bool) \<Rightarrow> 'd \<Rightarrow> session option \<Rightarrow> string \<Rightarrow> authz_decision" where
  "canReadConversation member d ses conversationId =
     (case ses of
        None \<Rightarrow> DenyNotAuthenticated
      | Some s \<Rightarrow> if member d conversationId (ses_accountId s) then AuthzAllow else DenyNotAuthorized)"

definition canSignalCall :: "('d \<Rightarrow> string \<Rightarrow> string \<Rightarrow> bool) \<Rightarrow> 'd \<Rightarrow> session option \<Rightarrow> string \<Rightarrow> authz_decision" where
  "canSignalCall related d ses peerAccountId =
     (case ses of
        None \<Rightarrow> DenyNotAuthenticated
      | Some s \<Rightarrow> if related d (ses_accountId s) peerAccountId then AuthzAllow else DenyNotAuthorized)"

definition canViewPresence :: "('d \<Rightarrow> string \<Rightarrow> string list) \<Rightarrow> 'd \<Rightarrow> session option \<Rightarrow> string \<Rightarrow> authz_decision" where
  "canViewPresence audience d ses subjectAccountId =
     (case ses of
        None \<Rightarrow> DenyNotAuthenticated
      | Some s \<Rightarrow> if ses_accountId s \<in> set (audience d subjectAccountId) then AuthzAllow else DenyNotAuthorized)"

definition canManageDevices :: "session option \<Rightarrow> string \<Rightarrow> authz_decision" where
  "canManageDevices ses targetAccountId =
     (case ses of
        None \<Rightarrow> DenyNotAuthenticated
      | Some s \<Rightarrow> if ses_accountId s = targetAccountId then AuthzAllow else DenyNotAuthorized)"

lemma canSendMessage_allow:
  "canSendMessage member d ses c = AuthzAllow \<longleftrightarrow> (\<exists>s. ses = Some s \<and> member d c (ses_accountId s))"
  by (auto simp: canSendMessage_def split: option.splits)

lemma canReadConversation_allow:
  "canReadConversation member d ses c = AuthzAllow \<longleftrightarrow> (\<exists>s. ses = Some s \<and> member d c (ses_accountId s))"
  by (auto simp: canReadConversation_def split: option.splits)

lemma canSignalCall_allow:
  "canSignalCall related d ses p = AuthzAllow \<longleftrightarrow> (\<exists>s. ses = Some s \<and> related d (ses_accountId s) p)"
  by (auto simp: canSignalCall_def split: option.splits)

lemma canViewPresence_allow:
  "canViewPresence audience d ses s' = AuthzAllow \<longleftrightarrow> (\<exists>s. ses = Some s \<and> ses_accountId s \<in> set (audience d s'))"
  by (auto simp: canViewPresence_def split: option.splits)

text \<open>What a client of the interface may conclude, whatever the backend.\<close>

context directory
begin

text \<open>An account-wide sync serves only conversations the account may read.\<close>

lemma listed_readable:
  "ok d \<Longrightarrow> c \<in> set (conversations d (ses_accountId s)) \<longleftrightarrow> canReadConversation member d (Some s) c = AuthzAllow"
  by (simp add: canReadConversation_allow conversations_member)

text \<open>Signaling is mutual: if one side may call the other, the other may answer.\<close>

lemma signal_mutual:
  "ok d \<Longrightarrow> canSignalCall related d (Some s) (ses_accountId s') = AuthzAllow \<longleftrightarrow>
    canSignalCall related d (Some s') (ses_accountId s) = AuthzAllow"
  using related_sym by (auto simp: canSignalCall_allow)

lemma send_after_add:
  "ok d \<Longrightarrow> canSendMessage member (add_member d c a) (Some s) c' = AuthzAllow \<longleftrightarrow>
    c' = c \<and> ses_accountId s = a \<or> canSendMessage member d (Some s) c' = AuthzAllow"
  by (simp add: canSendMessage_allow member_add)

end

end
