(* ===== verification/Realtime_Store.thy ===== *)
theory Realtime_Store
  imports Wire
begin

text \<open>
  \<^verbatim>\<open>server/src/store/realtime_store.ts\<close>: per-conversation message sequence, stored
  envelopes, the event log behind sync, presence. Two interfaces are stated as locales:
  \<open>sequence_counter\<close> (the numbers handed out for a conversation are dense) and
  \<open>event_log\<close> (appends are numbered densely, a replay from a cursor is the rest of the
  log). \<open>MemoryRealtimeStore\<close> interprets both.
\<close>

section \<open>Data\<close>

record stored_message =
  sm_messageId :: string
  sm_conversationId :: string
  sm_senderAccountId :: string
  sm_senderDeviceId :: string
  sm_ciphertextBase64 :: string
  sm_headerType :: string
  sm_serverSeq :: int
  sm_receivedAtMs :: int
  sm_clientTimestampMs :: "js_number option"

datatype event_type = EvMessageNew | EvMessageDelivered | EvMessageRead

primrec event_type_name :: "event_type \<Rightarrow> string" where
  "event_type_name EvMessageNew = ''message.new''"
| "event_type_name EvMessageDelivered = ''message.delivered''"
| "event_type_name EvMessageRead = ''message.read''"

record appendable_event =
  ev_conversationId :: string
  ev_type :: event_type
  ev_serverSeq :: int
  ev_atMs :: int
  ev_payload :: fields

record stored_event = appendable_event +
  ev_logSeq :: int

datatype presence_status = Online | Offline

record presence_record =
  pr_accountId :: string
  pr_status :: presence_status
  pr_lastSeenMs :: js_number

record memory_store =
  ms_cursors :: "(string \<times> int) list"
  ms_logCursors :: "(string \<times> int) list"
  ms_messages :: "(string \<times> stored_message) list"
  ms_eventLog :: "(string \<times> stored_event list) list"
  ms_presence :: "(string \<times> presence_record) list"

definition new_store :: memory_store where
  "new_store = \<lparr>ms_cursors = [], ms_logCursors = [], ms_messages = [], ms_eventLog = [], ms_presence = []\<rparr>"

section \<open>Operations\<close>

text \<open>\<open>m.get(k) ?? d\<close>.\<close>

definition get_or :: "'v \<Rightarrow> ('k \<times> 'v) list \<Rightarrow> 'k \<Rightarrow> 'v" where
  "get_or d m k = (case map_get m k of None \<Rightarrow> d | Some v \<Rightarrow> v)"

lemma get_or_set [simp]: "get_or d (map_set k v m) k' = (if k' = k then v else get_or d m k')"
  by (simp add: get_or_def)

lemma get_or_Nil [simp]: "get_or d [] k = d"
  by (simp add: get_or_def)

definition nextSeq :: "memory_store \<Rightarrow> string \<Rightarrow> int \<times> memory_store" where
  "nextSeq st conversationId =
     (let next = get_or 0 (ms_cursors st) conversationId + 1 in
      (next, st\<lparr>ms_cursors := map_set conversationId next (ms_cursors st)\<rparr>))"

definition latestSeq :: "memory_store \<Rightarrow> string \<Rightarrow> int" where
  "latestSeq st conversationId = get_or 0 (ms_cursors st) conversationId"

definition persistMessage :: "memory_store \<Rightarrow> stored_message \<Rightarrow> memory_store" where
  "persistMessage st message = st\<lparr>ms_messages := map_set (sm_messageId message) message (ms_messages st)\<rparr>"

definition findMessage :: "memory_store \<Rightarrow> string \<Rightarrow> stored_message option" where
  "findMessage st messageId = map_get (ms_messages st) messageId"

text \<open>\<open>{...event, logSeq}\<close>.\<close>

definition with_logSeq :: "appendable_event \<Rightarrow> int \<Rightarrow> stored_event" where
  "with_logSeq event logSeq = appendable_event.extend event \<lparr>ev_logSeq = logSeq\<rparr>"

definition appendEvent :: "memory_store \<Rightarrow> appendable_event \<Rightarrow> int \<times> memory_store" where
  "appendEvent st event =
     (let logSeq = get_or 0 (ms_logCursors st) (ev_conversationId event) + 1;
          log = get_or [] (ms_eventLog st) (ev_conversationId event) in
      (logSeq, st\<lparr>ms_logCursors := map_set (ev_conversationId event) logSeq (ms_logCursors st),
                  ms_eventLog := map_set (ev_conversationId event) (log @ [with_logSeq event logSeq]) (ms_eventLog st)\<rparr>))"

definition eventsSince :: "memory_store \<Rightarrow> string \<Rightarrow> int \<Rightarrow> int \<Rightarrow> stored_event list" where
  "eventsSince st conversationId lastLogSeq limit =
     slice0 limit (sort_key ev_logSeq
       (filter (\<lambda>event. ev_logSeq event > lastLogSeq) (get_or [] (ms_eventLog st) conversationId)))"

definition latestLogSeq :: "memory_store \<Rightarrow> string \<Rightarrow> int" where
  "latestLogSeq st conversationId = get_or 0 (ms_logCursors st) conversationId"

definition getPresence :: "memory_store \<Rightarrow> string \<Rightarrow> presence_record option" where
  "getPresence st accountId = map_get (ms_presence st) accountId"

definition setPresence :: "memory_store \<Rightarrow> presence_record \<Rightarrow> memory_store" where
  "setPresence st rec = st\<lparr>ms_presence := map_set (pr_accountId rec) rec (ms_presence st)\<rparr>"

definition allMessages :: "memory_store \<Rightarrow> stored_message list" where
  "allMessages st = map_values (ms_messages st)"

lemma with_logSeq_simps [simp]:
  "ev_logSeq (with_logSeq e n) = n" "ev_conversationId (with_logSeq e n) = ev_conversationId e"
  "ev_type (with_logSeq e n) = ev_type e" "ev_serverSeq (with_logSeq e n) = ev_serverSeq e"
  "ev_atMs (with_logSeq e n) = ev_atMs e" "ev_payload (with_logSeq e n) = ev_payload e"
  by (simp_all add: with_logSeq_def appendable_event.extend_def)

section \<open>Sequences\<close>

text \<open>The numbers a run of requests receives, with the conversation each was for.\<close>

fun issued_numbers :: "('s \<Rightarrow> string \<Rightarrow> int \<times> 's) \<Rightarrow> 's \<Rightarrow> string list \<Rightarrow> (string \<times> int) list" where
  "issued_numbers nxt s [] = []"
| "issued_numbers nxt s (c # cs) = (let (n, s') = nxt s c in (c, n) # issued_numbers nxt s' cs)"

locale sequence_counter =
  fixes nxt :: "'s \<Rightarrow> string \<Rightarrow> int \<times> 's"
    and latest :: "'s \<Rightarrow> string \<Rightarrow> int"
  assumes nxt_value: "fst (nxt s c) = latest s c + 1"
    and nxt_latest: "latest (snd (nxt s c)) c' = (if c' = c then latest s c + 1 else latest s c')"
begin

lemma dense:
  "map snd (filter (\<lambda>p. fst p = c) (issued_numbers nxt s cs)) =
   [latest s c + 1 .. latest s c + int (count_list cs c)]"
proof (induction cs arbitrary: s)
  case Nil
  show ?case by simp
next
  case (Cons a cs)
  obtain n s' where step: "nxt s a = (n, s')" by fastforce
  have n: "n = latest s a + 1" and l: "latest s' c = (if c = a then latest s a + 1 else latest s c)"
    using nxt_value [of s a] nxt_latest [of s a c] step by simp_all
  show ?case
  proof (cases "a = c")
    case True
    then show ?thesis
      using Cons.IH [of s'] n l step by (simp add: upto_rec1 add.assoc)
  next
    case False
    then show ?thesis
      using Cons.IH [of s'] l by (simp add: step)
  qed
qed

lemma no_repeat: "distinct (map snd (filter (\<lambda>p. fst p = c) (issued_numbers nxt s cs)))"
  by (simp add: dense)

end

interpretation message_seq: sequence_counter nextSeq latestSeq
  by unfold_locales (simp_all add: nextSeq_def latestSeq_def Let_def)

section \<open>The event log\<close>

locale event_log =
  fixes append :: "'s \<Rightarrow> appendable_event \<Rightarrow> int \<times> 's"
    and since :: "'s \<Rightarrow> string \<Rightarrow> int \<Rightarrow> int \<Rightarrow> stored_event list"
    and latest :: "'s \<Rightarrow> string \<Rightarrow> int"
    and log_of :: "'s \<Rightarrow> string \<Rightarrow> stored_event list"
    and ok :: "'s \<Rightarrow> bool"
  assumes append_value: "ok s \<Longrightarrow> fst (append s e) = latest s (ev_conversationId e) + 1"
    and append_log: "ok s \<Longrightarrow> log_of (snd (append s e)) c =
      (if c = ev_conversationId e then log_of s c @ [with_logSeq e (latest s c + 1)] else log_of s c)"
    and append_ok: "ok s \<Longrightarrow> ok (snd (append s e))"
    and latest_length: "ok s \<Longrightarrow> latest s c = int (length (log_of s c))"
    and log_numbered: "ok s \<Longrightarrow> map ev_logSeq (log_of s c) = [1 .. latest s c]"
    and since_rest: "ok s \<Longrightarrow> 0 \<le> k \<Longrightarrow> 0 \<le> n \<Longrightarrow> since s c k n = take (nat n) (drop (nat k) (log_of s c))"
begin

lemma latest_nonneg: "ok s \<Longrightarrow> 0 \<le> latest s c"
  by (simp add: latest_length)

lemma logSeq_nth: "ok s \<Longrightarrow> i < length (log_of s c) \<Longrightarrow> ev_logSeq (log_of s c ! i) = int i + 1"
proof -
  assume ok: "ok s" and i: "i < length (log_of s c)"
  then have "map ev_logSeq (log_of s c) ! i = [1 .. latest s c] ! i"
    by (simp add: log_numbered)
  with ok i show ?thesis by (simp add: latest_length)
qed

text \<open>The last event of a page carries the cursor of the page's end.\<close>

lemma page_cursor:
  assumes "ok s" "0 \<le> k" "0 < n" "since s c k n \<noteq> []"
  shows "ev_logSeq (last (since s c k n)) = k + int (length (since s c k n))"
proof -
  let ?l = "length (since s c k n)"
  have len: "nat k + ?l \<le> length (log_of s c)" "0 < ?l"
    using assms by (auto simp: since_rest)
  have "last (since s c k n) = since s c k n ! (?l - 1)"
    using assms(4) by (simp add: last_conv_nth)
  also have "\<dots> = log_of s c ! (nat k + (?l - 1))"
  proof -
    have "?l \<le> nat n" using assms by (simp add: since_rest)
    then have "?l - 1 < nat n" using len by linarith
    moreover have "since s c k n = take (nat n) (drop (nat k) (log_of s c))"
      using assms by (simp add: since_rest)
    ultimately show ?thesis by (metis len(1) le_add1 le_trans nth_drop nth_take)
  qed
  finally have last: "last (since s c k n) = log_of s c ! (nat k + (?l - 1))" .
  have "nat k + (?l - 1) < length (log_of s c)" using len by linarith
  from logSeq_nth [OF assms(1) this] show ?thesis
    using len assms(2) by (simp only: last)
qed

text \<open>An event is replayed by exactly the cursors below its number.\<close>

lemma replay_complete:
  assumes "ok s" "0 \<le> k" "e \<in> set (log_of s c)" "int (length (log_of s c)) \<le> n"
  shows "e \<in> set (since s c k n) \<longleftrightarrow> k < ev_logSeq e"
proof -
  obtain i where i: "i < length (log_of s c)" "e = log_of s c ! i"
    using assms(3) by (auto simp: in_set_conv_nth)
  have "since s c k n = drop (nat k) (log_of s c)"
    using assms by (simp add: since_rest)
  moreover have "distinct (log_of s c)"
    using log_numbered [OF assms(1), of c] by (metis distinct_map distinct_upto)
  moreover have "ev_logSeq e = int i + 1"
    using i logSeq_nth [OF assms(1) i(1)] by simp
  ultimately show ?thesis
    using i assms(2) by (auto simp: in_set_conv_nth nth_eq_iff_index_eq intro!: exI [of _ "i - nat k"])
qed

end

section \<open>The memory backend keeps the contract\<close>

abbreviation log_of :: "memory_store \<Rightarrow> string \<Rightarrow> stored_event list" where
  "log_of st c \<equiv> get_or [] (ms_eventLog st) c"

definition store_ok :: "memory_store \<Rightarrow> bool" where
  "store_ok st \<longleftrightarrow>
     (\<forall>c. map ev_logSeq (log_of st c) = [1 .. latestLogSeq st c]) \<and>
     (\<forall>c. latestLogSeq st c = int (length (log_of st c))) \<and>
     (\<forall>c. \<forall>e \<in> set (log_of st c). ev_conversationId e = c) \<and>
     (\<forall>i m. findMessage st i = Some m \<longrightarrow> sm_messageId m = i) \<and>
     (\<forall>c. 0 \<le> latestSeq st c)"

lemma store_ok_new [inv_intros]: "store_ok new_store"
  by (simp add: store_ok_def new_store_def latestLogSeq_def latestSeq_def findMessage_def)

lemma appendEvent_get:
  "log_of (snd (appendEvent st e)) c =
     (if c = ev_conversationId e then log_of st c @ [with_logSeq e (latestLogSeq st c + 1)] else log_of st c)"
  "latestLogSeq (snd (appendEvent st e)) c =
     (if c = ev_conversationId e then latestLogSeq st c + 1 else latestLogSeq st c)"
  by (simp_all add: appendEvent_def latestLogSeq_def Let_def)

lemma appendEvent_frame [simp]:
  "findMessage (snd (appendEvent st e)) = findMessage st" "latestSeq (snd (appendEvent st e)) = latestSeq st"
  "ms_messages (snd (appendEvent st e)) = ms_messages st" "ms_presence (snd (appendEvent st e)) = ms_presence st"
  by (simp_all add: fun_eq_iff appendEvent_def findMessage_def latestSeq_def Let_def)

lemma nextSeq_frame [simp]:
  "findMessage (snd (nextSeq st c)) = findMessage st" "log_of (snd (nextSeq st c)) = log_of st"
  "latestLogSeq (snd (nextSeq st c)) = latestLogSeq st"
  "ms_messages (snd (nextSeq st c)) = ms_messages st"
  "ms_eventLog (snd (nextSeq st c)) = ms_eventLog st"
  by (simp_all add: fun_eq_iff nextSeq_def findMessage_def latestLogSeq_def Let_def)

lemma persistMessage_frame [simp]:
  "log_of (persistMessage st m) = log_of st" "latestSeq (persistMessage st m) = latestSeq st"
  "latestLogSeq (persistMessage st m) = latestLogSeq st" "ms_eventLog (persistMessage st m) = ms_eventLog st"
  by (simp_all add: fun_eq_iff persistMessage_def latestSeq_def latestLogSeq_def)

lemma find_persist: "findMessage (persistMessage st m) i = (if i = sm_messageId m then Some m else findMessage st i)"
  by (simp add: findMessage_def persistMessage_def)

lemma setPresence_frame [simp]:
  "log_of (setPresence st r) = log_of st" "latestSeq (setPresence st r) = latestSeq st"
  "latestLogSeq (setPresence st r) = latestLogSeq st" "findMessage (setPresence st r) = findMessage st"
  "ms_eventLog (setPresence st r) = ms_eventLog st" "ms_messages (setPresence st r) = ms_messages st"
  by (simp_all add: fun_eq_iff setPresence_def latestSeq_def latestLogSeq_def findMessage_def)

lemma store_ok_append [inv_intros]: "store_ok st \<Longrightarrow> store_ok (snd (appendEvent st e))"
  unfolding store_ok_def by (auto simp: appendEvent_get upto_rec2)

lemma store_ok_nextSeq [inv_intros]: "store_ok st \<Longrightarrow> store_ok (snd (nextSeq st c))"
  unfolding store_ok_def by (auto simp: message_seq.nxt_latest add_nonneg_nonneg)

lemma store_ok_persist [inv_intros]: "store_ok st \<Longrightarrow> store_ok (persistMessage st m)"
  unfolding store_ok_def by (auto simp: find_persist)

lemma store_ok_setPresence [inv_intros]: "store_ok st \<Longrightarrow> store_ok (setPresence st r)"
  unfolding store_ok_def by simp

text \<open>On a densely numbered log, the filter, the sort and the slice are a drop and a take.\<close>

lemma filter_greater_drop:
  assumes "map f xs = [a + 1 .. b]" and "a \<le> k"
  shows "filter (\<lambda>x. k < f x) xs = drop (nat (k - a)) xs"
  using assms
proof (induction xs arbitrary: a)
  case Nil
  then show ?case by simp
next
  case (Cons x xs)
  from Cons.prems(1) have "a + 1 \<le> b"
    by (cases "a + 1 \<le> b") auto
  with Cons.prems(1) have x: "f x = a + 1" and xs: "map f xs = [(a + 1) + 1 .. b]"
    by (simp_all add: upto_rec1)
  show ?case
  proof (cases "k = a")
    case True
    have "a < f y" if "y \<in> set xs" for y
    proof -
      have "f y \<in> set (map f xs)" using that by simp
      then show ?thesis by (simp add: xs)
    qed
    with True x show ?thesis by (simp add: filter_id_conv)
  next
    case False
    then have "nat (k - a) = Suc (nat (k - (a + 1)))" using Cons.prems(2) by simp
    with False x Cons.IH [OF xs] Cons.prems(2) show ?thesis by simp
  qed
qed

lemma eventsSince_rest:
  assumes "store_ok st" "0 \<le> k" "0 \<le> n"
  shows "eventsSince st c k n = take (nat n) (drop (nat k) (log_of st c))"
proof -
  let ?log = "log_of st c"
  have num: "map ev_logSeq ?log = [0 + 1 .. latestLogSeq st c]"
    using assms(1) by (simp add: store_ok_def)
  have drop: "filter (\<lambda>e. k < ev_logSeq e) ?log = drop (nat k) ?log"
    using filter_greater_drop [OF num assms(2)] by simp
  have "sorted (map ev_logSeq ?log)" by (simp add: num)
  then have "sorted (map ev_logSeq (drop (nat k) ?log))"
    by (simp add: drop_map [symmetric] sorted_wrt_drop)
  then have "sort_key ev_logSeq (drop (nat k) ?log) = drop (nat k) ?log"
    by (rule sort_key_id_if_sorted)
  with assms(3) drop show ?thesis by (simp add: eventsSince_def)
qed

interpretation memory_log: event_log appendEvent eventsSince latestLogSeq log_of store_ok
proof unfold_locales
  fix st :: memory_store and e c and k n :: int
  assume ok: "store_ok st"
  show "fst (appendEvent st e) = latestLogSeq st (ev_conversationId e) + 1"
    by (simp add: appendEvent_def latestLogSeq_def Let_def)
  show "log_of (snd (appendEvent st e)) c =
      (if c = ev_conversationId e then log_of st c @ [with_logSeq e (latestLogSeq st c + 1)] else log_of st c)"
    by (rule appendEvent_get)
  show "store_ok (snd (appendEvent st e))" using ok by (rule store_ok_append)
  show "latestLogSeq st c = int (length (log_of st c))" "map ev_logSeq (log_of st c) = [1 .. latestLogSeq st c]"
    using ok by (simp_all add: store_ok_def)
  show "eventsSince st c k n = take (nat n) (drop (nat k) (log_of st c))" if "0 \<le> k" "0 \<le> n"
    using ok that by (rule eventsSince_rest)
qed

section \<open>Properties\<close>

text \<open>
  Message numbers have no gap and no repetition. In any interleaving of requests over any
  conversations, the numbers one conversation receives are the ones that follow its last, in
  order.
\<close>

theorem message_numbers_dense:
  "map snd (filter (\<lambda>p. fst p = c) (issued_numbers nextSeq st cs)) =
   [latestSeq st c + 1 .. latestSeq st c + int (count_list cs c)]"
  by (rule message_seq.dense)

text \<open>
  A replay loses nothing and repeats nothing: with a page as long as the log, an event is
  returned by exactly the cursors below its log number.
\<close>

theorem replay_is_complete:
  assumes "store_ok st" and "0 \<le> k" and "e \<in> set (log_of st c)" and "int (length (log_of st c)) \<le> limit"
  shows "e \<in> set (eventsSince st c k limit) \<longleftrightarrow> k < ev_logSeq e"
  using assms by (rule memory_log.replay_complete)

lemma replay_is_complete_witness:
  "let ev = \<lparr>ev_conversationId = ''c'', ev_type = EvMessageRead, ev_serverSeq = 0, ev_atMs = 0, ev_payload = []\<rparr>;
       st = snd (appendEvent (snd (appendEvent new_store ev)) ev) in
   with_logSeq ev 2 \<in> set (eventsSince st ''c'' 1 10)"
proof -
  let ?ev = "\<lparr>ev_conversationId = ''c'', ev_type = EvMessageRead, ev_serverSeq = 0, ev_atMs = 0, ev_payload = []\<rparr>"
  let ?st = "snd (appendEvent (snd (appendEvent new_store ?ev)) ?ev)"
  have "store_ok ?st" by (intro inv_intros)
  moreover have "log_of ?st ''c'' = [with_logSeq ?ev 1, with_logSeq ?ev 2]"
    by (simp add: appendEvent_get) (simp add: new_store_def latestLogSeq_def)
  ultimately show ?thesis
    using replay_is_complete [of ?st 1 "with_logSeq ?ev 2" "''c''" 10] by (simp add: Let_def)
qed

end
