(* ===== verification/Security_Log.thy ===== *)
theory Security_Log
  imports Wire
begin

text \<open>
  \<^verbatim>\<open>server/src/logger.ts\<close>: every line of the security log passes through
  \<open>log_event\<close>, which drops secrets and structures and shortens identifiers. A line is the
  object handed to \<open>JSON.stringify\<close>; the sink receives the same line and is not
  modelled. The characters of \<open>shortId\<close> outside Latin-1 are the bytes of their UTF-8
  encoding, which is what reaches the sink.

  \<open>redacted\<close> is what the module promises of a line, and \<open>log_ok\<close> that all lines in
  the ring buffer keep it.
\<close>

definition FORBIDDEN_LOG_KEYS :: "string list" where
  "FORBIDDEN_LOG_KEYS =
     [''signature'', ''challenge'', ''challenge_base64'', ''challenge_bytes'', ''session_id'',
      ''session'', ''token'', ''admin_token'', ''jwt'', ''apikey'', ''api_key'', ''authorization'',
      ''password'', ''passphrase'', ''pin'', ''ciphertext'', ''plaintext'', ''plain_text'', ''text'',
      ''content'', ''body'', ''message'', ''private_key'', ''privatekey'', ''public_key'', ''secret'',
      ''service_role'', ''service_role_key'', ''supabase_service_role_key'']"

text \<open>\<open>String.prototype.toLowerCase\<close> on Latin-1.\<close>

definition lower_char :: "char \<Rightarrow> char" where
  "lower_char c =
     (let n = (of_char c :: nat) in
      if 65 \<le> n \<and> n \<le> 90 \<or> (192 \<le> n \<and> n \<le> 222 \<and> n \<noteq> 215) then char_of (n + 32) else c)"

definition toLowerCase :: "string \<Rightarrow> string" where
  "toLowerCase s = map lower_char s"

definition isIdentifierKey :: "string \<Rightarrow> bool" where
  "isIdentifierKey key \<longleftrightarrow> ends_with ''_id'' key \<or> key = ''ip''"

definition ELLIPSIS :: string where
  "ELLIPSIS = map char_of [0xE2, 0x80, 0xA6 :: nat]"

definition EM_DASH :: string where
  "EM_DASH = map char_of [0xE2, 0x80, 0x94 :: nat]"

definition shortId :: "string \<Rightarrow> string" where
  "shortId value =
     (if length value = 0 then EM_DASH
      else if length value \<le> 4 then ELLIPSIS
      else take 4 value @ ELLIPSIS)"

record security_log =
  lg_buffer :: "fields list"
  lg_bufferLimit :: nat

definition new_log :: security_log where
  "new_log = \<lparr>lg_buffer = [], lg_bufferLimit = 500\<rparr>"

text \<open>The loop over the fields; \<open>safe\<close> starts as \<open>{ev, t}\<close>.\<close>

fun redact_loop :: "(string \<times> json option) list \<Rightarrow> fields \<Rightarrow> fields" where
  "redact_loop [] safe = safe"
| "redact_loop ((key, value) # rest) safe =
     (let lower = toLowerCase key in
      if lower \<in> set FORBIDDEN_LOG_KEYS then redact_loop rest safe
      else (case value of
              None \<Rightarrow> redact_loop rest safe
            | Some JNull \<Rightarrow> redact_loop rest safe
            | Some (JArr xs) \<Rightarrow> redact_loop rest safe
            | Some (JObj fs) \<Rightarrow> redact_loop rest safe
            | Some (JStr s) \<Rightarrow>
                if isIdentifierKey lower then redact_loop rest (AList.update key (JStr (shortId s)) safe)
                else if length s > 64 then redact_loop rest safe
                else redact_loop rest (AList.update key (JStr s) safe)
            | Some v \<Rightarrow> redact_loop rest (AList.update key v safe)))"

definition log_event :: "security_log \<Rightarrow> int \<Rightarrow> string \<Rightarrow> (string \<times> json option) list \<Rightarrow> security_log" where
  "log_event lg date name fs =
     (let line = redact_loop fs [(''ev'', JStr name), (''t'', jint date)];
          buffer = lg_buffer lg @ [line] in
      lg\<lparr>lg_buffer := (if length buffer > lg_bufferLimit lg then tl buffer else buffer)\<rparr>)"

definition log_lines :: "security_log \<Rightarrow> fields list" where
  "log_lines lg = lg_buffer lg"

definition clear_log :: "security_log \<Rightarrow> security_log" where
  "clear_log lg = lg\<lparr>lg_buffer := []\<rparr>"

section \<open>Redaction\<close>

text \<open>
  What \<^verbatim>\<open>logger.ts\<close> promises at its head, in the specification's own words. The field names
  of private keys, plaintext, ciphertext, signatures, challenge bytes, session ids, tokens and
  passwords, in any case of letters:
\<close>

definition secret_field :: "string \<Rightarrow> bool" where
  "secret_field key \<longleftrightarrow> toLowerCase key \<in>
     {''private_key'', ''privatekey'', ''plaintext'', ''plain_text'', ''text'', ''content'', ''body'', ''message'',
      ''ciphertext'', ''signature'', ''challenge'', ''challenge_base64'', ''challenge_bytes'', ''session_id'', ''session'',
      ''token'', ''admin_token'', ''jwt'', ''apikey'', ''api_key'', ''authorization'', ''password'', ''passphrase'', ''pin'',
      ''secret'', ''service_role'', ''service_role_key'', ''supabase_service_role_key''}"

text \<open>The names of identifiers, whatever comes before \<open>_id\<close>.\<close>

definition identifier_field :: "string \<Rightarrow> bool" where
  "identifier_field key \<longleftrightarrow> (let lower = toLowerCase key in drop (length lower - 3) lower = ''_id'' \<or> lower = ''ip'')"

text \<open>
  What may stand for an identifier \<open>s\<close>: at most four of its first characters, never all of
  them, and an ellipsis; a dash when there is nothing to shorten.
\<close>

definition stands_for :: "string \<Rightarrow> string \<Rightarrow> bool" where
  "stands_for s t \<longleftrightarrow> (if s = [] then t = EM_DASH else \<exists>n. n \<le> 4 \<and> n < length s \<and> t = take n s @ ELLIPSIS)"

definition compound :: "json \<Rightarrow> bool" where
  "compound v = (case v of JNull \<Rightarrow> True | JArr _ \<Rightarrow> True | JObj _ \<Rightarrow> True | _ \<Rightarrow> False)"

text \<open>
  An entry a line may hold, against the fields the caller gave: nothing under the name of a
  secret; under the name of an identifier only what stands for the caller's string; otherwise
  the caller's own primitive, or the name or the time of the event, and no string of more than
  64 characters.
\<close>

definition may_tell :: "(string \<times> json option) list \<Rightarrow> int \<Rightarrow> string \<Rightarrow> string \<Rightarrow> json \<Rightarrow> bool" where
  "may_tell fs date name key v \<longleftrightarrow> \<not> secret_field key \<and>
     (if identifier_field key \<and> (\<exists>t. v = JStr t)
      then \<exists>s t. v = JStr t \<and> (key, Some (JStr s)) \<in> set fs \<and> stands_for s t
      else \<not> compound v \<and> (\<forall>t. v = JStr t \<longrightarrow> length t \<le> 64) \<and>
        ((key, Some v) \<in> set fs \<or> (key, v) = (''ev'', JStr name) \<or> (key, v) = (''t'', jint date)))"

text \<open>The same without the caller: what every line of the buffer keeps.\<close>

definition loggable :: "string \<Rightarrow> json \<Rightarrow> bool" where
  "loggable key v \<longleftrightarrow> \<not> secret_field key \<and> \<not> compound v \<and>
     (\<forall>t. v = JStr t \<longrightarrow> (if identifier_field key then \<exists>s. stands_for s t else length t \<le> 64))"

definition redacted :: "fields \<Rightarrow> bool" where
  "redacted line \<longleftrightarrow> (\<forall>(k, v) \<in> set line. loggable k v)"

definition log_ok :: "security_log \<Rightarrow> bool" where
  "log_ok lg \<longleftrightarrow> (\<forall>line \<in> set (lg_buffer lg). redacted line) \<and> length (lg_buffer lg) \<le> lg_bufferLimit lg"

lemma secret_forbidden: "secret_field key \<Longrightarrow> toLowerCase key \<in> set FORBIDDEN_LOG_KEYS"
  by (auto simp: secret_field_def FORBIDDEN_LOG_KEYS_def)

lemma ends_with_drop: "ends_with p s \<longleftrightarrow> drop (length s - length p) s = p"
  by (simp add: ends_with_def starts_with_def take_rev rev_swap)

lemma identifier_key: "isIdentifierKey (toLowerCase key) \<longleftrightarrow> identifier_field key"
  by (simp add: identifier_field_def isIdentifierKey_def ends_with_drop Let_def numeral_3_eq_3)

lemma shortId_stands_for: "stands_for s (shortId s)"
  by (auto simp: stands_for_def shortId_def intro: exI [of _ 0] exI [of _ 4])

lemma loggable_of_may_tell: "may_tell fs date name key v \<Longrightarrow> loggable key v"
  by (auto simp: may_tell_def loggable_def compound_def split: if_splits json.splits)

lemma update_entry: "(k, v) \<in> set (AList.update key x safe) \<Longrightarrow> (k, v) = (key, x) \<or> (k, v) \<in> set safe"
  by (induction safe) (auto split: if_splits)

text \<open>One field of the caller leaves no entry or one that may be told.\<close>

lemma redact_step:
  obtains "redact_loop ((key, given) # rest) safe = redact_loop rest safe"
  | x where "redact_loop ((key, given) # rest) safe = redact_loop rest (AList.update key x safe)"
      and "\<And>fs. (key, given) \<in> set fs \<Longrightarrow> may_tell fs date name key x"
proof (cases "toLowerCase key \<in> set FORBIDDEN_LOG_KEYS")
  case True
  then show thesis using that(1) by (simp add: Let_def)
next
  case False
  then have plain: "\<not> secret_field key" using secret_forbidden by blast
  show thesis
  proof (cases given)
    case None
    then show thesis using that(1) by (simp add: Let_def)
  next
    case (Some w)
    show thesis
    proof (cases w)
      case (JStr s)
      consider "identifier_field key"
        | "\<not> identifier_field key" "length s > 64"
        | "\<not> identifier_field key" "length s \<le> 64" by linarith
      then show thesis
        by cases (use that(1) that(2) [of "JStr (shortId s)"] that(2) [of w] Some JStr False plain
            shortId_stands_for [of s] in \<open>auto simp: Let_def may_tell_def compound_def identifier_key\<close>)
    qed (use that(1) that(2) [of w] Some False plain in \<open>auto simp: Let_def may_tell_def compound_def\<close>)
  qed
qed

lemma redact_loop_tells:
  assumes "(k, v) \<in> set (redact_loop fs safe)" and "set fs \<subseteq> set all"
    and "\<And>k v. (k, v) \<in> set safe \<Longrightarrow> may_tell all date name k v"
  shows "may_tell all date name k v"
  using assms
proof (induction fs arbitrary: safe)
  case Nil
  then show ?case by simp
next
  case (Cons f rest)
  obtain key x where f: "f = (key, x)" by (cases f)
  show ?case
  proof (rule redact_step [where key = key and given = x and rest = rest and safe = safe and date = date and name = name])
    assume "redact_loop ((key, x) # rest) safe = redact_loop rest safe"
    then show ?thesis using Cons f by simp
  next
    fix y
    assume eq: "redact_loop ((key, x) # rest) safe = redact_loop rest (AList.update key y safe)"
      and may: "\<And>fs. (key, x) \<in> set fs \<Longrightarrow> may_tell fs date name key y"
    have "may_tell all date name k' v'" if "(k', v') \<in> set (AList.update key y safe)" for k' v'
      using update_entry [OF that] may [of all] Cons.prems(2,3) f by auto
    then show ?thesis using Cons.IH [of "AList.update key y safe"] Cons.prems(1,2) f eq by simp
  qed
qed

lemma log_line_tells:
  assumes "length name \<le> 64" and "(k, v) \<in> set (redact_loop fs [(''ev'', JStr name), (''t'', jint date)])"
  shows "may_tell fs date name k v"
  using assms(2) order.refl
proof (rule redact_loop_tells)
  fix k v
  assume "(k, v) \<in> set [(''ev'', JStr name), (''t'', jint date)]"
  then show "may_tell fs date name k v"
    using assms(1)
    by (auto simp: may_tell_def compound_def secret_field_def identifier_field_def toLowerCase_def lower_char_def)
qed

lemma log_ok_new [inv_intros]: "log_ok new_log"
  by (simp add: log_ok_def new_log_def)

lemma log_ok_event [inv_intros]:
  assumes "log_ok lg" and "length name \<le> 64"
  shows "log_ok (log_event lg date name fs)"
proof -
  have "redacted (redact_loop fs [(''ev'', JStr name), (''t'', jint date)])"
    using log_line_tells [OF assms(2)] loggable_of_may_tell by (fastforce simp: redacted_def)
  then show ?thesis
    using assms(1) by (cases "lg_buffer lg") (auto simp: log_ok_def log_event_def Let_def)
qed

lemma log_ok_clear [inv_intros]: "log_ok (clear_log lg)"
  by (simp add: log_ok_def clear_log_def)

text \<open>The last line stays in the buffer whatever its limit, unless the limit is zero.\<close>

lemma log_event_last:
  "0 < lg_bufferLimit lg \<Longrightarrow>
   last (log_lines (log_event lg date name fs)) = redact_loop fs [(''ev'', JStr name), (''t'', jint date)]"
  by (cases "lg_buffer lg") (auto simp: log_event_def log_lines_def Let_def)

section \<open>Properties\<close>

text \<open>
  C40: No line leaks. Whatever fields a caller hands to the log, every entry of the line emitted
  is innocent: its key is not the name of a secret; under the name of an identifier there is
  only a proper prefix of at most four characters of the caller's string, then an ellipsis (or
  a dash for the empty string); any other entry is a primitive of the caller, unchanged and at
  most 64 characters long, or the name or the time of the event.
\<close>

theorem logged_line_redacted:
  assumes "length name \<le> 64" and "0 < lg_bufferLimit lg"
    and "(key, v) \<in> set (last (log_lines (log_event lg date name fs)))"
  shows "may_tell fs date name key v"
  using assms by (simp add: log_event_last log_line_tells)

lemma logged_line_redacted_witness:
  "may_tell [(''Session_Id'', Some (JStr ''topsecret'')), (''device_id'', Some (JStr ''dev-1''))] 7 ''auth.failure''
     ''device_id'' (JStr (''dev-'' @ ELLIPSIS))"
  by (rule logged_line_redacted [of _ new_log])
    (simp_all add: new_log_def log_event_last toLowerCase_def lower_char_def FORBIDDEN_LOG_KEYS_def
      isIdentifierKey_def ends_with_def starts_with_def shortId_def)

fun log_run :: "security_log \<Rightarrow> (int \<times> string \<times> (string \<times> json option) list) list \<Rightarrow> security_log" where
  "log_run lg [] = lg"
| "log_run lg ((date, name, fs) # es) = log_run (log_event lg date name fs) es"

lemma log_run_limit [simp]: "lg_bufferLimit (log_run lg es) = lg_bufferLimit lg"
  by (induction lg es rule: log_run.induct) (simp_all add: log_event_def Let_def)

definition line_of :: "int \<times> string \<times> (string \<times> json option) list \<Rightarrow> fields" where
  "line_of ev = (case ev of (date, name, fs) \<Rightarrow> redact_loop fs [(''ev'', JStr name), (''t'', jint date)])"

definition keep_last :: "nat \<Rightarrow> 'a list \<Rightarrow> 'a list" where
  "keep_last n xs = drop (length xs - n) xs"

lemma keep_last_rev: "keep_last n xs = rev (take n (rev xs))"
  by (simp add: keep_last_def rev_take)

lemma keep_last_append: "keep_last n (keep_last n xs @ ys) = keep_last n (xs @ ys)"
  by (simp add: keep_last_rev min_def)

lemma keep_last_step:
  assumes "length xs \<le> n"
  shows "(if length (xs @ [x]) > n then tl (xs @ [x]) else xs @ [x]) = keep_last n (xs @ [x])"
proof (cases "length xs = n")
  case True
  then show ?thesis by (cases xs) (simp_all add: keep_last_def)
next
  case False
  with assms show ?thesis by (simp add: keep_last_def)
qed

lemma log_event_buffer:
  assumes "length (lg_buffer lg) \<le> lg_bufferLimit lg"
  shows "lg_buffer (log_event lg date name fs) =
    keep_last (lg_bufferLimit lg) (lg_buffer lg @ [line_of (date, name, fs)])"
  unfolding keep_last_step [OF assms, symmetric] by (simp add: log_event_def line_of_def Let_def)

text \<open>
  The ring buffer is bounded and drops from the old end: after any run of events it holds
  the last \<open>bufferLimit\<close> lines.
\<close>

theorem log_buffer_is_suffix:
  assumes "length (lg_buffer lg) \<le> lg_bufferLimit lg"
  shows "log_lines (log_run lg es) = keep_last (lg_bufferLimit lg) (lg_buffer lg @ map line_of es)"
  using assms
proof (induction lg es rule: log_run.induct)
  case (1 lg)
  then show ?case by (simp add: log_lines_def keep_last_def)
next
  case (2 lg date name fs es)
  let ?lg = "log_event lg date name fs"
  have buf: "lg_buffer ?lg = keep_last (lg_bufferLimit lg) (lg_buffer lg @ [line_of (date, name, fs)])"
    using 2(2) by (rule log_event_buffer)
  moreover have "lg_bufferLimit ?lg = lg_bufferLimit lg" by (simp add: log_event_def Let_def)
  ultimately have "log_lines (log_run ?lg es) = keep_last (lg_bufferLimit lg) (lg_buffer ?lg @ map line_of es)"
    using 2(1) by (simp add: keep_last_def)
  then show ?case by (simp add: buf keep_last_append)
qed

lemma log_buffer_is_suffix_witness:
  "log_lines (log_run \<lparr>lg_buffer = [], lg_bufferLimit = 1\<rparr> [(1, ''a'', []), (2, ''b'', [])]) =
   [[(''ev'', JStr ''b''), (''t'', jint 2)]]"
  by (subst log_buffer_is_suffix) (simp_all add: line_of_def keep_last_def)

end
