(* ===== verification/Server_State.thy ===== *)
theory Server_State
  imports Config Challenge_Store Message_Dedup Auth_Failure_Tracker Handshake_Engine
    Authorization_Policy Realtime_Store Security_Log
begin

text \<open>
  The state of \<open>RealtimeServer\<close> (\<^verbatim>\<open>server/src/realtime_server.ts\<close>), its
  outputs, and the guards every handler opens with.

  The state holds the stores the constructor creates (memory backends), the per-socket data
  and the rooms each socket has been joined to. What a handler does to the outside is a list
  of \<open>effect\<close>s in program order: the calls it makes on Socket.IO. A handler runs as one
  step: the awaits inside it complete before the next event is handled, and all its readings
  of the clock give \<open>en_now\<close>. Random values are drawn from the \<open>env\<close> of the step.
\<close>

section \<open>State and effects\<close>

text \<open>
  One step's inputs from outside: \<open>this.clock()\<close>, \<open>Date.now()\<close> as the log reads it,
  and the random identifiers and bytes it would draw.
\<close>

record env =
  en_now :: int
  en_date :: int
  en_sessionId :: string
  en_challengeId :: string
  en_challengeBase64 :: string

text \<open>
  \<open>SocketData\<close>, with \<open>socket.rooms\<close>. \<open>data.session\<close> keeps the record
  \<open>create\<close> returned; later renewals replace the registry's copy only.
\<close>

record socket_data =
  sd_session :: "session option"
  sd_authAttempts :: int
  sd_limiters :: domain_limiters
  sd_ip :: string
  sd_rooms :: "string list"

text \<open>
  \<open>Emit\<close> is \<open>socket.emit\<close>, \<open>Broadcast\<close> is \<open>io.to(room).except(id).emit\<close>,
  \<open>Disconnect\<close> and \<open>DisconnectRoom\<close> are the delayed closes, and
  \<open>RejectedPromise\<close> is an exception leaving an async handler nobody awaits.
\<close>

datatype effect =
    Emit string socket_event fields
  | Broadcast string "string option" socket_event fields
  | Join string string
  | Disconnect string
  | DisconnectRoom string
  | RejectedPromise

text \<open>
  The limiters of \<open>socketLimiters\<close> are those of the socket data, so only its keys are
  kept. \<open>sv_sockets\<close> is \<open>io.of('/').sockets\<close> with the data of each socket.
\<close>

record server =
  sv_config :: realtime_config
  sv_directory :: memory_directory
  sv_store :: memory_store
  sv_devices :: device_registry
  sv_challenges :: challenge_store
  sv_sessions :: session_registry
  sv_dedup :: message_dedup
  sv_authFailures :: failure_tracker
  sv_log :: security_log
  sv_socketLimiters :: "string list"
  sv_ipConnections :: "(string \<times> bucket) list"
  sv_sockets :: "(string \<times> socket_data) list"

definition new_server :: "realtime_config \<Rightarrow> server" where
  "new_server config =
     \<lparr>sv_config = config,
      sv_directory = new_directory,
      sv_store = new_store,
      sv_devices = [],
      sv_challenges = new_challenge_store (cf_challengeTtlMs config),
      sv_sessions = new_session_registry (cf_sessionTtlMs config),
      sv_dedup = new_dedup 4096,
      sv_authFailures = new_tracker (cf_authFailuresLockout config) (cf_authLockoutMs config) None,
      sv_log = new_log,
      sv_socketLimiters = [],
      sv_ipConnections = [],
      sv_sockets = []\<rparr>"

definition put_data :: "string \<Rightarrow> socket_data \<Rightarrow> server \<Rightarrow> server" where
  "put_data k data sv = sv\<lparr>sv_sockets := map_set k data (sv_sockets sv)\<rparr>"

definition join_room :: "string \<Rightarrow> string \<Rightarrow> server \<Rightarrow> server" where
  "join_room k room sv =
     (case map_get (sv_sockets sv) k of
        None \<Rightarrow> sv
      | Some data \<Rightarrow> put_data k (data\<lparr>sd_rooms := set_add room (sd_rooms data)\<rparr>) sv)"

definition log_to :: "server \<Rightarrow> env \<Rightarrow> string \<Rightarrow> (string \<times> json option) list \<Rightarrow> server" where
  "log_to sv e name fs = sv\<lparr>sv_log := log_event (sv_log sv) (en_date e) name fs\<rparr>"

text \<open>Room names: \<open>`account:${id}`\<close> and so on.\<close>

definition account_room :: "string \<Rightarrow> string" where "account_room a = ''account:'' @ a"
definition device_room :: "string \<Rightarrow> string" where "device_room d = ''device:'' @ d"
definition conv_room :: "string \<Rightarrow> string" where "conv_room c = ''conv:'' @ c"

lemma room_inject [simp]:
  "account_room a = account_room b \<longleftrightarrow> a = b" "device_room a = device_room b \<longleftrightarrow> a = b"
  "conv_room a = conv_room b \<longleftrightarrow> a = b"
  "account_room a \<noteq> device_room b" "device_room b \<noteq> account_room a"
  "account_room a \<noteq> conv_room b" "conv_room b \<noteq> account_room a"
  "device_room a \<noteq> conv_room b" "conv_room b \<noteq> device_room a"
  by (simp_all add: account_room_def device_room_def conv_room_def)

text \<open>The object of a \<open>system.error\<close>: code, event and further fields.\<close>

definition system_error :: "string \<Rightarrow> socket_error_code \<Rightarrow> socket_event \<Rightarrow> (string \<times> json option) list \<Rightarrow> effect" where
  "system_error k code event extra =
     Emit k SystemError (object ([(''code'', Some (JStr (error_code code))),
       (''event'', Some (JStr (event_name event)))] @ extra))"

section \<open>Connections\<close>

record handshake_info =
  hk_forwardedFor :: "string option"
  hk_address :: "string option"

definition clientIp :: "handshake_info \<Rightarrow> string" where
  "clientIp h =
     (case hk_forwardedFor h of
        Some header \<Rightarrow> trim (hd (split_on (CHR '','') header))
      | None \<Rightarrow> (case hk_address h of Some a \<Rightarrow> a | None \<Rightarrow> ''unknown''))"

text \<open>\<open>None\<close> is \<open>next()\<close>; \<open>Some code\<close> is \<open>next(new Error(code))\<close>.\<close>

definition connectionMiddleware :: "server \<Rightarrow> env \<Rightarrow> handshake_info \<Rightarrow> string option \<times> server" where
  "connectionMiddleware sv e h =
     (let ip = clientIp h;
          perMinute = cf_newConnectionsPerIpPerMinute (sv_config sv);
          bucket = (case map_get (sv_ipConnections sv) ip of
                      Some b \<Rightarrow> b
                    | None \<Rightarrow> new_bucket (of_int perMinute) (of_int perMinute));
          (ok, bucket') = allow bucket (en_now e);
          sv' = sv\<lparr>sv_ipConnections := map_set ip bucket' (sv_ipConnections sv)\<rparr> in
      if \<not> ok then (Some ''RATE_LIMITED'', sv') else (None, sv'))"

definition disconnectSocketKey :: "server \<Rightarrow> string \<Rightarrow> socket_error_code \<Rightarrow> effect list" where
  "disconnectSocketKey sv k code =
     (case map_get (sv_sockets sv) k of
        None \<Rightarrow> []
      | Some _ \<Rightarrow> [Emit k SystemError (object [(''code'', Some (JStr (error_code code)))]), Disconnect k])"

definition accountHasLiveSocket :: "server \<Rightarrow> string \<Rightarrow> bool" where
  "accountHasLiveSocket sv accountId \<longleftrightarrow>
     list_ex (\<lambda>data. case sd_session data of None \<Rightarrow> False | Some s \<Rightarrow> ses_accountId s = accountId)
       (map_values (sv_sockets sv))"

definition lockoutScopeKeys :: "realtime_config \<Rightarrow> socket_data \<Rightarrow> fields \<Rightarrow> string list" where
  "lockoutScopeKeys config data payload =
     concat (map (\<lambda>scope. case scope of
         ScopeDevice \<Rightarrow> (case as_string (map_get payload ''device_id'') of
                           Some d \<Rightarrow> [''device:'' @ d] | None \<Rightarrow> [])
       | ScopeIp \<Rightarrow> [''ip:'' @ sd_ip data]) (cf_authLockoutScopes config))"

section \<open>The session guard\<close>

definition requireSession ::
  "server \<Rightarrow> env \<Rightarrow> string \<Rightarrow> socket_data \<Rightarrow> socket_event \<Rightarrow> session option \<times> effect list \<times> server" where
  "requireSession sv e k data event =
     (case sd_session data of
        None \<Rightarrow>
          (None, [system_error k Forbidden event [], Disconnect k],
           put_data k (data\<lparr>sd_limiters := drainAggregate (sd_limiters data)\<rparr>) sv)
      | Some ses \<Rightarrow>
          (let (validation, sessions') = validate (sv_sessions sv) (en_now e) (ses_sessionId ses) k;
               sv' = sv\<lparr>sv_sessions := sessions'\<rparr> in
           if validation \<noteq> SessionOk
           then (None, [system_error k SessionExpired event [], Disconnect k], sv')
           else (Some ses, [], sv')))"

text \<open>
  How every post-auth handler starts: \<open>requireSession\<close>, then \<open>consumeRate\<close> in its
  domain. \<open>Inl\<close> is the early return with its effects, \<open>Inr\<close> continues.
\<close>

definition admit ::
  "server \<Rightarrow> env \<Rightarrow> string \<Rightarrow> socket_data \<Rightarrow> socket_event \<Rightarrow> rate_domain \<Rightarrow> (string \<times> json option) list
   \<Rightarrow> (effect list \<times> server) + (session \<times> server)" where
  "admit sv e k data event domain extra =
     (case requireSession sv e k data event of
        (None, effects, sv1) \<Rightarrow> Inl (effects, sv1)
      | (Some ses, _, sv1) \<Rightarrow>
          (let (ok, limiters) = consumeRate (sd_limiters data) domain (en_now e);
               sv2 = put_data k (data\<lparr>sd_limiters := limiters\<rparr>) sv1 in
           if \<not> ok then Inl ([system_error k RateLimited event extra], sv2)
           else Inr (ses, sv2)))"

section \<open>Lemmas\<close>

lemma put_data_simps [simp]:
  "sv_config (put_data k d sv) = sv_config sv" "sv_directory (put_data k d sv) = sv_directory sv"
  "sv_store (put_data k d sv) = sv_store sv" "sv_devices (put_data k d sv) = sv_devices sv"
  "sv_challenges (put_data k d sv) = sv_challenges sv" "sv_sessions (put_data k d sv) = sv_sessions sv"
  "sv_dedup (put_data k d sv) = sv_dedup sv" "sv_authFailures (put_data k d sv) = sv_authFailures sv"
  "sv_log (put_data k d sv) = sv_log sv" "sv_socketLimiters (put_data k d sv) = sv_socketLimiters sv"
  "sv_ipConnections (put_data k d sv) = sv_ipConnections sv"
  "sv_sockets (put_data k d sv) = map_set k d (sv_sockets sv)"
  by (simp_all add: put_data_def)

lemma join_room_simps [simp]:
  "sv_config (join_room k r sv) = sv_config sv" "sv_directory (join_room k r sv) = sv_directory sv"
  "sv_store (join_room k r sv) = sv_store sv" "sv_devices (join_room k r sv) = sv_devices sv"
  "sv_challenges (join_room k r sv) = sv_challenges sv" "sv_sessions (join_room k r sv) = sv_sessions sv"
  "sv_dedup (join_room k r sv) = sv_dedup sv" "sv_authFailures (join_room k r sv) = sv_authFailures sv"
  "sv_log (join_room k r sv) = sv_log sv" "sv_socketLimiters (join_room k r sv) = sv_socketLimiters sv"
  "sv_ipConnections (join_room k r sv) = sv_ipConnections sv"
  by (simp_all add: join_room_def split: option.splits)

lemma join_room_get:
  "map_get (sv_sockets (join_room k r sv)) k' =
    (case map_get (sv_sockets sv) k' of None \<Rightarrow> None
     | Some d \<Rightarrow> Some (if k' = k then d\<lparr>sd_rooms := set_add r (sd_rooms d)\<rparr> else d))"
  by (auto simp: join_room_def split: option.splits)

lemma log_to_simps [simp]:
  "sv_config (log_to sv e n fs) = sv_config sv" "sv_directory (log_to sv e n fs) = sv_directory sv"
  "sv_store (log_to sv e n fs) = sv_store sv" "sv_devices (log_to sv e n fs) = sv_devices sv"
  "sv_challenges (log_to sv e n fs) = sv_challenges sv" "sv_sessions (log_to sv e n fs) = sv_sessions sv"
  "sv_dedup (log_to sv e n fs) = sv_dedup sv" "sv_authFailures (log_to sv e n fs) = sv_authFailures sv"
  "sv_socketLimiters (log_to sv e n fs) = sv_socketLimiters sv"
  "sv_ipConnections (log_to sv e n fs) = sv_ipConnections sv" "sv_sockets (log_to sv e n fs) = sv_sockets sv"
  "sv_log (log_to sv e n fs) = log_event (sv_log sv) (en_date e) n fs"
  by (simp_all add: log_to_def)

text \<open>Who is admitted: a session of this socket that validates, within its rate.\<close>

lemma requireSession_None:
  "sd_session data = None \<Longrightarrow> requireSession sv e k data event =
    (None, [system_error k Forbidden event [], Disconnect k],
     put_data k (data\<lparr>sd_limiters := drainAggregate (sd_limiters data)\<rparr>) sv)"
  by (simp add: requireSession_def)

lemma admit_cases:
  assumes "admit sv e k data event rd extra = r"
  obtains
    (anonymous) "sd_session data = None"
      "r = Inl ([system_error k Forbidden event [], Disconnect k],
        put_data k (data\<lparr>sd_limiters := drainAggregate (sd_limiters data)\<rparr>) sv)"
  | (expired) ses where "sd_session data = Some ses"
      "fst (validate (sv_sessions sv) (en_now e) (ses_sessionId ses) k) \<noteq> SessionOk"
      "r = Inl ([system_error k SessionExpired event [], Disconnect k],
        sv\<lparr>sv_sessions := snd (validate (sv_sessions sv) (en_now e) (ses_sessionId ses) k)\<rparr>)"
  | (limited) ses where "sd_session data = Some ses"
      "fst (validate (sv_sessions sv) (en_now e) (ses_sessionId ses) k) = SessionOk"
      "\<not> fst (consumeRate (sd_limiters data) rd (en_now e))"
      "r = Inl ([system_error k RateLimited event extra],
        put_data k (data\<lparr>sd_limiters := snd (consumeRate (sd_limiters data) rd (en_now e))\<rparr>)
          (sv\<lparr>sv_sessions := snd (validate (sv_sessions sv) (en_now e) (ses_sessionId ses) k)\<rparr>))"
  | (admitted) ses where "sd_session data = Some ses"
      "fst (validate (sv_sessions sv) (en_now e) (ses_sessionId ses) k) = SessionOk"
      "fst (consumeRate (sd_limiters data) rd (en_now e))"
      "r = Inr (ses,
        put_data k (data\<lparr>sd_limiters := snd (consumeRate (sd_limiters data) rd (en_now e))\<rparr>)
          (sv\<lparr>sv_sessions := snd (validate (sv_sessions sv) (en_now e) (ses_sessionId ses) k)\<rparr>))"
proof (cases "sd_session data")
  case None
  with assms show thesis
    by (intro anonymous) (simp_all add: admit_def requireSession_def)
next
  case (Some ses)
  obtain v sess where v: "validate (sv_sessions sv) (en_now e) (ses_sessionId ses) k = (v, sess)"
    by fastforce
  obtain g l where g: "consumeRate (sd_limiters data) rd (en_now e) = (g, l)" by fastforce
  show thesis
  proof (cases "v = SessionOk")
    case False
    with assms Some v show thesis
      by (intro expired [OF Some]) (simp_all add: admit_def requireSession_def)
  next
    case ok: True
    show thesis
    proof (cases g)
      case True
      with assms Some v g ok show thesis
        by (intro admitted [OF Some]) (simp_all add: admit_def requireSession_def Let_def)
    next
      case False
      with assms Some v g ok show thesis
        by (intro limited [OF Some]) (simp_all add: admit_def requireSession_def Let_def)
    qed
  qed
qed

end
