(* ===== verification/Server_Invariant.thy ===== *)
theory Server_Invariant
  imports Server_State
begin

text \<open>
  The invariant of the running server, \<open>server_ok\<close>: every component keeps its own
  invariant, and the components agree with each other. The lemmas say which updates keep
  it; the handlers' theories compose them.
\<close>

section \<open>The invariant\<close>

text \<open>A room a socket with this session may be in.\<close>

definition room_granted :: "memory_directory \<Rightarrow> session option \<Rightarrow> string \<Rightarrow> bool" where
  "room_granted dir ses r \<longleftrightarrow>
     (case ses of
        None \<Rightarrow> False
      | Some s \<Rightarrow> r = account_room (ses_accountId s) \<or> r = device_room (ses_deviceId s) \<or>
          (\<exists>c. r = conv_room c \<and> isConversationMember dir c (ses_accountId s)))"

definition socket_ok :: "memory_directory \<Rightarrow> string \<Rightarrow> socket_data \<Rightarrow> bool" where
  "socket_ok dir k d \<longleftrightarrow> limiters_ok (sd_limiters d) \<and>
     (\<forall>r \<in> set (sd_rooms d). room_granted dir (sd_session d) r) \<and>
     (\<forall>s. sd_session d = Some s \<longrightarrow> ses_socketKey s = k)"

text \<open>
  The author an event's payload names, and what holds of a conversation's history: authors
  are members, the messages in the log carry the sequence numbers 1, 2, \<dots> in order, and a
  receipt or read mark never points past them.
\<close>

primrec author_field :: "event_type \<Rightarrow> string" where
  "author_field EvMessageNew = ''sender_account_id''"
| "author_field EvMessageDelivered = ''by_account_id''"
| "author_field EvMessageRead = ''by_account_id''"

definition event_ok :: "memory_directory \<Rightarrow> string \<Rightarrow> int \<Rightarrow> stored_event \<Rightarrow> bool" where
  "event_ok dir c latest ev \<longleftrightarrow>
     (\<exists>a. map_of (ev_payload ev) (author_field (ev_type ev)) = Some (JStr a) \<and> isConversationMember dir c a) \<and>
     0 \<le> ev_serverSeq ev \<and> ev_serverSeq ev \<le> latest"

definition message_ok :: "memory_directory \<Rightarrow> memory_store \<Rightarrow> stored_message \<Rightarrow> bool" where
  "message_ok dir st m \<longleftrightarrow> isConversationMember dir (sm_conversationId m) (sm_senderAccountId m) \<and>
     1 \<le> sm_serverSeq m \<and> sm_serverSeq m \<le> latestSeq st (sm_conversationId m)"

definition message_numbers :: "memory_store \<Rightarrow> string \<Rightarrow> int list" where
  "message_numbers st c = map ev_serverSeq (filter (\<lambda>ev. ev_type ev = EvMessageNew) (log_of st c))"

definition history_ok :: "memory_directory \<Rightarrow> memory_store \<Rightarrow> bool" where
  "history_ok dir st \<longleftrightarrow>
     (\<forall>c. \<forall>ev \<in> set (log_of st c). event_ok dir c (latestSeq st c) ev) \<and>
     (\<forall>i m. findMessage st i = Some m \<longrightarrow> message_ok dir st m) \<and>
     (\<forall>c. message_numbers st c = [1 .. latestSeq st c])"

text \<open>
  A live session belongs to an active device. A challenge is for one socket, and for one
  that has not authenticated yet.
\<close>

definition sessions_live :: "device_registry \<Rightarrow> session_registry \<Rightarrow> bool" where
  "sessions_live devs reg \<longleftrightarrow> (\<forall>i s. map_get (sr_sessions reg) i = Some s \<longrightarrow> isActive devs (ses_deviceId s))"

definition challenges_fresh :: "challenge_store \<Rightarrow> (string \<times> socket_data) list \<Rightarrow> bool" where
  "challenges_fresh chs socks \<longleftrightarrow>
     (\<forall>i ch d. map_get (cs_challenges chs) i = Some ch \<longrightarrow> map_get socks (ch_socketKey ch) = Some d \<longrightarrow>
        sd_session d = None) \<and>
     (\<forall>i j ch ch'. map_get (cs_challenges chs) i = Some ch \<longrightarrow> map_get (cs_challenges chs) j = Some ch' \<longrightarrow>
        ch_socketKey ch = ch_socketKey ch' \<longrightarrow> i = j)"

text \<open>
  The session a socket holds and the registry's entry of that id are of one identity, and the
  entry is bound to that socket.
\<close>

definition same_holder :: "string \<Rightarrow> session \<Rightarrow> session \<Rightarrow> bool" where
  "same_holder k ses s \<longleftrightarrow> ses_socketKey s = k \<and> ses_accountId s = ses_accountId ses \<and>
     ses_deviceId s = ses_deviceId ses \<and> ses_novaId s = ses_novaId ses"

definition sessions_bound :: "(string \<times> socket_data) list \<Rightarrow> session_registry \<Rightarrow> bool" where
  "sessions_bound socks reg \<longleftrightarrow>
     (\<forall>k d ses s. map_get socks k = Some d \<longrightarrow> sd_session d = Some ses \<longrightarrow>
        map_get (sr_sessions reg) (ses_sessionId ses) = Some s \<longrightarrow> same_holder k ses s)"

lemma sessions_boundI:
  "(\<And>k d ses s. map_get socks k = Some d \<Longrightarrow> sd_session d = Some ses \<Longrightarrow>
      map_get (sr_sessions reg) (ses_sessionId ses) = Some s \<Longrightarrow> same_holder k ses s) \<Longrightarrow> sessions_bound socks reg"
  by (simp add: sessions_bound_def)

lemma sessions_boundD:
  "sessions_bound socks reg \<Longrightarrow> map_get socks k = Some d \<Longrightarrow> sd_session d = Some ses \<Longrightarrow>
   map_get (sr_sessions reg) (ses_sessionId ses) = Some s \<Longrightarrow> same_holder k ses s"
  by (simp add: sessions_bound_def)

lemma same_holder_expires [simp]: "same_holder k ses (s\<lparr>ses_expiresAtMs := t\<rparr>) = same_holder k ses s"
  by (simp add: same_holder_def)

definition stores_ok :: "server \<Rightarrow> bool" where
  "stores_ok sv \<longleftrightarrow> limits_ok (sv_config sv) \<and> 0 \<le> cf_newConnectionsPerIpPerMinute (sv_config sv) \<and>
     sessions_ok (sv_sessions sv) \<and> challenges_ok (sv_challenges sv) \<and> devices_ok (sv_devices sv) \<and>
     directory_ok (sv_directory sv) \<and> store_ok (sv_store sv) \<and> log_ok (sv_log sv) \<and>
     (dd_clockTick (sv_dedup sv) \<le> MAX_SAFE_INTEGER \<longrightarrow> dedup_ok (sv_dedup sv)) \<and>
     0 < dd_windowSize (sv_dedup sv) \<and>
     (\<forall>ip b. map_get (sv_ipConnections sv) ip = Some b \<longrightarrow> bucket_ok b)"

definition server_ok :: "server \<Rightarrow> bool" where
  "server_ok sv \<longleftrightarrow> stores_ok sv \<and>
     (\<forall>k d. map_get (sv_sockets sv) k = Some d \<longrightarrow> socket_ok (sv_directory sv) k d) \<and>
     set (sv_socketLimiters sv) = dom (map_get (sv_sockets sv)) \<and>
     sessions_live (sv_devices sv) (sv_sessions sv) \<and>
     sessions_bound (sv_sockets sv) (sv_sessions sv) \<and>
     challenges_fresh (sv_challenges sv) (sv_sockets sv) \<and>
     history_ok (sv_directory sv) (sv_store sv)"

lemma server_okD:
  assumes "server_ok sv"
  shows "stores_ok sv" "sessions_live (sv_devices sv) (sv_sessions sv)"
    "challenges_fresh (sv_challenges sv) (sv_sockets sv)" "history_ok (sv_directory sv) (sv_store sv)"
    "map_get (sv_sockets sv) k = Some d \<Longrightarrow> socket_ok (sv_directory sv) k d"
    "set (sv_socketLimiters sv) = dom (map_get (sv_sockets sv))"
    "sessions_bound (sv_sockets sv) (sv_sessions sv)"
  using assms by (simp_all add: server_ok_def)

section \<open>Updates that keep it\<close>

text \<open>Socket data: the session and the rooms stay.\<close>

lemma challenges_fresh_put:
  assumes "challenges_fresh chs socks" and "map_get socks k = Some d" and "sd_session d' = sd_session d"
  shows "challenges_fresh chs (map_set k d' socks)"
  using assms unfolding challenges_fresh_def by (auto split: if_splits)

lemma sessions_bound_put:
  assumes "sessions_bound socks reg" and "map_get socks k = Some d" and "sd_session d' = sd_session d"
  shows "sessions_bound (map_set k d' socks) reg"
proof (rule sessions_boundI)
  fix k' x ses s
  assume "map_get (map_set k d' socks) k' = Some x" "sd_session x = Some ses"
    "map_get (sr_sessions reg) (ses_sessionId ses) = Some s"
  moreover from this have "\<exists>y. map_get socks k' = Some y \<and> sd_session y = Some ses"
    using assms(2,3) by (cases "k' = k") simp_all
  ultimately show "same_holder k' ses s"
    using sessions_boundD [OF assms(1)] by blast
qed

lemma server_ok_put:
  assumes "server_ok sv" and "map_get (sv_sockets sv) k = Some d"
    and "sd_session d' = sd_session d" and "sd_rooms d' = sd_rooms d" and "limiters_ok (sd_limiters d')"
  shows "server_ok (put_data k d' sv)"
proof -
  have "socket_ok (sv_directory sv) k d" using assms(1,2) by (rule server_okD)
  then have "socket_ok (sv_directory sv) k d'" using assms by (simp add: socket_ok_def)
  then show ?thesis
    using assms challenges_fresh_put [of "sv_challenges sv" "sv_sockets sv" k d d']
      sessions_bound_put [of "sv_sockets sv" "sv_sessions sv" k d d']
    unfolding server_ok_def stores_ok_def by (auto split: if_splits)
qed

lemma server_ok_join:
  assumes ok: "server_ok sv" and "map_get (sv_sockets sv) k = Some d"
    and "room_granted (sv_directory sv) (sd_session d) r"
  shows "server_ok (join_room k r sv)"
proof -
  let ?d = "d\<lparr>sd_rooms := set_add r (sd_rooms d)\<rparr>"
  have sd: "socket_ok (sv_directory sv) k d" using assms(1,2) by (rule server_okD)
  have j: "join_room k r sv = put_data k ?d sv" using assms(2) by (simp add: join_room_def)
  have "socket_ok (sv_directory sv) k ?d" using sd assms(3) by (simp add: socket_ok_def)
  then show ?thesis
    using assms challenges_fresh_put [of "sv_challenges sv" "sv_sockets sv" k d ?d]
      sessions_bound_put [of "sv_sockets sv" "sv_sessions sv" k d ?d]
    unfolding j server_ok_def stores_ok_def by (auto split: if_splits)
qed

lemma server_ok_log: "server_ok sv \<Longrightarrow> length name \<le> 64 \<Longrightarrow> server_ok (log_to sv e name fs)"
  unfolding server_ok_def stores_ok_def by (auto intro: log_ok_event)

lemma server_ok_failures: "server_ok sv \<Longrightarrow> server_ok (sv\<lparr>sv_authFailures := t\<rparr>)"
  unfolding server_ok_def stores_ok_def by simp

lemma server_ok_sessions:
  assumes "server_ok sv" and "sessions_ok reg" and "sessions_live (sv_devices sv) reg"
    and "sessions_bound (sv_sockets sv) reg"
  shows "server_ok (sv\<lparr>sv_sessions := reg\<rparr>)"
  using assms unfolding server_ok_def stores_ok_def by simp

lemma sessions_live_validate:
  "sessions_live devs reg \<Longrightarrow> sessions_live devs (snd (validate reg now i k))"
  unfolding sessions_live_def by (auto simp: validate_get split: option.splits if_splits)

lemma sessions_bound_validate:
  assumes "sessions_bound socks reg" shows "sessions_bound socks (snd (validate reg now i k))"
proof (rule sessions_boundI)
  fix k' d ses s
  assume d: "map_get socks k' = Some d" "sd_session d = Some ses"
    and "map_get (sr_sessions (snd (validate reg now i k))) (ses_sessionId ses) = Some s"
  then obtain s0 t where "map_get (sr_sessions reg) (ses_sessionId ses) = Some s0"
    "s = s0 \<or> s = s0\<lparr>ses_expiresAtMs := t\<rparr>"
    by (auto simp: validate_get split: option.splits if_splits)
  with sessions_boundD [OF assms d] show "same_holder k' ses s" by auto
qed

lemma server_ok_validate: "server_ok sv \<Longrightarrow> server_ok (sv\<lparr>sv_sessions := snd (validate (sv_sessions sv) now i k)\<rparr>)"
  by (intro server_ok_sessions sessions_ok_validate sessions_live_validate sessions_bound_validate)
    (simp_all add: server_ok_def stores_ok_def)

lemma sessions_live_revoke: "sessions_live devs reg \<Longrightarrow> sessions_live devs (snd (revoke_session reg i))"
  unfolding sessions_live_def by (auto simp: revoke_session_def split: if_splits)

lemma sessions_bound_shrink:
  assumes "sessions_bound socks reg" and "map_get (sr_sessions reg') \<subseteq>\<^sub>m map_get (sr_sessions reg)"
  shows "sessions_bound socks reg'"
  by (rule sessions_boundI) (rule sessions_boundD [OF assms(1)], assumption+, rule map_le_Some [OF assms(2)])

lemma server_ok_revoke:
  assumes "server_ok sv" shows "server_ok (sv\<lparr>sv_sessions := snd (revoke_session (sv_sessions sv) i)\<rparr>)"
proof (rule server_ok_sessions [OF assms])
  show "sessions_ok (snd (revoke_session (sv_sessions sv) i))"
    using server_okD(1) [OF assms] by (intro sessions_ok_revoke) (simp add: stores_ok_def)
  show "sessions_live (sv_devices sv) (snd (revoke_session (sv_sessions sv) i))"
    using server_okD(2) [OF assms] by (rule sessions_live_revoke)
  show "sessions_bound (sv_sockets sv) (snd (revoke_session (sv_sessions sv) i))"
    using server_okD(7) [OF assms] by (rule sessions_bound_shrink) (auto simp: revoke_session_def map_le_def)
qed

lemma server_ok_dedup: 
  assumes "server_ok sv" shows "server_ok (sv\<lparr>sv_dedup := snd (accept (sv_dedup sv) key)\<rparr>)"
proof -
  have "dedup_ok (snd (accept (sv_dedup sv) key))"
    if "dd_clockTick (snd (accept (sv_dedup sv) key)) \<le> MAX_SAFE_INTEGER"
    using that assms by (intro accept_refines(3)) (simp_all add: server_ok_def stores_ok_def)
  with assms show ?thesis unfolding server_ok_def stores_ok_def by simp
qed

lemma history_ok_presence: "history_ok dir (setPresence st r) = history_ok dir st"
  by (simp add: history_ok_def message_ok_def message_numbers_def)

lemma server_ok_presence: "server_ok sv \<Longrightarrow> server_ok (sv\<lparr>sv_store := setPresence (sv_store sv) r\<rparr>)"
  unfolding server_ok_def stores_ok_def by (simp add: history_ok_presence store_ok_setPresence)

section \<open>History\<close>

text \<open>Accepting a message: the next number, the stored envelope, the log entry.\<close>

lemma history_ok_message:
  assumes h: "history_ok dir st" and s: "store_ok st"
    and n: "nextSeq st c = (n, st1)" and m: "sm_conversationId m = c" "sm_senderAccountId m = a" "sm_serverSeq m = n"
    and ev: "ev_conversationId ev = c" "ev_type ev = EvMessageNew" "ev_serverSeq ev = n"
      "map_of (ev_payload ev) ''sender_account_id'' = Some (JStr a)"
    and mem: "isConversationMember dir c a"
  shows "history_ok dir (snd (appendEvent (persistMessage st1 m) ev))"
proof -
  let ?st = "snd (appendEvent (persistMessage st1 m) ev)"
  have st1: "st1 = snd (nextSeq st c)" and nv: "n = latestSeq st c + 1"
    using n message_seq.nxt_value [of st c] by simp_all
  have nonneg: "0 \<le> latestSeq st x" for x using s by (simp add: store_ok_def)
  have latest: "latestSeq st1 x = (if x = c then n else latestSeq st x)" for x
    by (simp add: st1 message_seq.nxt_latest nv)
  have log: "log_of ?st x = (if x = c then log_of st c @ [with_logSeq ev (latestLogSeq st c + 1)] else log_of st x)" for x
    by (simp add: appendEvent_get ev(1) st1)
  have find: "findMessage (persistMessage st1 m) i = (if i = sm_messageId m then Some m else findMessage st i)" for i
    by (simp add: find_persist st1)
  have numbers: "message_numbers st c = [1 .. latestSeq st c]" using h by (simp add: history_ok_def)
  have "event_ok dir x (latestSeq ?st x) e" if "e \<in> set (log_of ?st x)" for x e
  proof (cases "e \<in> set (log_of st x)")
    case True
    then have "event_ok dir x (latestSeq st x) e" using h by (simp add: history_ok_def)
    then show ?thesis by (auto simp: event_ok_def latest nv)
  next
    case False
    with that have "x = c" "e = with_logSeq ev (latestLogSeq st c + 1)"
      by (simp_all add: log split: if_splits)
    then show ?thesis
      using ev mem nonneg [of c] by (simp add: event_ok_def latest nv)
  qed
  moreover have "message_ok dir ?st x" if "findMessage ?st i = Some x" for i x
  proof (cases "x = m")
    case True
    then show ?thesis using m mem nonneg [of c] by (simp add: message_ok_def latest nv)
  next
    case False
    with that have "findMessage st i = Some x" by (simp add: find split: if_splits)
    then have "message_ok dir st x" using h by (simp add: history_ok_def)
    then show ?thesis by (auto simp: message_ok_def latest nv)
  qed
  moreover have "message_numbers ?st x = [1 .. latestSeq ?st x]" for x
  proof (cases "x = c")
    case True
    then show ?thesis
      using numbers ev nonneg [of c] upto_rec2 [of 1 n]
      by (simp add: message_numbers_def log latest nv)
  next
    case False
    then show ?thesis using h by (simp add: message_numbers_def log latest history_ok_def)
  qed
  ultimately show ?thesis unfolding history_ok_def by blast
qed

text \<open>A receipt or a read mark: only the log grows.\<close>

lemma history_ok_receipt:
  assumes h: "history_ok dir st" 
    and ev: "ev_conversationId ev = c" "ev_type ev \<noteq> EvMessageNew" "0 \<le> ev_serverSeq ev" "ev_serverSeq ev \<le> latestSeq st c"
      "map_of (ev_payload ev) ''by_account_id'' = Some (JStr a)"
    and mem: "isConversationMember dir c a"
  shows "history_ok dir (snd (appendEvent st ev))"
proof -
  have "author_field (ev_type ev) = ''by_account_id''" using ev(2) by (cases "ev_type ev") simp_all
  then have "event_ok dir c (latestSeq st c) (with_logSeq ev n)" for n
    using ev mem by (simp add: event_ok_def)
  then show ?thesis
    using h ev(1,2) unfolding history_ok_def
    by (auto simp: appendEvent_get message_ok_def message_numbers_def)
qed

text \<open>Membership only grows.\<close>

lemma history_ok_mono:
  assumes "history_ok dir st" and "\<And>c a. isConversationMember dir c a \<Longrightarrow> isConversationMember dir' c a"
  shows "history_ok dir' st"
  using assms unfolding history_ok_def event_ok_def message_ok_def by meson

lemma socket_ok_mono:
  assumes "socket_ok dir k d" and "\<And>c a. isConversationMember dir c a \<Longrightarrow> isConversationMember dir' c a"
  shows "socket_ok dir' k d"
  using assms unfolding socket_ok_def room_granted_def by (fastforce split: option.splits)

lemma server_ok_directory:
  assumes "server_ok sv" and "directory_ok dir"
    and "\<And>c a. isConversationMember (sv_directory sv) c a \<Longrightarrow> isConversationMember dir c a"
  shows "server_ok (sv\<lparr>sv_directory := dir\<rparr>)"
proof -
  have "history_ok dir (sv_store sv)"
    using server_okD(4) [OF assms(1)] assms(3) by (rule history_ok_mono)
  moreover have "socket_ok dir k d" if "map_get (sv_sockets sv) k = Some d" for k d
    using server_okD(5) [OF assms(1) that] assms(3) by (rule socket_ok_mono)
  ultimately show ?thesis
    using assms unfolding server_ok_def stores_ok_def by simp
qed

lemma server_ok_message:
  assumes "server_ok sv" and "nextSeq (sv_store sv) c = (n, st1)"
    and "sm_conversationId m = c" "sm_senderAccountId m = a" "sm_serverSeq m = n"
    and "ev_conversationId ev = c" "ev_type ev = EvMessageNew" "ev_serverSeq ev = n"
      "map_of (ev_payload ev) ''sender_account_id'' = Some (JStr a)"
    and "isConversationMember (sv_directory sv) c a"
  shows "server_ok (sv\<lparr>sv_store := snd (appendEvent (persistMessage st1 m) ev)\<rparr>)"
proof -
  have "store_ok st1" using store_ok_nextSeq [of "sv_store sv" c] assms(1,2) by (simp add: server_ok_def stores_ok_def)
  then have "store_ok (snd (appendEvent (persistMessage st1 m) ev))" by (intro inv_intros)
  moreover have "history_ok (sv_directory sv) (snd (appendEvent (persistMessage st1 m) ev))"
    using assms by (intro history_ok_message [where st = "sv_store sv" and c = c and n = n and a = a])
      (simp_all add: server_ok_def stores_ok_def)
  ultimately show ?thesis using assms(1) unfolding server_ok_def stores_ok_def by simp
qed

lemma server_ok_receipt:
  assumes "server_ok sv" and "ev_conversationId ev = c" "ev_type ev \<noteq> EvMessageNew" "0 \<le> ev_serverSeq ev"
      "ev_serverSeq ev \<le> latestSeq (sv_store sv) c" "map_of (ev_payload ev) ''by_account_id'' = Some (JStr a)"
    and "isConversationMember (sv_directory sv) c a"
  shows "server_ok (sv\<lparr>sv_store := snd (appendEvent (sv_store sv) ev)\<rparr>)"
proof -
  have "store_ok (snd (appendEvent (sv_store sv) ev))"
    using assms(1) by (intro inv_intros) (simp add: server_ok_def stores_ok_def)
  moreover have "history_ok (sv_directory sv) (snd (appendEvent (sv_store sv) ev))"
    using server_okD(4) [OF assms(1)] assms(2-7) by (rule history_ok_receipt)
  ultimately show ?thesis using assms(1) unfolding server_ok_def stores_ok_def by simp
qed

section \<open>The guards\<close>

lemma socket_limiters_ok: "server_ok sv \<Longrightarrow> map_get (sv_sockets sv) k = Some d \<Longrightarrow> limiters_ok (sd_limiters d)"
  using server_okD(5) [of sv k d] by (simp add: socket_ok_def)

text \<open>
  A guard that lets an event through hands on the socket's own session, which was live, and
  changes nothing but its deadline and the limiters; a guard that refuses keeps the invariant.
\<close>

lemma admit_Inl:
  assumes "server_ok sv" "map_get (sv_sockets sv) k = Some d" "admit sv e k d event rd extra = Inl (effs, sv')"
  shows "server_ok sv'"
  using assms(3)
proof (cases rule: admit_cases)
  case anonymous
  then show ?thesis
    using assms(1,2) socket_limiters_ok [OF assms(1,2)]
    by (auto intro!: server_ok_put limiters_ok_drain)
next
  case (expired ses)
  then show ?thesis using assms(1) by (auto intro!: server_ok_validate)
next
  case (limited ses)
  then show ?thesis
    using assms(1,2) socket_limiters_ok [OF assms(1,2)]
    by (auto intro!: server_ok_put [where d = d] server_ok_validate limiters_ok_consume)
next
  case (admitted ses)
  then show ?thesis by simp
qed

lemma admit_Inr:
  assumes "server_ok sv" "map_get (sv_sockets sv) k = Some d" "admit sv e k d event rd extra = Inr (ses, sv')"
  shows "server_ok sv'" "sd_session d = Some ses" "sv_directory sv' = sv_directory sv"
    "sv_store sv' = sv_store sv" "sv_dedup sv' = sv_dedup sv" "sv_devices sv' = sv_devices sv"
    "sv_config sv' = sv_config sv" "sv_log sv' = sv_log sv"
    "\<exists>s. bySessionId (sv_sessions sv) (ses_sessionId ses) = Some s \<and> en_now e \<le> ses_expiresAtMs s \<and> ses_socketKey s = k"
    "\<exists>d'. map_get (sv_sockets sv') k = Some d' \<and> sd_session d' = Some ses"
proof -
  have "server_ok sv' \<and> sd_session d = Some ses \<and> sv_directory sv' = sv_directory sv \<and>
    sv_store sv' = sv_store sv \<and> sv_dedup sv' = sv_dedup sv \<and> sv_devices sv' = sv_devices sv \<and>
    sv_config sv' = sv_config sv \<and> sv_log sv' = sv_log sv \<and>
    fst (validate (sv_sessions sv) (en_now e) (ses_sessionId ses) k) = SessionOk \<and>
    (\<exists>d'. map_get (sv_sockets sv') k = Some d' \<and> sd_session d' = Some ses)"
    using assms(3)
  proof (cases rule: admit_cases)
    case (admitted s)
    then show ?thesis
      using assms(1,2) socket_limiters_ok [OF assms(1,2)]
      by (auto intro!: server_ok_put [where d = d] server_ok_validate limiters_ok_consume)
  qed simp_all
  then show "server_ok sv'" "sd_session d = Some ses" "sv_directory sv' = sv_directory sv"
    "sv_store sv' = sv_store sv" "sv_dedup sv' = sv_dedup sv" "sv_devices sv' = sv_devices sv"
    "sv_config sv' = sv_config sv" "sv_log sv' = sv_log sv"
    "\<exists>s. bySessionId (sv_sessions sv) (ses_sessionId ses) = Some s \<and> en_now e \<le> ses_expiresAtMs s \<and> ses_socketKey s = k"
    "\<exists>d'. map_get (sv_sockets sv') k = Some d' \<and> sd_session d' = Some ses"
    by (simp_all only: validate_ok_iff)
qed

text \<open>Joining several rooms.\<close>

lemma fold_join_simps [simp]:
  "sv_config (fold (join_room k) rs sv) = sv_config sv" "sv_directory (fold (join_room k) rs sv) = sv_directory sv"
  "sv_store (fold (join_room k) rs sv) = sv_store sv" "sv_devices (fold (join_room k) rs sv) = sv_devices sv"
  "sv_challenges (fold (join_room k) rs sv) = sv_challenges sv"
  "sv_sessions (fold (join_room k) rs sv) = sv_sessions sv" "sv_dedup (fold (join_room k) rs sv) = sv_dedup sv"
  "sv_authFailures (fold (join_room k) rs sv) = sv_authFailures sv" "sv_log (fold (join_room k) rs sv) = sv_log sv"
  "sv_socketLimiters (fold (join_room k) rs sv) = sv_socketLimiters sv"
  "sv_ipConnections (fold (join_room k) rs sv) = sv_ipConnections sv"
  by (induction rs arbitrary: sv) simp_all

lemma join_room_session:
  "map_get (sv_sockets sv) k = Some d \<Longrightarrow>
   \<exists>d'. map_get (sv_sockets (join_room k r sv)) k = Some d' \<and> sd_session d' = sd_session d"
  by (simp add: join_room_get)

lemma server_ok_fold_join:
  assumes "server_ok sv" and "map_get (sv_sockets sv) k = Some d"
    and "\<And>r. r \<in> set rs \<Longrightarrow> room_granted (sv_directory sv) (sd_session d) r"
  shows "server_ok (fold (join_room k) rs sv)"
  using assms
proof (induction rs arbitrary: sv d)
  case Nil
  then show ?case by simp
next
  case (Cons r rs)
  obtain d' where d': "map_get (sv_sockets (join_room k r sv)) k = Some d'" "sd_session d' = sd_session d"
    using join_room_session [OF Cons.prems(2)] by blast
  have "server_ok (join_room k r sv)"
    using Cons.prems(1,2) by (rule server_ok_join) (simp add: Cons.prems(3))
  with d' Cons.prems(3) show ?case by (simp add: Cons.IH)
qed

end
