(* ===== verification/Server_Auth.thy ===== *)
theory Server_Auth
  imports Server_Invariant
begin

text \<open>
  The life of a connection in \<^verbatim>\<open>realtime_server.ts\<close>: \<open>onConnection\<close>,
  \<open>onAuthResponse\<close> and \<open>onDisconnect\<close>.
\<close>

section \<open>Connecting\<close>

definition onConnection :: "server \<Rightarrow> env \<Rightarrow> string \<Rightarrow> handshake_info \<Rightarrow> effect list \<times> server" where
  "onConnection sv e k h =
     (let data = \<lparr>sd_session = None, sd_authAttempts = 0,
            sd_limiters = createDomainRateLimiters (sv_config sv), sd_ip = clientIp h, sd_rooms = []\<rparr>;
          sv1 = (put_data k data sv)\<lparr>sv_socketLimiters := set_add k (sv_socketLimiters sv)\<rparr>;
          (issued, challenges') = issue (sv_challenges sv1) (en_now e) (en_challengeId e)
            (en_challengeBase64 e) k in
      ([Emit k AuthChallenge (object
          [(''challenge_id'', Some (JStr (is_challengeId issued))),
           (''challenge'', Some (JStr (is_challengeBase64 issued))),
           (''expires_at_ms'', Some (jint (is_expiresAtMs issued)))])],
       sv1\<lparr>sv_challenges := challenges'\<rparr>))"

section \<open>Authenticating\<close>

definition auth_refused :: "string \<Rightarrow> string \<Rightarrow> effect list" where
  "auth_refused k code = [Emit k AuthFailure (object [(''code'', Some (JStr code))]), Disconnect k]"

definition grant_session :: "server \<Rightarrow> env \<Rightarrow> string \<Rightarrow> session \<Rightarrow> session list \<Rightarrow> effect list \<times> server" where
  "grant_session sv e k ses evicted =
     (let rooms = [account_room (ses_accountId ses), device_room (ses_deviceId ses)] @
            map conv_room (listConversationsForAccount (sv_directory sv) (ses_accountId ses));
          sv1 = fold (join_room k) rooms sv;
          sv2 = log_to sv1 e ''auth.success''
            [(''account_id'', Some (JStr (ses_accountId ses))), (''device_id'', Some (JStr (ses_deviceId ses))),
             (''evicted'', Some (jnat (length evicted)))] in
      (map (Join k) rooms @
       [Emit k AuthSuccess (object
          [(''session_id'', Some (JStr (ses_sessionId ses))), (''account_id'', Some (JStr (ses_accountId ses))),
           (''device_id'', Some (JStr (ses_deviceId ses))), (''nova_id'', Some (JStr (ses_novaId ses))),
           (''expires_at_ms'', Some (jint (ses_expiresAtMs ses)))])],
       sv2))"

text \<open>The part of \<open>onAuthResponse\<close> from the handshake engine on.\<close>

definition complete_auth ::
  "node_crypto \<Rightarrow> server \<Rightarrow> env \<Rightarrow> string \<Rightarrow> socket_data \<Rightarrow> fields \<Rightarrow> string list \<Rightarrow> effect list \<times> server" where
  "complete_auth nc sv e k data rec lockoutKeys =
     (let (res, challenges', sessions') = handleAuthResponse nc (sv_devices sv) (sv_challenges sv)
            (sv_sessions sv) (en_now e) (en_sessionId e) k rec True;
          sv1 = sv\<lparr>sv_challenges := challenges', sv_sessions := sessions'\<rparr> in
      case (hr_outcome res, hr_session res) of
        (HsSuccess, Some ses) \<Rightarrow>
          (let sv2 = sv1\<lparr>sv_authFailures :=
                 fold (\<lambda>key t. if starts_with ''device:'' key then clear_failures t key else t)
                   lockoutKeys (sv_authFailures sv1)\<rparr>;
               evictions = concat (map (\<lambda>evicted. disconnectSocketKey sv2 (ses_socketKey evicted) SessionExpired)
                 (hr_evicted res));
               sv3 = put_data k (data\<lparr>sd_session := Some ses\<rparr>) sv2;
               (granted, sv4) = grant_session sv3 e k ses (hr_evicted res) in
           (evictions @ granted, sv4))
      | _ \<Rightarrow>
          (let sv2 = sv1\<lparr>sv_authFailures := recordFailures (sv_authFailures sv1) (en_now e) lockoutKeys\<rparr>;
               sv3 = log_to sv2 e ''auth.failure''
                 [(''outcome'', Some (JStr (outcome_name (hr_outcome res)))),
                  (''device_id'', map_option JStr (as_string (map_get rec ''device_id''))),
                  (''ip'', Some (JStr (sd_ip data)))] in
           (auth_refused k (wireFailureCode (hr_outcome res)), sv3)))"

definition onAuthResponse ::
  "node_crypto \<Rightarrow> server \<Rightarrow> env \<Rightarrow> string \<Rightarrow> socket_data \<Rightarrow> payload \<Rightarrow> effect list \<times> server" where
  "onAuthResponse nc sv e k data0 payload =
     (let data1 = data0\<lparr>sd_authAttempts := sd_authAttempts data0 + 1\<rparr>;
          sv1 = put_data k data1 sv in
      if sd_authAttempts data1 > cf_maxAuthAttemptsPerConnection (sv_config sv1)
      then (auth_refused k (error_code RateLimited), sv1)
      else
        (let (ok, limiters) = consumeAuthRate (sd_limiters data1) (en_now e);
             data2 = data1\<lparr>sd_limiters := limiters\<rparr>;
             sv2 = put_data k data2 sv1 in
         if \<not> ok then (auth_refused k (error_code RateLimited), sv2)
         else
           (let rec = payloadObject payload;
                lockoutKeys = lockoutScopeKeys (sv_config sv2) data2 rec;
                (locked, failures') = someLocked (sv_authFailures sv2) (en_now e) lockoutKeys;
                sv3 = sv2\<lparr>sv_authFailures := failures'\<rparr> in
            if locked then (auth_refused k (error_code RateLimited), sv3)
            else complete_auth nc sv3 e k data2 rec lockoutKeys)))"

section \<open>Disconnecting\<close>

definition presence_changed :: "server \<Rightarrow> string \<Rightarrow> string \<Rightarrow> js_number \<Rightarrow> effect list" where
  "presence_changed sv accountId status lastSeenMs =
     map (\<lambda>viewerAccountId. Broadcast (account_room viewerAccountId) None PresenceChanged (object
         [(''account_id'', Some (JStr accountId)), (''status'', Some (JStr status)),
          (''last_seen_ms'', Some (JNum lastSeenMs))]))
       (presenceAudience (sv_directory sv) accountId)"

definition onDisconnect :: "server \<Rightarrow> env \<Rightarrow> string \<Rightarrow> socket_data \<Rightarrow> string \<Rightarrow> effect list \<times> server" where
  "onDisconnect sv e k data reason =
     (let sv1 = log_to sv e ''socket.disconnect''
            [(''reason'', Some (JStr reason)),
             (''account_id'', map_option (\<lambda>s. JStr (ses_accountId s)) (sd_session data)),
             (''device_id'', map_option (\<lambda>s. JStr (ses_deviceId s)) (sd_session data))] in
      case sd_session data of
        None \<Rightarrow> ([], sv1)
      | Some ses \<Rightarrow>
          (let sv2 = (case bySessionId (sv_sessions sv1) (ses_sessionId ses) of
                 None \<Rightarrow> sv1
               | Some current \<Rightarrow>
                   if ses_socketKey current = k
                   then sv1\<lparr>sv_sessions := snd (revoke_session (sv_sessions sv1) (ses_sessionId ses))\<rparr>
                   else sv1) in
           if accountHasLiveSocket sv2 (ses_accountId ses) then ([], sv2)
           else
             (let lastSeenMs = js_int (en_now e);
                  sv3 = sv2\<lparr>sv_store := setPresence (sv_store sv2)
                    \<lparr>pr_accountId = ses_accountId ses, pr_status = Offline, pr_lastSeenMs = lastSeenMs\<rparr>\<rparr> in
              (presence_changed sv3 (ses_accountId ses) ''offline'' lastSeenMs, sv3))))"

text \<open>
  The \<open>'disconnect'\<close> event. Socket.IO has removed the socket from its namespace and its
  rooms when it fires.
\<close>

definition socket_disconnected :: "server \<Rightarrow> env \<Rightarrow> string \<Rightarrow> string \<Rightarrow> effect list \<times> server" where
  "socket_disconnected sv e k reason =
     (case map_get (sv_sockets sv) k of
        None \<Rightarrow> ([], sv)
      | Some data \<Rightarrow>
          onDisconnect (sv\<lparr>sv_sockets := map_delete k (sv_sockets sv),
            sv_socketLimiters := removeAll k (sv_socketLimiters sv)\<rparr>) e k data reason)"

section \<open>Lemmas\<close>

text \<open>
  A connection gets a challenge of its own. Socket ids are not reused: there is no socket
  and no challenge under the new one.
\<close>

lemma challenges_fresh_issue:
  assumes "challenges_fresh chs socks" "challenges_ok chs" "map_get socks k = None"
    and "\<And>i ch. map_get (cs_challenges chs) i = Some ch \<Longrightarrow> ch_socketKey ch \<noteq> k"
    and "sd_session d = None"
  shows "challenges_fresh (snd (issue chs now i c k)) (map_set k d socks)"
  using assms unfolding challenges_fresh_def
  by (auto simp: issue_def map_get_issueBound map_get_sweep split: if_splits option.splits)

lemma sessions_bound_new:
  assumes "sessions_bound socks reg" "sd_session d = None" shows "sessions_bound (map_set k d socks) reg"
proof (rule sessions_boundI)
  fix k' x ses s
  assume x: "map_get (map_set k d socks) k' = Some x" "sd_session x = Some ses"
    and s: "map_get (sr_sessions reg) (ses_sessionId ses) = Some s"
  then have "map_get socks k' = Some x" using assms(2) by (cases "k' = k") auto
  with x(2) s sessions_boundD [OF assms(1)] show "same_holder k' ses s" by blast
qed

lemma server_ok_onConnection:
  assumes ok: "server_ok sv" and "map_get (sv_sockets sv) k = None"
    and "\<And>i ch. map_get (cs_challenges (sv_challenges sv)) i = Some ch \<Longrightarrow> ch_socketKey ch \<noteq> k"
  shows "server_ok (snd (onConnection sv e k h))"
proof -
  let ?d = "\<lparr>sd_session = None, sd_authAttempts = 0, sd_limiters = createDomainRateLimiters (sv_config sv),
    sd_ip = clientIp h, sd_rooms = []\<rparr>"
  let ?chs = "snd (issue (sv_challenges sv) (en_now e) (en_challengeId e) (en_challengeBase64 e) k)"
  have sv': "snd (onConnection sv e k h) = (put_data k ?d sv)\<lparr>sv_socketLimiters := set_add k (sv_socketLimiters sv),
      sv_challenges := ?chs\<rparr>"
    by (simp add: onConnection_def Let_def split: prod.splits)
  have st: "stores_ok sv" using ok by (rule server_okD)
  then have "challenges_ok ?chs" by (intro challenges_ok_issue) (simp add: stores_ok_def)
  moreover have "challenges_fresh ?chs (map_set k ?d (sv_sockets sv))"
    using assms st by (intro challenges_fresh_issue) (simp_all add: server_ok_def stores_ok_def)
  moreover have "socket_ok (sv_directory sv) k ?d"
    using st by (simp add: socket_ok_def stores_ok_def limiters_ok_config)
  ultimately show ?thesis
    unfolding sv' using ok sessions_bound_new [OF server_okD(7) [OF ok], of ?d k]
    unfolding server_ok_def stores_ok_def by (auto split: if_splits)
qed

lemma challenges_fresh_shrink:
  assumes "challenges_fresh chs socks" and "map_get (cs_challenges chs') \<subseteq>\<^sub>m map_get (cs_challenges chs)"
  shows "challenges_fresh chs' socks"
  using assms(1) map_le_Some [OF assms(2)] unfolding challenges_fresh_def by meson

lemma server_ok_grant:
  assumes "server_ok sv" and "map_get (sv_sockets sv) k = Some d" and "sd_session d = Some ses"
  shows "server_ok (snd (grant_session sv e k ses evicted))"
proof -
  have "server_ok (fold (join_room k) ([account_room (ses_accountId ses), device_room (ses_deviceId ses)] @
      map conv_room (listConversationsForAccount (sv_directory sv) (ses_accountId ses))) sv)"
    using assms server_okD(1) [OF assms(1)]
    by (intro server_ok_fold_join [where d = d])
      (auto simp: room_granted_def memory_directory.conversations_member stores_ok_def)
  from server_ok_log [OF this, of "''auth.success''"] show ?thesis
    by (simp add: grant_session_def)
qed

text \<open>A response that is accepted spends the only challenge of its socket, which had no session.\<close>

lemma accepted_fresh:
  assumes fresh: "challenges_fresh chs socks" and acc: "response_accepted nc devs chs now k payload c"
    and d: "map_get socks k = Some d"
    and chs': "map_get (cs_challenges chs') = (map_get (cs_challenges chs))(cl_challengeId c := None)"
  shows "sd_session d = None" and "challenges_fresh chs' (map_set k d' socks)"
proof -
  obtain ch where ch: "map_get (cs_challenges chs) (cl_challengeId c) = Some ch" "ch_socketKey ch = k"
    using acc by (auto simp: response_accepted_def)
  show "sd_session d = None" using fresh ch d by (auto simp: challenges_fresh_def)
  have "ch_socketKey x \<noteq> k" if "map_get (cs_challenges chs') i = Some x" for i x
    using fresh ch that unfolding challenges_fresh_def chs' by (auto split: if_splits)
  then show "challenges_fresh chs' (map_set k d' socks)"
    using fresh unfolding challenges_fresh_def chs' by (auto split: if_splits)
qed

text \<open>The random id of a new session is that of no other session, registered or held.\<close>

definition fresh_session :: "server \<Rightarrow> string \<Rightarrow> bool" where
  "fresh_session sv sid \<longleftrightarrow> map_get (sr_sessions (sv_sessions sv)) sid = None \<and>
     list_all (\<lambda>(k, d). case sd_session d of None \<Rightarrow> True | Some s \<Rightarrow> ses_sessionId s \<noteq> sid) (sv_sockets sv)"

lemma fresh_sessionD:
  "fresh_session sv sid \<Longrightarrow> map_get (sv_sockets sv) k = Some d \<Longrightarrow> sd_session d = Some s \<Longrightarrow> ses_sessionId s \<noteq> sid"
  by (fastforce simp: fresh_session_def list_all_iff dest: map_of_SomeD)

lemma sessions_bound_create:
  assumes "sessions_bound (sv_sockets sv) (sv_sessions sv)" and "sessions_ok (sv_sessions sv)"
    and c: "create_session (sv_sessions sv) now sid k a dev n = (ses, evicted, reg')"
    and "fresh_session sv sid" and "sd_session d = Some ses"
  shows "sessions_bound (map_set k d (sv_sockets sv)) reg'"
proof -
  have ses: "ses = \<lparr>ses_sessionId = sid, ses_socketKey = k, ses_accountId = a, ses_deviceId = dev, ses_novaId = n,
      ses_createdAtMs = now, ses_expiresAtMs = now + sr_sessionTtlMs (sv_sessions sv)\<rparr>"
    using create_fields(1) [OF c] .
  show ?thesis
  proof (rule sessions_boundI)
    fix k' x ses' s
    assume x: "map_get (map_set k d (sv_sockets sv)) k' = Some x" "sd_session x = Some ses'"
      and s: "map_get (sr_sessions reg') (ses_sessionId ses') = Some s"
    show "same_holder k' ses' s"
    proof (cases "k' = k")
      case True
      with x assms(5) have "ses' = ses" by simp
      with s True show ?thesis
        by (auto simp: create_get [OF assms(2) c] ses same_holder_def)
    next
      case False
      with x have x': "map_get (sv_sockets sv) k' = Some x" by simp
      with x(2) have "ses_sessionId ses' \<noteq> sid" using fresh_sessionD [OF assms(4)] by blast
      with s have "map_get (sr_sessions (sv_sessions sv)) (ses_sessionId ses') = Some s"
        by (simp add: create_get [OF assms(2) c] split: option.splits if_splits)
      with x' x(2) sessions_boundD [OF assms(1)] show ?thesis by blast
    qed
  qed
qed

lemma server_ok_complete_auth:
  assumes ok: "server_ok sv" and d: "map_get (sv_sockets sv) k = Some d"
    and fresh_id: "fresh_session sv (en_sessionId e)"
  shows "server_ok (snd (complete_auth nc sv e k d rec keys))"
proof -
  obtain r chs' sess' where h: "handleAuthResponse nc (sv_devices sv) (sv_challenges sv) (sv_sessions sv)
      (en_now e) (en_sessionId e) k rec True = (r, chs', sess')"
    by (metis prod_cases3)
  note st = server_okD(1) [OF ok]
  have chs_ok: "challenges_ok chs'" using handshake_challenges_ok [OF h] st by (simp add: stores_ok_def)
  have sess_ok: "sessions_ok sess'" using handshake_sessions_ok [OF h] st by (simp add: stores_ok_def)
  from h show ?thesis
  proof (cases rule: handshake_cases)
    case failed
    have "challenges_fresh chs' (sv_sockets sv)"
      using server_okD(3) [OF ok] failed(6) by (rule challenges_fresh_shrink)
    then have "server_ok (sv\<lparr>sv_challenges := chs', sv_sessions := sess'\<rparr>)"
      using ok chs_ok failed(4) unfolding server_ok_def stores_ok_def by simp
    then have "server_ok (log_to (sv\<lparr>sv_challenges := chs', sv_sessions := sess', sv_authFailures := t\<rparr>) e
        ''auth.failure'' fs)" for t fs
      using server_ok_failures [of "sv\<lparr>sv_challenges := chs', sv_sessions := sess'\<rparr>" t]
      by (intro server_ok_log) simp_all
    with failed(1,2) show ?thesis
      by (cases "hr_outcome r") (simp_all add: complete_auth_def h Let_def)
  next
    case (success c ses evicted)
    let ?d = "d\<lparr>sd_session := Some ses\<rparr>"
    let ?sv = "\<lambda>t. put_data k ?d (sv\<lparr>sv_challenges := chs', sv_sessions := sess', sv_authFailures := t\<rparr>)"
    note fresh = accepted_fresh [OF server_okD(3) [OF ok] success(2) d success(4)]
    have "set (sd_rooms d) = {}"
      using server_okD(5) [OF ok d] fresh(1) by (auto simp: socket_ok_def room_granted_def intro: list.set_sel)
    moreover have ses: "ses_socketKey ses = k" "ses_deviceId ses = cl_deviceId c"
      using create_fields(1) [OF success(3)] by simp_all
    ultimately have "socket_ok (sv_directory sv) k ?d"
      using server_okD(5) [OF ok d] by (simp add: socket_ok_def)
    moreover have "isActive (sv_devices sv) (cl_deviceId c)"
      using success(2) by (auto simp: response_accepted_def isActive_def byDeviceId_def)
    then have "sessions_live (sv_devices sv) sess'"
      using server_okD(2) [OF ok] st ses unfolding sessions_live_def
      by (auto simp: create_get [OF _ success(3)] stores_ok_def split: if_splits option.splits)
    moreover have "sessions_bound (map_set k ?d (sv_sockets sv)) sess'"
      using server_okD(7) [OF ok] st success(3) fresh_id
      by (intro sessions_bound_create) (simp_all add: stores_ok_def)
    ultimately have "server_ok (?sv t)" for t
      using ok chs_ok sess_ok fresh(2) d unfolding server_ok_def stores_ok_def by (auto split: if_splits)
    then have "server_ok (snd (grant_session (?sv t) e k ses evicted))" for t
      by (intro server_ok_grant [where d = ?d]) simp_all
    then show ?thesis
      by (simp add: complete_auth_def h Let_def success(1) case_prod_beta)
  qed
qed

lemma fresh_session_put:
  assumes "fresh_session sv sid" and "map_get (sv_sockets sv) k = Some d" and "sd_session d' = sd_session d"
  shows "fresh_session (put_data k d' sv) sid"
proof -
  have "case sd_session d' of None \<Rightarrow> True | Some s \<Rightarrow> ses_sessionId s \<noteq> sid"
    using fresh_sessionD [OF assms(1,2)] assms(3) by (simp split: option.splits)
  moreover have "list_all P (AList.update k x xs)" if "list_all P xs" "P (k, x)" for P x and xs :: "(string \<times> socket_data) list"
    using that by (induction xs) auto
  ultimately show ?thesis
    using assms(1) unfolding fresh_session_def by simp
qed

lemma server_ok_onAuthResponse:
  assumes ok: "server_ok sv" and d: "map_get (sv_sockets sv) k = Some d"
    and fresh_id: "fresh_session sv (en_sessionId e)"
  shows "server_ok (snd (onAuthResponse nc sv e k d payload))"
proof -
  let ?d1 = "d\<lparr>sd_authAttempts := sd_authAttempts d + 1\<rparr>"
  obtain g l where g: "consumeAuthRate (sd_limiters d) (en_now e) = (g, l)" by fastforce
  let ?d2 = "?d1\<lparr>sd_limiters := l\<rparr>"
  let ?sv2 = "put_data k ?d2 (put_data k ?d1 sv)"
  have l: "limiters_ok (sd_limiters d)" "limiters_ok l"
    using socket_limiters_ok [OF ok d] limiters_ok_consume_auth [of "sd_limiters d" "en_now e"] g by simp_all
  have sv1: "server_ok (put_data k ?d1 sv)" using ok d l by (intro server_ok_put [where d = d]) simp_all
  then have sv2: "server_ok ?sv2" by (rule server_ok_put [where d = ?d1]) (simp_all add: l)
  obtain locked t where lk: "someLocked (sv_authFailures ?sv2) (en_now e)
      (lockoutScopeKeys (sv_config ?sv2) ?d2 (payloadObject payload)) = (locked, t)" by fastforce
  have sv3: "server_ok (?sv2\<lparr>sv_authFailures := t\<rparr>)" using sv2 by (rule server_ok_failures)
  moreover have "fresh_session (?sv2\<lparr>sv_authFailures := t\<rparr>) (en_sessionId e)"
    using fresh_session_put [OF fresh_session_put [OF fresh_id d, of ?d1], of k ?d1 ?d2]
    by (simp add: fresh_session_def)
  ultimately have "server_ok (snd (complete_auth nc (?sv2\<lparr>sv_authFailures := t\<rparr>) e k ?d2 rec keys))" for rec keys
    by (intro server_ok_complete_auth) simp_all
  with sv1 sv2 sv3 lk show ?thesis
    by (simp add: onAuthResponse_def Let_def g)
qed

lemma server_ok_disconnected:
  assumes ok: "server_ok sv" and d: "map_get (sv_sockets sv) k = Some d"
  shows "server_ok (snd (socket_disconnected sv e k reason))"
proof -
  let ?sv0 = "sv\<lparr>sv_sockets := map_delete k (sv_sockets sv), sv_socketLimiters := removeAll k (sv_socketLimiters sv)\<rparr>"
  have "challenges_fresh (sv_challenges sv) (map_delete k (sv_sockets sv))"
    using server_okD(3) [OF ok] unfolding challenges_fresh_def by (auto split: if_splits)
  moreover have "sessions_bound (map_delete k (sv_sockets sv)) (sv_sessions sv)"
    using sessions_boundD [OF server_okD(7) [OF ok]] by (intro sessions_boundI) (auto split: if_splits)
  ultimately have sv0: "server_ok ?sv0"
    using ok unfolding server_ok_def stores_ok_def by (auto split: if_splits)
  then have sv1: "server_ok (log_to ?sv0 e ''socket.disconnect'' fs)" for fs
    by (intro server_ok_log) simp_all
  have "server_ok (snd (onDisconnect ?sv0 e k d reason))"
    unfolding onDisconnect_def Let_def
    using sv1 server_ok_revoke [OF sv1] server_ok_presence
    by (simp split: option.splits)
  then show ?thesis using d by (simp add: socket_disconnected_def)
qed

end
