(* ===== verification/Server_Messaging.thy ===== *)
theory Server_Messaging
  imports Server_Invariant
begin

text \<open>
  Messaging in \<^verbatim>\<open>realtime_server.ts\<close>: \<open>parseMessageEnvelope\<close>,
  \<open>onMessageSend\<close>, \<open>onMessageTyping\<close>, \<open>onMessageDelivered\<close> and
  \<open>onMessageRead\<close>.
\<close>

section \<open>The envelope\<close>

record parsed_envelope =
  pe_messageId :: string
  pe_conversationId :: string
  pe_senderDeviceId :: string
  pe_ciphertextBase64 :: string
  pe_headerType :: string
  pe_clientTimestampMs :: "js_number option"
  pe_recipientDeviceId :: "string option"
  pe_messageType :: "string option"
  pe_envelopeVersion :: "js_number option"
  pe_expiresAtMs :: "js_number option"

text \<open>\<open>ParseThrows\<close> is the \<open>TypeError\<close> of \<open>containsPlaintextPayload\<close>.\<close>

datatype parse_result = Parsed parsed_envelope | ParseError socket_error_code | ParseThrows

definition parseMessageEnvelope :: "realtime_config \<Rightarrow> payload \<Rightarrow> session \<Rightarrow> parse_result" where
  "parseMessageEnvelope config payload ses =
     (case payload of
        Some (JObj rec) \<Rightarrow>
          (case containsPlaintextPayload rec of
             None \<Rightarrow> ParseThrows
           | Some True \<Rightarrow> ParseError PayloadInvalid
           | Some False \<Rightarrow>
               (let senderDeviceId = map_get rec ''sender_device_id'';
                    clientTs = map_get rec ''client_ts_ms'';
                    recipientDeviceId = map_get rec ''recipient_device_id'';
                    messageType = map_get rec ''message_type'';
                    envelopeVersion = map_get rec ''envelope_version'';
                    expiresAt = map_get rec ''expires_at_ms'' in
                case (as_string (map_get rec ''message_id''), as_string (map_get rec ''conversation_id''),
                      as_string (map_get rec ''ciphertext''), as_string (map_get rec ''header_type'')) of
                  (Some messageId, Some conversationId, Some ciphertext, Some headerType) \<Rightarrow>
                    if length messageId = 0 \<or> length conversationId = 0 \<or> length ciphertext = 0
                       \<or> length headerType = 0 then ParseError PayloadInvalid
                    else if int (length ciphertext) > cf_maxCiphertextBase64Chars config
                    then ParseError PayloadInvalid
                    else if senderDeviceId \<noteq> None \<and> senderDeviceId \<noteq> Some (JStr (ses_deviceId ses))
                    then ParseError PayloadInvalid
                    else if clientTs \<noteq> None \<and> as_number clientTs = None then ParseError PayloadInvalid
                    else if recipientDeviceId \<noteq> None \<and>
                       (as_string recipientDeviceId = None \<or> as_string recipientDeviceId = Some [])
                    then ParseError PayloadInvalid
                    else if messageType \<noteq> None \<and> as_string messageType = None then ParseError PayloadInvalid
                    else if envelopeVersion \<noteq> None \<and> as_number envelopeVersion = None
                    then ParseError PayloadInvalid
                    else if expiresAt \<noteq> None \<and> as_number expiresAt = None then ParseError PayloadInvalid
                    else Parsed
                      \<lparr>pe_messageId = messageId, pe_conversationId = conversationId,
                       pe_senderDeviceId = ses_deviceId ses, pe_ciphertextBase64 = ciphertext,
                       pe_headerType = headerType, pe_clientTimestampMs = as_number clientTs,
                       pe_recipientDeviceId = as_string recipientDeviceId,
                       pe_messageType = as_string messageType,
                       pe_envelopeVersion = as_number envelopeVersion,
                       pe_expiresAtMs = as_number expiresAt\<rparr>
                | _ \<Rightarrow> ParseError PayloadInvalid))
      | _ \<Rightarrow> ParseError PayloadInvalid)"

section \<open>Sending\<close>

definition storage_key :: "parsed_envelope \<Rightarrow> string" where
  "storage_key env =
     (case pe_recipientDeviceId env of
        None \<Rightarrow> pe_messageId env
      | Some d \<Rightarrow> if d = [] then pe_messageId env else pe_messageId env @ ''#'' @ d)"

definition dedup_key :: "session \<Rightarrow> parsed_envelope \<Rightarrow> string" where
  "dedup_key ses env = ses_accountId ses @ ''|'' @ storage_key env"

definition stored_of :: "session \<Rightarrow> parsed_envelope \<Rightarrow> int \<Rightarrow> int \<Rightarrow> stored_message" where
  "stored_of ses env serverSeq receivedAtMs =
     \<lparr>sm_messageId = storage_key env, sm_conversationId = pe_conversationId env,
      sm_senderAccountId = ses_accountId ses, sm_senderDeviceId = pe_senderDeviceId env,
      sm_ciphertextBase64 = pe_ciphertextBase64 env, sm_headerType = pe_headerType env,
      sm_serverSeq = serverSeq, sm_receivedAtMs = receivedAtMs,
      sm_clientTimestampMs = pe_clientTimestampMs env\<rparr>"

definition message_wire :: "session \<Rightarrow> parsed_envelope \<Rightarrow> int \<Rightarrow> int \<Rightarrow> fields" where
  "message_wire ses env serverSeq receivedAtMs = object
     [(''message_id'', Some (JStr (pe_messageId env))),
      (''conversation_id'', Some (JStr (pe_conversationId env))),
      (''sender_account_id'', Some (JStr (ses_accountId ses))),
      (''sender_device_id'', Some (JStr (pe_senderDeviceId env))),
      (''ciphertext'', Some (JStr (pe_ciphertextBase64 env))),
      (''header_type'', Some (JStr (pe_headerType env))),
      (''server_seq'', Some (jint serverSeq)),
      (''received_at_ms'', Some (jint receivedAtMs)),
      (''recipient_device_id'', map_option JStr (pe_recipientDeviceId env)),
      (''message_type'', map_option JStr (pe_messageType env)),
      (''envelope_version'', map_option JNum (pe_envelopeVersion env)),
      (''expires_at_ms'', map_option JNum (pe_expiresAtMs env)),
      (''client_ts_ms'', map_option JNum (pe_clientTimestampMs env))]"

text \<open>A retried message: the original acknowledgement, nothing stored or sent on.\<close>

definition send_duplicate :: "server \<Rightarrow> env \<Rightarrow> string \<Rightarrow> session \<Rightarrow> parsed_envelope \<Rightarrow> effect list \<times> server" where
  "send_duplicate sv e k ses env =
     (let original = findMessage (sv_store sv) (storage_key env);
          sameOrigin = (case original of
              None \<Rightarrow> False
            | Some m \<Rightarrow> sm_senderAccountId m = ses_accountId ses \<and> sm_conversationId m = pe_conversationId env);
          sv' = log_to sv e ''message.duplicate''
            [(''account_id'', Some (JStr (ses_accountId ses))),
             (''conversation_id'', Some (JStr (pe_conversationId env))),
             (''message_id'', Some (JStr (pe_messageId env))), (''resolved'', Some (JBool sameOrigin))] in
      ([Emit k MessageAck (object
          [(''message_id'', Some (JStr (pe_messageId env))),
           (''conversation_id'', Some (JStr (pe_conversationId env))),
           (''server_seq'', Some (jint (if sameOrigin then sm_serverSeq (the original) else 0))),
           (''duplicate'', Some (JBool True)),
           (''recipient_device_id'', map_option JStr (pe_recipientDeviceId env))])],
       sv'))"

definition send_fresh :: "server \<Rightarrow> env \<Rightarrow> string \<Rightarrow> session \<Rightarrow> parsed_envelope \<Rightarrow> effect list \<times> server" where
  "send_fresh sv e k ses env =
     (let conversationId = pe_conversationId env;
          (serverSeq, store1) = nextSeq (sv_store sv) conversationId;
          receivedAtMs = en_now e;
          store2 = persistMessage store1 (stored_of ses env serverSeq receivedAtMs);
          wire = message_wire ses env serverSeq receivedAtMs;
          (logSeq, store3) = appendEvent store2
            \<lparr>ev_conversationId = conversationId, ev_type = EvMessageNew, ev_serverSeq = serverSeq,
             ev_atMs = receivedAtMs, ev_payload = wire\<rparr>;
          sv1 = join_room k (conv_room conversationId) (sv\<lparr>sv_store := store3\<rparr>);
          sv2 = log_to sv1 e ''message.accepted''
            [(''account_id'', Some (JStr (ses_accountId ses))), (''device_id'', Some (JStr (ses_deviceId ses))),
             (''conversation_id'', Some (JStr conversationId)), (''message_id'', Some (JStr (pe_messageId env))),
             (''server_seq'', Some (jint serverSeq)), (''log_seq'', Some (jint logSeq)),
             (''bytes'', Some (jnat (length (pe_ciphertextBase64 env))))] in
      ([Join k (conv_room conversationId),
        Emit k MessageAck (object
          [(''message_id'', Some (JStr (pe_messageId env))), (''conversation_id'', Some (JStr conversationId)),
           (''server_seq'', Some (jint serverSeq)), (''log_seq'', Some (jint logSeq)),
           (''recipient_device_id'', map_option JStr (pe_recipientDeviceId env))]),
        Broadcast (case pe_recipientDeviceId env of
              Some d \<Rightarrow> device_room d
            | None \<Rightarrow> conv_room conversationId)
          (Some k) MessageNew (spread wire [(''log_seq'', jint logSeq)])],
       sv2))"

definition onMessageSend :: "server \<Rightarrow> env \<Rightarrow> string \<Rightarrow> socket_data \<Rightarrow> payload \<Rightarrow> effect list \<times> server" where
  "onMessageSend sv e k data payload =
     (let messageId = map_option JStr (as_string (payload_field payload ''message_id'')) in
      case admit sv e k data MessageSend RMessage [(''message_id'', messageId)] of
        Inl early \<Rightarrow> early
      | Inr (ses, sv1) \<Rightarrow>
          (case parseMessageEnvelope (sv_config sv1) payload ses of
             ParseThrows \<Rightarrow> ([RejectedPromise], sv1)
           | ParseError code \<Rightarrow> ([system_error k code MessageSend [(''message_id'', messageId)]], sv1)
           | Parsed env \<Rightarrow>
               if canSendMessage isConversationMember (sv_directory sv1) (Some ses) (pe_conversationId env) \<noteq> AuthzAllow
               then ([system_error k Forbidden MessageSend [(''message_id'', Some (JStr (pe_messageId env)))]], sv1)
               else
                 (let (fresh, dedup') = accept (sv_dedup sv1) (dedup_key ses env);
                      sv2 = sv1\<lparr>sv_dedup := dedup'\<rparr> in
                  if \<not> fresh then send_duplicate sv2 e k ses env else send_fresh sv2 e k ses env)))"

section \<open>Typing\<close>

definition onMessageTyping :: "server \<Rightarrow> env \<Rightarrow> string \<Rightarrow> socket_data \<Rightarrow> payload \<Rightarrow> effect list \<times> server" where
  "onMessageTyping sv e k data payload =
     (case admit sv e k data MessageTyping RTyping [] of
        Inl early \<Rightarrow> early
      | Inr (ses, sv1) \<Rightarrow>
          (case as_string (payload_field payload ''conversation_id'') of
             None \<Rightarrow> ([system_error k PayloadInvalid MessageTyping []], sv1)
           | Some conversationId \<Rightarrow>
               if length conversationId = 0 then ([system_error k PayloadInvalid MessageTyping []], sv1)
               else if canReadConversation isConversationMember (sv_directory sv1) (Some ses) conversationId \<noteq> AuthzAllow
               then ([system_error k Forbidden MessageTyping []], sv1)
               else
                 ([Join k (conv_room conversationId),
                   Broadcast (conv_room conversationId) (Some k) MessageTyping (object
                     [(''conversation_id'', Some (JStr conversationId)),
                      (''account_id'', Some (JStr (ses_accountId ses))),
                      (''device_id'', Some (JStr (ses_deviceId ses)))])],
                  join_room k (conv_room conversationId) sv1)))"

section \<open>Receipts\<close>

text \<open>
  The last part of both receipt handlers: the event is appended and broadcast with its log
  number.
\<close>

definition publish_receipt ::
  "server \<Rightarrow> string \<Rightarrow> string \<Rightarrow> event_type \<Rightarrow> socket_event \<Rightarrow> int \<Rightarrow> int \<Rightarrow> fields \<Rightarrow> effect list \<times> server" where
  "publish_receipt sv k conversationId type event serverSeq atMs receipt =
     (let (logSeq, store') = appendEvent (sv_store sv)
            \<lparr>ev_conversationId = conversationId, ev_type = type, ev_serverSeq = serverSeq, ev_atMs = atMs,
             ev_payload = receipt\<rparr> in
      ([Broadcast (conv_room conversationId) (Some k) event (spread receipt [(''log_seq'', jint logSeq)])],
       sv\<lparr>sv_store := store'\<rparr>))"

definition onMessageDelivered :: "server \<Rightarrow> env \<Rightarrow> string \<Rightarrow> socket_data \<Rightarrow> payload \<Rightarrow> effect list \<times> server" where
  "onMessageDelivered sv e k data payload =
     (case admit sv e k data MessageDelivered RMessage [] of
        Inl early \<Rightarrow> early
      | Inr (ses, sv1) \<Rightarrow>
          (let rec = payloadObject payload in
           case (as_string (map_get rec ''conversation_id''), as_string (map_get rec ''message_id'')) of
             (Some conversationId, Some messageId) \<Rightarrow>
               if canReadConversation isConversationMember (sv_directory sv1) (Some ses) conversationId \<noteq> AuthzAllow
               then ([system_error k Forbidden MessageDelivered []], sv1)
               else
                 (case findMessage (sv_store sv1) messageId of
                    None \<Rightarrow> ([system_error k PayloadInvalid MessageDelivered []], sv1)
                  | Some original \<Rightarrow>
                      if sm_conversationId original \<noteq> conversationId
                      then ([system_error k PayloadInvalid MessageDelivered []], sv1)
                      else if sm_senderAccountId original = ses_accountId ses
                      then ([system_error k PayloadInvalid MessageDelivered []], sv1)
                      else
                        publish_receipt sv1 k conversationId EvMessageDelivered MessageDelivered
                          (sm_serverSeq original) (en_now e) (object
                            [(''conversation_id'', Some (JStr conversationId)),
                             (''message_id'', Some (JStr messageId)),
                             (''by_account_id'', Some (JStr (ses_accountId ses))),
                             (''by_device_id'', Some (JStr (ses_deviceId ses))),
                             (''server_seq'', Some (jint (sm_serverSeq original))),
                             (''at_ms'', Some (jint (en_now e)))]))
           | _ \<Rightarrow> ([system_error k PayloadInvalid MessageDelivered []], sv1)))"

text \<open>
  The read mark: the requested value rounded down, or the latest number when it is not a
  finite number, clamped to \<open>0 .. latest\<close>.
\<close>

definition read_mark :: "json option \<Rightarrow> int \<Rightarrow> int" where
  "read_mark lastReadSeqRaw latest =
     (let requested = (case as_number lastReadSeqRaw of Some (Finite x) \<Rightarrow> \<lfloor>x\<rfloor> | _ \<Rightarrow> latest) in
      max 0 (min requested latest))"

definition onMessageRead :: "server \<Rightarrow> env \<Rightarrow> string \<Rightarrow> socket_data \<Rightarrow> payload \<Rightarrow> effect list \<times> server" where
  "onMessageRead sv e k data payload =
     (case admit sv e k data MessageRead RMessage [] of
        Inl early \<Rightarrow> early
      | Inr (ses, sv1) \<Rightarrow>
          (let rec = payloadObject payload in
           case as_string (map_get rec ''conversation_id'') of
             None \<Rightarrow> ([system_error k PayloadInvalid MessageRead []], sv1)
           | Some conversationId \<Rightarrow>
               if length conversationId = 0 then ([system_error k PayloadInvalid MessageRead []], sv1)
               else if canReadConversation isConversationMember (sv_directory sv1) (Some ses) conversationId \<noteq> AuthzAllow
               then ([system_error k Forbidden MessageRead []], sv1)
               else
                 (let serverSeq = read_mark (map_get rec ''last_read_seq'') (latestSeq (sv_store sv1) conversationId) in
                  publish_receipt sv1 k conversationId EvMessageRead MessageRead serverSeq (en_now e) (object
                    [(''conversation_id'', Some (JStr conversationId)),
                     (''by_account_id'', Some (JStr (ses_accountId ses))),
                     (''by_device_id'', Some (JStr (ses_deviceId ses))),
                     (''last_read_seq'', Some (jint serverSeq)),
                     (''at_ms'', Some (jint (en_now e)))]))))"

section \<open>Lemmas\<close>

text \<open>What an accepted envelope is: the payload's own strings, and the session's device.\<close>

lemma parse_Parsed:
  assumes "parseMessageEnvelope config payload ses = Parsed env"
  obtains rec where "payload = Some (JObj rec)" "containsPlaintextPayload rec = Some False"
    "map_get rec ''message_id'' = Some (JStr (pe_messageId env))"
    "map_get rec ''conversation_id'' = Some (JStr (pe_conversationId env))"
    "map_get rec ''ciphertext'' = Some (JStr (pe_ciphertextBase64 env))"
    "pe_senderDeviceId env = ses_deviceId ses"
    "int (length (pe_ciphertextBase64 env)) \<le> cf_maxCiphertextBase64Chars config"
    "pe_recipientDeviceId env = as_string (map_get rec ''recipient_device_id'')"
    "pe_recipientDeviceId env \<noteq> Some []"
proof -
  obtain rec where rec: "payload = Some (JObj rec)"
    using assms by (auto simp: parseMessageEnvelope_def split: option.splits json.splits)
  have cp: "containsPlaintextPayload rec = Some False"
  proof (cases "containsPlaintextPayload rec")
    case None
    with assms rec show ?thesis by (simp add: parseMessageEnvelope_def)
  next
    case (Some b)
    with assms rec show ?thesis by (cases b) (simp_all add: parseMessageEnvelope_def)
  qed
  obtain m c ct ht where strs: "map_get rec ''message_id'' = Some (JStr m)" "map_get rec ''conversation_id'' = Some (JStr c)"
    "map_get rec ''ciphertext'' = Some (JStr ct)" "map_get rec ''header_type'' = Some (JStr ht)"
  proof (cases "as_string (map_get rec ''message_id'') = None \<or> as_string (map_get rec ''conversation_id'') = None \<or>
      as_string (map_get rec ''ciphertext'') = None \<or> as_string (map_get rec ''header_type'') = None")
    case True
    with assms rec cp show thesis
      by (auto simp: parseMessageEnvelope_def Let_def split: option.splits simp del: as_string_Some)
  next
    case False
    then show thesis using that by (auto simp del: not_None_eq simp: not_None_eq [where x = "as_string v" for v])
  qed
  have "env = \<lparr>pe_messageId = m, pe_conversationId = c, pe_senderDeviceId = ses_deviceId ses,
      pe_ciphertextBase64 = ct, pe_headerType = ht,
      pe_clientTimestampMs = as_number (map_get rec ''client_ts_ms''),
      pe_recipientDeviceId = as_string (map_get rec ''recipient_device_id''),
      pe_messageType = as_string (map_get rec ''message_type''),
      pe_envelopeVersion = as_number (map_get rec ''envelope_version''),
      pe_expiresAtMs = as_number (map_get rec ''expires_at_ms'')\<rparr>"
    and "int (length ct) \<le> cf_maxCiphertextBase64Chars config"
    using assms by (simp_all add: parseMessageEnvelope_def rec cp strs Let_def split: if_splits)
  moreover have "map_get rec ''recipient_device_id'' \<noteq> Some (JStr [])"
  proof
    assume "map_get rec ''recipient_device_id'' = Some (JStr [])"
    with assms show False by (simp add: parseMessageEnvelope_def rec cp strs Let_def split: if_splits)
  qed
  ultimately show thesis
    using rec cp strs by (intro that [of rec]) simp_all
qed

lemma wire_author: "map_of (message_wire ses env n t) ''sender_account_id'' = Some (JStr (ses_accountId ses))"
  by (simp add: message_wire_def)

lemma read_mark_bounds: "0 \<le> latest \<Longrightarrow> 0 \<le> read_mark raw latest \<and> read_mark raw latest \<le> latest"
  by (simp add: read_mark_def Let_def)

lemma server_ok_send_fresh:
  assumes ok: "server_ok sv" and d: "map_get (sv_sockets sv) k = Some d" "sd_session d = Some ses"
    and mem: "isConversationMember (sv_directory sv) (pe_conversationId env) (ses_accountId ses)"
  shows "server_ok (snd (send_fresh sv e k ses env))"
proof -
  let ?c = "pe_conversationId env"
  obtain n st1 where n: "nextSeq (sv_store sv) ?c = (n, st1)" by fastforce
  let ?m = "stored_of ses env n (en_now e)"
  let ?ev = "\<lparr>ev_conversationId = ?c, ev_type = EvMessageNew, ev_serverSeq = n, ev_atMs = en_now e,
    ev_payload = message_wire ses env n (en_now e)\<rparr>"
  let ?st3 = "snd (appendEvent (persistMessage st1 ?m) ?ev)"
  have "server_ok (sv\<lparr>sv_store := ?st3\<rparr>)"
    using ok n mem by (intro server_ok_message [where c = ?c and n = n and a = "ses_accountId ses"])
      (simp_all add: stored_of_def wire_author)
  then have "server_ok (join_room k (conv_room ?c) (sv\<lparr>sv_store := ?st3\<rparr>))"
    using d mem by (intro server_ok_join [where d = d]) (simp_all add: room_granted_def)
  from server_ok_log [OF this, of "''message.accepted''"] show ?thesis
    by (simp add: send_fresh_def n Let_def case_prod_beta)
qed

lemma server_ok_send_duplicate: "server_ok sv \<Longrightarrow> server_ok (snd (send_duplicate sv e k ses env))"
  by (simp add: send_duplicate_def Let_def server_ok_log)

lemma server_ok_onMessageSend:
  assumes ok: "server_ok sv" and d: "map_get (sv_sockets sv) k = Some d"
  shows "server_ok (snd (onMessageSend sv e k d payload))"
proof (cases "admit sv e k d MessageSend RMessage
    [(''message_id'', map_option JStr (as_string (payload_field payload ''message_id'')))]")
  case (Inl r)
  then show ?thesis using admit_Inl [OF ok d] by (cases r) (auto simp: onMessageSend_def)
next
  case (Inr r)
  obtain ses sv1 where r: "r = (ses, sv1)" by (cases r)
  note adm = admit_Inr [OF ok d Inr [unfolded r]]
  obtain d' where d': "map_get (sv_sockets sv1) k = Some d'" "sd_session d' = Some ses" using adm(10) by blast
  have "server_ok (sv1\<lparr>sv_dedup := snd (accept (sv_dedup sv1) key)\<rparr>)" for key
    using adm(1) by (rule server_ok_dedup)
  then have "server_ok (snd (send_fresh (sv1\<lparr>sv_dedup := snd (accept (sv_dedup sv1) key)\<rparr>) e k ses env))"
    "server_ok (snd (send_duplicate (sv1\<lparr>sv_dedup := snd (accept (sv_dedup sv1) key)\<rparr>) e k ses env))"
    if "isConversationMember (sv_directory sv1) (pe_conversationId env) (ses_accountId ses)" for key env
    using that d' by (auto intro!: server_ok_send_fresh [where d = d'] server_ok_send_duplicate)
  with adm(1) show ?thesis
    by (auto simp: onMessageSend_def Let_def Inr r case_prod_beta canSendMessage_allow split: parse_result.splits)
qed

lemma server_ok_publish:
  assumes "server_ok sv" "type \<noteq> EvMessageNew" "0 \<le> n" "n \<le> latestSeq (sv_store sv) c"
    "map_of receipt ''by_account_id'' = Some (JStr a)" "isConversationMember (sv_directory sv) c a"
  shows "server_ok (snd (publish_receipt sv k c type event n t receipt))"
  using server_ok_receipt [OF assms(1), of "\<lparr>ev_conversationId = c, ev_type = type, ev_serverSeq = n, ev_atMs = t,
      ev_payload = receipt\<rparr>" c a] assms(2-6)
  by (simp add: publish_receipt_def case_prod_beta)

lemma server_ok_onMessageTyping:
  assumes ok: "server_ok sv" and d: "map_get (sv_sockets sv) k = Some d"
  shows "server_ok (snd (onMessageTyping sv e k d payload))"
proof (cases "admit sv e k d MessageTyping RTyping []")
  case (Inl r)
  then show ?thesis using admit_Inl [OF ok d] by (cases r) (auto simp: onMessageTyping_def)
next
  case (Inr r)
  obtain ses sv1 where r: "r = (ses, sv1)" by (cases r)
  note adm = admit_Inr [OF ok d Inr [unfolded r]]
  obtain d' where d': "map_get (sv_sockets sv1) k = Some d'" "sd_session d' = Some ses" using adm(10) by blast
  have "server_ok (join_room k (conv_room c) sv1)"
    if "isConversationMember (sv_directory sv1) c (ses_accountId ses)" for c
    using adm(1) d' that by (intro server_ok_join [where d = d']) (simp_all add: room_granted_def)
  with adm(1) show ?thesis
    by (auto simp: onMessageTyping_def Inr r canReadConversation_allow split: option.splits)
qed

lemma server_ok_onMessageDelivered:
  assumes ok: "server_ok sv" and d: "map_get (sv_sockets sv) k = Some d"
  shows "server_ok (snd (onMessageDelivered sv e k d payload))"
proof (cases "admit sv e k d MessageDelivered RMessage []")
  case (Inl r)
  then show ?thesis using admit_Inl [OF ok d] by (cases r) (auto simp: onMessageDelivered_def)
next
  case (Inr r)
  obtain ses sv1 where r: "r = (ses, sv1)" by (cases r)
  note adm = admit_Inr [OF ok d Inr [unfolded r]]
  have "message_ok (sv_directory sv1) (sv_store sv1) m" if "findMessage (sv_store sv1) i = Some m" for i m
    using server_okD(4) [OF adm(1)] that by (simp add: history_ok_def)
  then have seq: "0 \<le> sm_serverSeq m \<and> sm_serverSeq m \<le> latestSeq (sv_store sv1) (sm_conversationId m)"
    if "findMessage (sv_store sv1) i = Some m" for i m
    using that by (fastforce simp: message_ok_def)
  show ?thesis
    using adm(1) seq
    by (auto simp: onMessageDelivered_def Inr r Let_def canReadConversation_allow split: option.splits
        intro!: server_ok_publish [where a = "ses_accountId ses"])
qed

lemma server_ok_onMessageRead:
  assumes ok: "server_ok sv" and d: "map_get (sv_sockets sv) k = Some d"
  shows "server_ok (snd (onMessageRead sv e k d payload))"
proof (cases "admit sv e k d MessageRead RMessage []")
  case (Inl r)
  then show ?thesis using admit_Inl [OF ok d] by (cases r) (auto simp: onMessageRead_def)
next
  case (Inr r)
  obtain ses sv1 where r: "r = (ses, sv1)" by (cases r)
  note adm = admit_Inr [OF ok d Inr [unfolded r]]
  have "0 \<le> latestSeq (sv_store sv1) c" for c
    using server_okD(1) [OF adm(1)] by (simp add: stores_ok_def store_ok_def)
  then show ?thesis
    using adm(1) read_mark_bounds
    by (auto simp: onMessageRead_def Inr r Let_def canReadConversation_allow split: option.splits
        intro!: server_ok_publish [where a = "ses_accountId ses"])
qed

end
