(* ===== verification/Server_Sync.thy ===== *)
theory Server_Sync
  imports Server_Invariant
begin

text \<open>
  \<open>onSyncRequest\<close> of \<^verbatim>\<open>realtime_server.ts\<close>, and what following its cursors
  gives a client: \<open>fetch_pages\<close> is the client's loop, which asks again from the returned
  cursor while \<open>has_more\<close> is set.
\<close>

section \<open>Pages\<close>

definition readCursor :: "json option \<Rightarrow> int" where
  "readCursor raw =
     (case as_number raw of
        Some (Finite x) \<Rightarrow> if x > 0 then \<lfloor>x\<rfloor> else 0
      | _ \<Rightarrow> 0)"

record sync_page =
  sp_conversationId :: string
  sp_events :: "stored_event list"
  sp_cursor :: int
  sp_hasMore :: bool

text \<open>
  One turn of the loop over the conversations. \<open>None\<close> is the \<open>TypeError\<close> of
  \<open>events[events.length - 1]!.logSeq\<close> on a full page without events (page limit 0).
\<close>

definition serve_page :: "memory_store \<Rightarrow> int \<Rightarrow> string \<Rightarrow> int \<Rightarrow> sync_page option" where
  "serve_page st limit target cursor0 =
     (let events = eventsSince st target cursor0 limit;
          latest = latestLogSeq st target;
          pageIsFull = (int (length events) = limit) in
      if pageIsFull \<and> events = [] then None
      else Some
        \<lparr>sp_conversationId = target, sp_events = events,
         sp_cursor = (if pageIsFull then ev_logSeq (last events) else latest),
         sp_hasMore = pageIsFull\<rparr>)"

fun serve_pages :: "memory_store \<Rightarrow> int \<Rightarrow> (string \<times> int) list \<Rightarrow> string list \<Rightarrow> sync_page list \<times> bool" where
  "serve_pages st limit cursors [] = ([], True)"
| "serve_pages st limit cursors (target # targets) =
     (case serve_page st limit target (case map_get cursors target of None \<Rightarrow> 0 | Some n \<Rightarrow> n) of
        None \<Rightarrow> ([], False)
      | Some page \<Rightarrow>
          (let (pages, ok) = serve_pages st limit cursors targets in (page # pages, ok)))"

definition event_json :: "stored_event \<Rightarrow> json" where
  "event_json ev = JObj (spread
     [(''type'', JStr (event_type_name (ev_type ev))), (''log_seq'', jint (ev_logSeq ev)),
      (''server_seq'', jint (ev_serverSeq ev)), (''at_ms'', jint (ev_atMs ev))]
     (ev_payload ev))"

definition page_json :: "sync_page \<Rightarrow> json" where
  "page_json p = JObj
     [(''conversation_id'', JStr (sp_conversationId p)),
      (''events'', JArr (map event_json (sp_events p))),
      (''cursor'', jint (sp_cursor p)),
      (''has_more'', JBool (sp_hasMore p))]"

definition sync_response :: "sync_page list \<Rightarrow> fields" where
  "sync_response pages =
     [(''conversations'', JArr (map page_json pages)),
      (''has_more'', JBool (list_ex sp_hasMore pages))] @
     (case pages of
        [single] \<Rightarrow>
          [(''conversation_id'', JStr (sp_conversationId single)),
           (''events'', JArr (map event_json (sp_events single))),
           (''cursor'', jint (sp_cursor single))]
      | _ \<Rightarrow> [(''events'', JArr []), (''cursor'', jint 0)])"

section \<open>The handler\<close>

text \<open>
  The conversations to serve and their cursors: the named one, or every conversation of the
  account with the cursors the client supplied.
\<close>

definition sync_targets ::
  "server \<Rightarrow> session \<Rightarrow> fields \<Rightarrow> socket_error_code + (string list \<times> (string \<times> int) list)" where
  "sync_targets sv ses rec =
     (let conversationId = map_get rec ''conversation_id'' in
      if conversationId \<noteq> None \<and> as_string conversationId = None then Inl PayloadInvalid
      else (case as_string conversationId of
          Some (c # cs) \<Rightarrow>
            if canReadConversation isConversationMember (sv_directory sv) (Some ses) (c # cs) \<noteq> AuthzAllow
            then Inl Forbidden
            else Inr ([c # cs], [(c # cs, readCursor (map_get rec ''last_seq''))])
        | _ \<Rightarrow>
            (let targets = listConversationsForAccount (sv_directory sv) (ses_accountId ses);
                 supplied = payloadObject (map_get rec ''cursors'') in
             Inr (targets, fold (\<lambda>t. map_set t (readCursor (map_get supplied t))) targets []))))"

definition onSyncRequest :: "server \<Rightarrow> env \<Rightarrow> string \<Rightarrow> socket_data \<Rightarrow> payload \<Rightarrow> effect list \<times> server" where
  "onSyncRequest sv e k data payload =
     (case admit sv e k data SyncRequest RSync [] of
        Inl early \<Rightarrow> early
      | Inr (ses, sv1) \<Rightarrow>
          (case sync_targets sv1 ses (payloadObject payload) of
             Inl code \<Rightarrow> ([system_error k code SyncRequest []], sv1)
           | Inr (targets, cursors) \<Rightarrow>
               (let (pages, ok) = serve_pages (sv_store sv1) (cf_syncPageLimit (sv_config sv1)) cursors targets;
                    rooms = map (\<lambda>p. conv_room (sp_conversationId p)) pages;
                    sv2 = fold (join_room k) rooms sv1 in
                if \<not> ok then (map (Join k) rooms @ [RejectedPromise], sv2)
                else
                  (map (Join k) rooms @ [Emit k SyncResponse (sync_response pages)],
                   log_to sv2 e ''sync.served''
                     [(''account_id'', Some (JStr (ses_accountId ses))),
                      (''device_id'', Some (JStr (ses_deviceId ses))),
                      (''conversations'', Some (jnat (length pages))),
                      (''events'', Some (jnat (sum_list (map (\<lambda>p. length (sp_events p)) pages))))]))))"

section \<open>What a client asks for\<close>

text \<open>
  The two forms of a request, read from the payload: one conversation by its name, or every
  conversation of the account; and the number it gives for a conversation.
\<close>

definition asked_conversations :: "memory_directory \<Rightarrow> string \<Rightarrow> payload \<Rightarrow> string list" where
  "asked_conversations dir account payload =
     (case payload_field payload ''conversation_id'' of
        Some (JStr (c # cs)) \<Rightarrow> [c # cs]
      | _ \<Rightarrow> listConversationsForAccount dir account)"

definition asked_cursor :: "payload \<Rightarrow> string \<Rightarrow> json option" where
  "asked_cursor payload conv =
     (case payload_field payload ''conversation_id'' of
        Some (JStr (c # cs)) \<Rightarrow> payload_field payload ''last_seq''
      | _ \<Rightarrow> payload_field (payload_field payload ''cursors'') conv)"

text \<open>
  The number of events a cursor leaves behind: as many as the whole part of a positive number,
  none for anything else.
\<close>

definition leaves_behind :: "json option \<Rightarrow> int \<Rightarrow> bool" where
  "leaves_behind raw n \<longleftrightarrow>
     (\<forall>x. raw = Some (JNum (Finite x)) \<and> 0 < x \<longrightarrow> of_int n \<le> x \<and> x < of_int n + 1) \<and>
     ((\<forall>x. raw = Some (JNum (Finite x)) \<longrightarrow> x \<le> 0) \<longrightarrow> n = 0)"

section \<open>Lemmas\<close>

lemma readCursor_leaves: "leaves_behind raw (readCursor raw)"
  by (auto simp: leaves_behind_def readCursor_def of_int_floor_le split: option.splits js_number.splits)
    linarith

lemma readCursor_nonneg: "0 \<le> readCursor raw"
  by (auto simp: readCursor_def split: option.splits js_number.splits)

lemma serve_pages_members:
  "serve_pages st limit cursors targets = (pages, ok) \<Longrightarrow> p \<in> set pages \<Longrightarrow>
   sp_conversationId p \<in> set targets \<and>
   serve_page st limit (sp_conversationId p)
     (case map_get cursors (sp_conversationId p) of None \<Rightarrow> 0 | Some n \<Rightarrow> n) = Some p"
proof (induction targets arbitrary: pages ok)
  case Nil
  then show ?case by simp
next
  case (Cons t targets)
  obtain pages' ok' where rest: "serve_pages st limit cursors targets = (pages', ok')" by fastforce
  have conv: "sp_conversationId q = t" if "serve_page st limit t n = Some q" for q n
    using that by (auto simp: serve_page_def Let_def split: if_splits)
  show ?case
  proof (cases "serve_page st limit t (case map_get cursors t of None \<Rightarrow> 0 | Some n \<Rightarrow> n)")
    case None
    with Cons.prems show ?thesis by simp
  next
    case (Some q)
    with Cons.prems rest have "p = q \<or> p \<in> set pages'" by auto
    then show ?thesis
      using Cons.IH [OF rest] Some conv [OF Some] by auto
  qed
qed

text \<open>With a positive page limit every target is served.\<close>

lemma serve_pages_all:
  assumes "0 < limit"
  shows "\<exists>pages. serve_pages st limit cursors targets = (pages, True) \<and> map sp_conversationId pages = targets"
proof (induction targets)
  case Nil
  then show ?case by simp
next
  case (Cons t targets)
  then show ?case using assms by (auto simp: serve_page_def Let_def)
qed

lemma sync_targets_readable:
  assumes "directory_ok (sv_directory sv)" and "sync_targets sv ses rec = Inr (targets, cursors)" and "t \<in> set targets"
  shows "isConversationMember (sv_directory sv) t (ses_accountId ses)"
  using assms
  by (auto simp: sync_targets_def Let_def canReadConversation_allow memory_directory.conversations_member
      split: if_splits option.splits list.splits)

lemma fold_cursor:
  "map_get (fold (\<lambda>t. map_set t (f t)) ts m) t = (if t \<in> set ts then Some (f t) else map_get m t)"
  by (induction ts arbitrary: m) auto

lemma sync_targets_cursors:
  assumes "sync_targets sv ses rec = Inr (targets, cursors)"
  shows "0 \<le> (case map_get cursors t of None \<Rightarrow> 0 | Some n \<Rightarrow> n)"
  using assms readCursor_nonneg
  by (auto simp: sync_targets_def Let_def fold_cursor split: if_splits option.splits list.splits)

lemma sync_targets_asked:
  assumes "sync_targets sv ses (payloadObject payload) = Inr (targets, cursors)"
  shows "targets = asked_conversations (sv_directory sv) (ses_accountId ses) payload"
    and "t \<in> set targets \<Longrightarrow> leaves_behind (asked_cursor payload t) (case map_get cursors t of None \<Rightarrow> 0 | Some n \<Rightarrow> n)"
  using assms readCursor_leaves
  by (auto simp: sync_targets_def asked_conversations_def asked_cursor_def Let_def fold_cursor
      split: if_splits option.splits list.splits json.splits)

lemma server_ok_onSyncRequest:
  assumes ok: "server_ok sv" and d: "map_get (sv_sockets sv) k = Some d"
  shows "server_ok (snd (onSyncRequest sv e k d payload))"
proof (cases "admit sv e k d SyncRequest RSync []")
  case (Inl r)
  then show ?thesis using admit_Inl [OF ok d] by (cases r) (auto simp: onSyncRequest_def)
next
  case (Inr r)
  obtain ses sv1 where r: "r = (ses, sv1)" by (cases r)
  note adm = admit_Inr [OF ok d Inr [unfolded r]]
  obtain d' where d': "map_get (sv_sockets sv1) k = Some d'" "sd_session d' = Some ses" using adm(10) by blast
  have dir: "directory_ok (sv_directory sv1)" using server_okD(1) [OF adm(1)] by (simp add: stores_ok_def)
  show ?thesis
  proof (cases "sync_targets sv1 ses (payloadObject payload)")
    case (Inl code)
    with adm(1) show ?thesis by (simp add: onSyncRequest_def Inr r)
  next
    case (Inr t)
    obtain targets cursors where t: "sync_targets sv1 ses (payloadObject payload) = Inr (targets, cursors)"
      using Inr by (cases t) simp
    obtain pages g where p: "serve_pages (sv_store sv1) (cf_syncPageLimit (sv_config sv1)) cursors targets = (pages, g)"
      by fastforce
    have "room_granted (sv_directory sv1) (sd_session d') r"
      if "r \<in> set (map (\<lambda>p. conv_room (sp_conversationId p)) pages)" for r
      using that d'(2) serve_pages_members [OF p] sync_targets_readable [OF dir t] by (auto simp: room_granted_def)
    then have joined: "server_ok (fold (join_room k) (map (\<lambda>p. conv_room (sp_conversationId p)) pages) sv1)"
      using adm(1) d'(1) by (intro server_ok_fold_join)
    with server_ok_log [OF joined, of "''sync.served''"] show ?thesis
      by (simp add: onSyncRequest_def \<open>admit sv e k d SyncRequest RSync [] = Inr r\<close> r t p Let_def)
  qed
qed

section \<open>Following the cursors\<close>

definition page_of ::
  "('s \<Rightarrow> string \<Rightarrow> int \<Rightarrow> int \<Rightarrow> stored_event list) \<Rightarrow> ('s \<Rightarrow> string \<Rightarrow> int) \<Rightarrow> 's \<Rightarrow> string \<Rightarrow> int \<Rightarrow> int
   \<Rightarrow> stored_event list \<times> int \<times> bool" where
  "page_of since latest s c limit k =
     (let events = since s c k limit; full = (int (length events) = limit) in
      (events, if full then ev_logSeq (last events) else latest s c, full))"

fun fetch_pages ::
  "('s \<Rightarrow> string \<Rightarrow> int \<Rightarrow> int \<Rightarrow> stored_event list) \<Rightarrow> ('s \<Rightarrow> string \<Rightarrow> int) \<Rightarrow> nat \<Rightarrow> 's \<Rightarrow> string \<Rightarrow> int \<Rightarrow> int
   \<Rightarrow> stored_event list \<times> int \<times> bool" where
  "fetch_pages since latest 0 s c limit k = ([], k, True)"
| "fetch_pages since latest (Suc fuel) s c limit k =
     (let (events, k', more) = page_of since latest s c limit k in
      if more then (let (rest, r) = fetch_pages since latest fuel s c limit k' in (events @ rest, r))
      else (events, k', False))"

context event_log
begin

text \<open>
  The pages put together are the rest of the log, without a gap or a repetition, and the loop
  ends: one request more than there are events left is always enough.
\<close>

lemma pages_complete:
  assumes "ok s" "0 \<le> k" "0 < n" "length (drop (nat k) (log_of s c)) < fuel"
  shows "fetch_pages since latest fuel s c n k = (drop (nat k) (log_of s c), latest s c, False)"
  using assms(2,4)
proof (induction fuel arbitrary: k)
  case 0
  then show ?case by simp
next
  case (Suc fuel)
  let ?es = "since s c k n"
  have es: "?es = take (nat n) (drop (nat k) (log_of s c))"
    using since_rest [OF assms(1) Suc.prems(1)] assms(3) by simp
  show ?case
  proof (cases "int (length ?es) = n")
    case True
    then have ne: "?es \<noteq> []" using assms(3) by auto
    then have cur: "ev_logSeq (last ?es) = k + n"
      using page_cursor [OF assms(1) Suc.prems(1) assms(3)] True by simp
    have k': "nat (k + n) = nat n + nat k" using Suc.prems(1) assms(3) by simp
    have "0 < length ?es" using ne by simp
    then have "length (drop (nat (k + n)) (log_of s c)) < fuel"
      using Suc.prems(2) assms(3) unfolding es k' by simp
    then have "fetch_pages since latest fuel s c n (k + n) = (drop (nat (k + n)) (log_of s c), latest s c, False)"
      using Suc.prems(1) assms(3) by (intro Suc.IH) simp_all
    then show ?thesis
      using True cur es by (simp add: page_of_def k' flip: drop_drop)
  next
    case False
    then have "?es = drop (nat k) (log_of s c)" using es assms(3) by auto
    with False show ?thesis by (simp add: page_of_def)
  qed
qed

end

text \<open>A served page is the page the loop looks at.\<close>

lemma serve_page_of:
  assumes "serve_page st limit c k = Some p"
  shows "page_of eventsSince latestLogSeq st c limit k = (sp_events p, sp_cursor p, sp_hasMore p)"
  using assms by (auto simp: serve_page_def page_of_def Let_def split: if_splits)

text \<open>A page in terms of the log: what it holds, and where it leaves the client.\<close>

definition page_from :: "memory_store \<Rightarrow> int \<Rightarrow> int \<Rightarrow> sync_page \<Rightarrow> bool" where
  "page_from st limit n p \<longleftrightarrow>
     (let rest = drop (nat n) (log_of st (sp_conversationId p)) in
      sp_events p = take (nat limit) rest \<and>
      (if sp_hasMore p then sp_cursor p = n + limit
       else sp_events p = rest \<and> sp_cursor p = latestLogSeq st (sp_conversationId p)))"

lemma served_page:
  assumes "store_ok st" "0 < limit" "0 \<le> n" "serve_page st limit c n = Some p"
  shows "page_from st limit n p"
proof -
  have c: "sp_conversationId p = c" and more: "sp_hasMore p \<longleftrightarrow> int (length (eventsSince st c n limit)) = limit"
    and ev: "sp_events p = eventsSince st c n limit"
    and cur: "sp_cursor p = (if sp_hasMore p then ev_logSeq (last (eventsSince st c n limit)) else latestLogSeq st c)"
    using assms(4) by (auto simp: serve_page_def Let_def split: if_splits)
  have rest: "eventsSince st c n limit = take (nat limit) (drop (nat n) (log_of st c))"
    using memory_log.since_rest [OF assms(1,3)] assms(2) by simp
  show ?thesis
  proof (cases "sp_hasMore p")
    case True
    then have "eventsSince st c n limit \<noteq> []" using more assms(2) by auto
    from memory_log.page_cursor [OF assms(1,3,2) this] True more show ?thesis
      by (simp add: page_from_def c ev cur rest Let_def)
  next
    case False
    then have "take (nat limit) (drop (nat n) (log_of st c)) = drop (nat n) (log_of st c)"
      using more rest assms(2) by auto
    with False show ?thesis by (simp add: page_from_def c ev cur rest Let_def)
  qed
qed

end
