(* ===== verification/Server_Presence_Calls.thy ===== *)
theory Server_Presence_Calls
  imports Server_Auth
begin

text \<open>
  \<open>onPresenceUpdate\<close> and \<open>onCallSignal\<close> of \<^verbatim>\<open>realtime_server.ts\<close>.
\<close>

section \<open>Presence\<close>

definition parse_status :: "json option \<Rightarrow> presence_status option" where
  "parse_status v =
     (if v = Some (JStr ''online'') then Some Online
      else if v = Some (JStr ''offline'') then Some Offline else None)"

primrec status_name :: "presence_status \<Rightarrow> string" where
  "status_name Online = ''online''"
| "status_name Offline = ''offline''"

definition last_seen :: "json option \<Rightarrow> int \<Rightarrow> js_number" where
  "last_seen lastSeenRaw now =
     (case as_number lastSeenRaw of Some x \<Rightarrow> if Finite 0 < x then x else js_int now | None \<Rightarrow> js_int now)"

definition onPresenceUpdate :: "server \<Rightarrow> env \<Rightarrow> string \<Rightarrow> socket_data \<Rightarrow> payload \<Rightarrow> effect list \<times> server" where
  "onPresenceUpdate sv e k data payload =
     (case admit sv e k data PresenceUpdate RPresence [] of
        Inl early \<Rightarrow> early
      | Inr (ses, sv1) \<Rightarrow>
          (let rec = payloadObject payload in
           case parse_status (map_get rec ''status'') of
             None \<Rightarrow> ([system_error k PayloadInvalid PresenceUpdate []], sv1)
           | Some status \<Rightarrow>
               (let lastSeenMs = last_seen (map_get rec ''last_seen_ms'') (en_now e);
                    sv2 = sv1\<lparr>sv_store := setPresence (sv_store sv1)
                      \<lparr>pr_accountId = ses_accountId ses, pr_status = status, pr_lastSeenMs = lastSeenMs\<rparr>\<rparr>;
                    sv3 = log_to sv2 e ''presence.update''
                      [(''account_id'', Some (JStr (ses_accountId ses))),
                       (''status'', Some (JStr (status_name status)))] in
                (presence_changed sv3 (ses_accountId ses) (status_name status) lastSeenMs, sv3))))"

section \<open>Call signaling\<close>

text \<open>\<open>const { peer_account_id, from_account_id, from_device_id, ...signal } = record\<close>.\<close>

definition strip_identity :: "fields \<Rightarrow> fields" where
  "strip_identity rec =
     filter (\<lambda>(key, v). key \<notin> {''peer_account_id'', ''from_account_id'', ''from_device_id''}) rec"

definition onCallSignal ::
  "server \<Rightarrow> env \<Rightarrow> string \<Rightarrow> socket_data \<Rightarrow> socket_event \<Rightarrow> payload \<Rightarrow> effect list \<times> server" where
  "onCallSignal sv e k data event payload =
     (case admit sv e k data event RSignaling [] of
        Inl early \<Rightarrow> early
      | Inr (ses, sv1) \<Rightarrow>
          (let rec = payloadObject payload in
           case as_string (map_get rec ''peer_account_id'') of
             None \<Rightarrow> ([system_error k PayloadInvalid event []], sv1)
           | Some peerAccountId \<Rightarrow>
               if length peerAccountId = 0 then ([system_error k PayloadInvalid event []], sv1)
               else if canSignalCall hasRelationship (sv_directory sv1) (Some ses) peerAccountId \<noteq> AuthzAllow
               then ([system_error k Forbidden event []], sv1)
               else
                 ([Broadcast (account_room peerAccountId) None event (spread
                     [(''from_account_id'', JStr (ses_accountId ses)), (''from_device_id'', JStr (ses_deviceId ses))]
                     (strip_identity rec))],
                  sv1)))"

section \<open>Lemmas\<close>

text \<open>The identity of a relayed signal is the server's, whatever the client put in.\<close>

lemma signal_identity:
  "map_of (spread [(''from_account_id'', a), (''from_device_id'', d)] (strip_identity rec)) ''from_account_id'' = Some a"
  "map_of (spread [(''from_account_id'', a), (''from_device_id'', d)] (strip_identity rec)) ''from_device_id'' = Some d"
  "map_of (spread [(''from_account_id'', a), (''from_device_id'', d)] (strip_identity rec)) ''peer_account_id'' = None"
proof -
  have none: "map_of (rev (strip_identity rec)) key = None"
    if "key \<in> {''peer_account_id'', ''from_account_id'', ''from_device_id''}" for key
    using that by (auto simp: map_of_eq_None_iff strip_identity_def)
  show "map_of (spread [(''from_account_id'', a), (''from_device_id'', d)] (strip_identity rec)) ''from_account_id'' = Some a"
    "map_of (spread [(''from_account_id'', a), (''from_device_id'', d)] (strip_identity rec)) ''from_device_id'' = Some d"
    "map_of (spread [(''from_account_id'', a), (''from_device_id'', d)] (strip_identity rec)) ''peer_account_id'' = None"
    by (simp_all add: map_of_spread map_add_def none)
qed

lemma server_ok_onPresenceUpdate:
  assumes ok: "server_ok sv" and d: "map_get (sv_sockets sv) k = Some d"
  shows "server_ok (snd (onPresenceUpdate sv e k d payload))"
proof (cases "admit sv e k d PresenceUpdate RPresence []")
  case (Inl r)
  then show ?thesis using admit_Inl [OF ok d] by (cases r) (auto simp: onPresenceUpdate_def)
next
  case (Inr r)
  obtain ses sv1 where r: "r = (ses, sv1)" by (cases r)
  note adm = admit_Inr [OF ok d Inr [unfolded r]]
  have "server_ok (log_to (sv1\<lparr>sv_store := setPresence (sv_store sv1) p\<rparr>) e ''presence.update'' fs)" for p fs
    using adm(1) by (intro server_ok_log server_ok_presence) simp_all
  with adm(1) show ?thesis
    by (auto simp: onPresenceUpdate_def Inr r Let_def split: option.splits)
qed

lemma server_ok_onCallSignal:
  assumes ok: "server_ok sv" and d: "map_get (sv_sockets sv) k = Some d"
  shows "server_ok (snd (onCallSignal sv e k d event payload))"
proof (cases "admit sv e k d event RSignaling []")
  case (Inl r)
  then show ?thesis using admit_Inl [OF ok d] by (cases r) (auto simp: onCallSignal_def)
next
  case (Inr r)
  obtain ses sv1 where r: "r = (ses, sv1)" by (cases r)
  note adm = admit_Inr [OF ok d Inr [unfolded r]]
  then show ?thesis
    by (auto simp: onCallSignal_def Inr r Let_def split: option.splits)
qed

end
