(* ===== verification/Server_Admin.thy ===== *)
theory Server_Admin
  imports Server_Invariant
begin

text \<open>
  The admin operations of \<^verbatim>\<open>realtime_server.ts\<close>: registering and revoking devices,
  revoking a session, seeding memberships, relationships and presence audiences.
\<close>

definition adminRegisterDevice ::
  "node_crypto \<Rightarrow> server \<Rightarrow> string \<Rightarrow> string \<Rightarrow> string \<Rightarrow> string \<Rightarrow> server" where
  "adminRegisterDevice nc sv accountId deviceId novaId publicKeyBase64 =
     (let rec = \<lparr>dev_accountId = accountId, dev_deviceId = deviceId, dev_novaId = novaId,
            dev_ed25519PublicKey = nc_fromBase64 nc publicKeyBase64, dev_status = Active\<rparr> in
      sv\<lparr>sv_devices := register_device (sv_devices sv) rec (Some Active),
         sv_directory := upsertDevice (sv_directory sv) rec\<rparr>)"

text \<open>Returns \<open>{ revoked, sessionsKilled }\<close>.\<close>

definition adminRevokeDevice :: "server \<Rightarrow> string \<Rightarrow> (bool \<times> nat) \<times> effect list \<times> server" where
  "adminRevokeDevice sv deviceId =
     (let rec = byDeviceId (sv_devices sv) deviceId;
          (revokedLocally, devices') = revoke_device (sv_devices sv) deviceId;
          directory' = snd (revokeDevice (sv_directory sv) deviceId);
          (doomed, sessions') = revokeByDevice (sv_sessions sv) deviceId;
          notice = (if rec \<noteq> None \<or> revokedLocally
            then [Broadcast (device_room deviceId) None DeviceRevokedEvent (object
                   [(''device_id'', Some (JStr deviceId)),
                    (''account_id'', Some (JStr (case rec of None \<Rightarrow> [] | Some r \<Rightarrow> dev_accountId r)))])]
            else []) in
      ((revokedLocally, length doomed),
       notice @ [DisconnectRoom (device_room deviceId)],
       sv\<lparr>sv_devices := devices', sv_directory := directory', sv_sessions := sessions'\<rparr>))"

definition adminRevokeSession :: "server \<Rightarrow> string \<Rightarrow> bool \<times> effect list \<times> server" where
  "adminRevokeSession sv sessionId =
     (case revoke_session (sv_sessions sv) sessionId of
        (None, sessions') \<Rightarrow> (False, [], sv\<lparr>sv_sessions := sessions'\<rparr>)
      | (Some ses, sessions') \<Rightarrow>
          (let sv' = sv\<lparr>sv_sessions := sessions'\<rparr> in
           (True, disconnectSocketKey sv' (ses_socketKey ses) SessionExpired, sv')))"

definition adminAddConversationMember :: "server \<Rightarrow> string \<Rightarrow> string \<Rightarrow> server" where
  "adminAddConversationMember sv conversationId accountId =
     sv\<lparr>sv_directory := addConversationMember (sv_directory sv) conversationId accountId\<rparr>"

definition adminAddRelationship :: "server \<Rightarrow> string \<Rightarrow> string \<Rightarrow> server" where
  "adminAddRelationship sv a b = sv\<lparr>sv_directory := addRelationship (sv_directory sv) a b\<rparr>"

definition adminAllowPresence :: "server \<Rightarrow> string \<Rightarrow> string \<Rightarrow> server" where
  "adminAllowPresence sv subject viewer = sv\<lparr>sv_directory := allowPresence (sv_directory sv) subject viewer\<rparr>"

section \<open>Lemmas\<close>

lemma isActive_register:
  "isActive (register_device devs rec (Some Active)) i \<longleftrightarrow> i = dev_deviceId rec \<or> isActive devs i"
  by (auto simp: isActive_def register_device_def)

lemma isActive_revoke: "isActive (snd (revoke_device devs d)) i \<longleftrightarrow> i \<noteq> d \<and> isActive devs i"
  by (auto simp: isActive_def revoke_device_def split: option.splits)

lemma server_ok_devices:
  assumes "server_ok sv" and "devices_ok devs" and "sessions_live devs (sv_sessions sv)"
  shows "server_ok (sv\<lparr>sv_devices := devs\<rparr>)"
  using assms unfolding server_ok_def stores_ok_def by simp

lemma server_ok_adminRegisterDevice:
  assumes "server_ok sv" shows "server_ok (adminRegisterDevice nc sv a d n pk)"
proof -
  let ?rec = "\<lparr>dev_accountId = a, dev_deviceId = d, dev_novaId = n,
    dev_ed25519PublicKey = nc_fromBase64 nc pk, dev_status = Active\<rparr>"
  note st = server_okD(1) [OF assms]
  have "server_ok (sv\<lparr>sv_devices := register_device (sv_devices sv) ?rec (Some Active)\<rparr>)"
    using assms st server_okD(2) [OF assms]
    by (intro server_ok_devices devices_ok_register) (auto simp: stores_ok_def sessions_live_def isActive_register)
  from server_ok_directory [OF this, of "upsertDevice (sv_directory sv) ?rec"] st show ?thesis
    by (simp add: adminRegisterDevice_def Let_def stores_ok_def directory_ok_upsertDevice)
qed

text \<open>Revoking a device: no session of it is left.\<close>

lemma revokeByDevice_get:
  assumes "sessions_ok reg"
  shows "map_get (sr_sessions (snd (revokeByDevice reg d))) i =
    (case map_get (sr_sessions reg) i of None \<Rightarrow> None
     | Some s \<Rightarrow> if ses_deviceId s = d then None else Some s)"
  using evict_get [OF assms] by (simp add: revokeByDevice_evict)

lemma adminRevokeDevice_state:
  "snd (snd (adminRevokeDevice sv d)) = sv\<lparr>sv_devices := snd (revoke_device (sv_devices sv) d),
     sv_directory := snd (revokeDevice (sv_directory sv) d), sv_sessions := snd (revokeByDevice (sv_sessions sv) d)\<rparr>"
  by (simp add: adminRevokeDevice_def Let_def case_prod_beta)

lemma server_ok_adminRevokeDevice:
  assumes "server_ok sv" shows "server_ok (snd (snd (adminRevokeDevice sv d)))"
proof -
  note st = server_okD(1) [OF assms]
  have sess: "sessions_ok (sv_sessions sv)" using st by (simp add: stores_ok_def)
  have live: "sessions_live (snd (revoke_device (sv_devices sv) d)) (snd (revokeByDevice (sv_sessions sv) d))"
    using server_okD(2) [OF assms] unfolding sessions_live_def
    by (auto simp: revokeByDevice_get [OF sess] isActive_revoke split: option.splits if_splits)
  have "server_ok (sv\<lparr>sv_directory := snd (revokeDevice (sv_directory sv) d)\<rparr>)"
    using assms st by (intro server_ok_directory) (simp_all add: stores_ok_def directory_ok_revokeDevice)
  moreover have "sessions_bound (sv_sockets sv) (snd (revokeByDevice (sv_sessions sv) d))"
    using server_okD(7) [OF assms] by (rule sessions_bound_shrink)
      (auto simp: map_le_def revokeByDevice_get [OF sess] split: option.splits if_splits)
  ultimately show ?thesis
    using live sess devices_ok_revoke [of "sv_devices sv" d] sessions_ok_revokeByDevice [OF sess, of d]
    unfolding adminRevokeDevice_state server_ok_def stores_ok_def by simp
qed

lemma server_ok_adminRevokeSession:
  assumes "server_ok sv" shows "server_ok (snd (snd (adminRevokeSession sv i)))"
  using server_ok_revoke [OF assms, of i]
  by (auto simp: adminRevokeSession_def revoke_session_def Let_def split: option.splits)

lemma server_ok_adminDirectory:
  assumes "server_ok sv"
  shows "server_ok (adminAddConversationMember sv c a)" "server_ok (adminAddRelationship sv a b)"
    "server_ok (adminAllowPresence sv s v)"
proof -
  have dir: "directory_ok (sv_directory sv)" using server_okD(1) [OF assms] by (simp add: stores_ok_def)
  show "server_ok (adminAddConversationMember sv c a)" "server_ok (adminAddRelationship sv a b)"
    "server_ok (adminAllowPresence sv s v)"
    using dir unfolding adminAddConversationMember_def adminAddRelationship_def adminAllowPresence_def
    by (auto intro!: server_ok_directory [OF assms] inv_intros
        simp: memory_directory.member_add memory_directory.member_relate memory_directory.member_allow)
qed

end
