(* ===== verification/Server_Machine.thy ===== *)
theory Server_Machine
  imports Server_Auth Server_Messaging Server_Sync Server_Presence_Calls Server_Admin
begin

text \<open>
  The server as a state machine: the listeners \<open>onConnection\<close> installs
  (\<open>dispatch\<close>), everything that can happen to a server (\<open>input\<close>, \<open>react\<close>), the
  step relation and the reachable states, all of which satisfy \<open>server_ok\<close>.
\<close>

section \<open>Dispatch\<close>

text \<open>The events \<open>onConnection\<close> registers a listener for; any other is ignored.\<close>

datatype listener =
    LAuth | LSend | LTyping | LDelivered | LRead | LSync | LPresence | LCall socket_event

definition listeners :: "(string \<times> listener) list" where
  "listeners =
     [(event_name AuthResponse, LAuth), (event_name MessageSend, LSend), (event_name MessageTyping, LTyping),
      (event_name MessageDelivered, LDelivered), (event_name MessageRead, LRead),
      (event_name SyncRequest, LSync), (event_name PresenceUpdate, LPresence),
      (event_name CallOffer, LCall CallOffer), (event_name CallAnswer, LCall CallAnswer),
      (event_name CallIce, LCall CallIce), (event_name CallEnd, LCall CallEnd)]"

primrec run_listener ::
  "node_crypto \<Rightarrow> server \<Rightarrow> env \<Rightarrow> string \<Rightarrow> socket_data \<Rightarrow> payload \<Rightarrow> listener \<Rightarrow> effect list \<times> server" where
  "run_listener nc sv e k data payload LAuth = onAuthResponse nc sv e k data payload"
| "run_listener nc sv e k data payload LSend = onMessageSend sv e k data payload"
| "run_listener nc sv e k data payload LTyping = onMessageTyping sv e k data payload"
| "run_listener nc sv e k data payload LDelivered = onMessageDelivered sv e k data payload"
| "run_listener nc sv e k data payload LRead = onMessageRead sv e k data payload"
| "run_listener nc sv e k data payload LSync = onSyncRequest sv e k data payload"
| "run_listener nc sv e k data payload LPresence = onPresenceUpdate sv e k data payload"
| "run_listener nc sv e k data payload (LCall event) = onCallSignal sv e k data event payload"

definition dispatch :: "node_crypto \<Rightarrow> server \<Rightarrow> env \<Rightarrow> string \<Rightarrow> string \<Rightarrow> payload \<Rightarrow> effect list \<times> server" where
  "dispatch nc sv e k event payload =
     (case map_get (sv_sockets sv) k of
        None \<Rightarrow> ([], sv)
      | Some data \<Rightarrow>
          (case map_get listeners event of
             None \<Rightarrow> ([], sv)
           | Some l \<Rightarrow> run_listener nc sv e k data payload l))"

section \<open>Steps\<close>

datatype input =
    Connecting string handshake_info
  | Received string string payload
  | Disconnected string string
  | RegisterDevice string string string string
  | RevokeDevice string
  | RevokeSession string
  | AddConversationMember string string
  | AddRelationship string string
  | AllowPresence string string

primrec react :: "node_crypto \<Rightarrow> server \<Rightarrow> env \<Rightarrow> input \<Rightarrow> effect list \<times> server" where
  "react nc sv e (Connecting k h) =
     (case connectionMiddleware sv e h of
        (Some _, sv') \<Rightarrow> ([], sv')
      | (None, sv') \<Rightarrow> onConnection sv' e k h)"
| "react nc sv e (Received k event payload) = dispatch nc sv e k event payload"
| "react nc sv e (Disconnected k reason) = socket_disconnected sv e k reason"
| "react nc sv e (RegisterDevice a d n pk) = ([], adminRegisterDevice nc sv a d n pk)"
| "react nc sv e (RevokeDevice d) = snd (adminRevokeDevice sv d)"
| "react nc sv e (RevokeSession i) = snd (adminRevokeSession sv i)"
| "react nc sv e (AddConversationMember c a) = ([], adminAddConversationMember sv c a)"
| "react nc sv e (AddRelationship a b) = ([], adminAddRelationship sv a b)"
| "react nc sv e (AllowPresence s v) = ([], adminAllowPresence sv s v)"

text \<open>Socket.IO gives every connection a new id: no socket and no challenge has it yet.\<close>

definition fresh_socket :: "server \<Rightarrow> string \<Rightarrow> bool" where
  "fresh_socket sv k \<longleftrightarrow> map_get (sv_sockets sv) k = None \<and>
     list_all (\<lambda>(i, ch). ch_socketKey ch \<noteq> k) (cs_challenges (sv_challenges sv))"

text \<open>
  What an input asks of its surroundings: an event comes from a connected socket, and the
  random session id of the step is new.
\<close>

primrec possible :: "server \<Rightarrow> env \<Rightarrow> input \<Rightarrow> bool" where
  "possible sv e (Connecting k h) = fresh_socket sv k"
| "possible sv e (Received k event payload) = (map_has (sv_sockets sv) k \<and> fresh_session sv (en_sessionId e))"
| "possible sv e (Disconnected k reason) = map_has (sv_sockets sv) k"
| "possible sv e (RegisterDevice a d n pk) = True"
| "possible sv e (RevokeDevice d) = True"
| "possible sv e (RevokeSession i) = True"
| "possible sv e (AddConversationMember c a) = True"
| "possible sv e (AddRelationship a b) = True"
| "possible sv e (AllowPresence s v) = True"

inductive server_step :: "node_crypto \<Rightarrow> server \<Rightarrow> input \<Rightarrow> effect list \<Rightarrow> server \<Rightarrow> bool" for nc where
  step: "possible sv e i \<Longrightarrow> react nc sv e i = (effs, sv') \<Longrightarrow> server_step nc sv i effs sv'"

inductive reachable :: "node_crypto \<Rightarrow> realtime_config \<Rightarrow> server \<Rightarrow> bool" for nc config where
  start: "config_ok config \<Longrightarrow> reachable nc config (new_server config)"
| reach: "reachable nc config sv \<Longrightarrow> server_step nc sv i effs sv' \<Longrightarrow> reachable nc config sv'"

inductive_cases server_stepE: "server_step nc sv i effs sv'"

section \<open>The invariant holds in every reachable state\<close>

lemma server_ok_new: "config_ok config \<Longrightarrow> server_ok (new_server config)"
  unfolding server_ok_def stores_ok_def
  by (simp add: config_ok_def new_server_def inv_intros sessions_live_def sessions_bound_def challenges_fresh_def history_ok_def
      message_numbers_def new_session_registry_def new_challenge_store_def)
    (simp add: new_store_def findMessage_def latestSeq_def sessions_ok_def challenges_ok_def new_dedup_def)

lemma server_ok_middleware:
  assumes "server_ok sv" shows "server_ok (snd (connectionMiddleware sv e h))"
proof -
  let ?r = "cf_newConnectionsPerIpPerMinute (sv_config sv)"
  let ?b = "case map_get (sv_ipConnections sv) (clientIp h) of Some b \<Rightarrow> b | None \<Rightarrow> new_bucket (of_int ?r) (of_int ?r)"
  have st: "stores_ok sv" using assms by (rule server_okD)
  have "bucket_ok ?b"
    using st by (auto simp: stores_ok_def intro!: bucket_ok_new split: option.splits)
  then have "bucket_ok (snd (allow ?b (en_now e)))" by (rule bucket_ok_allow)
  then have "server_ok (sv\<lparr>sv_ipConnections := map_set (clientIp h) (snd (allow ?b (en_now e))) (sv_ipConnections sv)\<rparr>)"
    using assms unfolding server_ok_def stores_ok_def by simp
  then show ?thesis by (simp add: connectionMiddleware_def Let_def case_prod_beta)
qed

lemma middleware_frame:
  "sv_sockets (snd (connectionMiddleware sv e h)) = sv_sockets sv"
  "sv_challenges (snd (connectionMiddleware sv e h)) = sv_challenges sv"
  by (simp_all add: connectionMiddleware_def Let_def case_prod_beta)

lemma fresh_socketD:
  assumes "fresh_socket sv k"
  shows "map_get (sv_sockets sv) k = None"
    and "map_get (cs_challenges (sv_challenges sv)) i = Some ch \<Longrightarrow> ch_socketKey ch \<noteq> k"
  using assms by (auto simp: fresh_socket_def list_all_iff dest: map_of_SomeD)

lemma server_ok_listener:
  assumes "server_ok sv" "map_get (sv_sockets sv) k = Some d" "fresh_session sv (en_sessionId e)"
  shows "server_ok (snd (run_listener nc sv e k d payload l))"
  using assms
  by (cases l) (simp_all add: server_ok_onAuthResponse server_ok_onMessageSend server_ok_onMessageTyping
      server_ok_onMessageDelivered server_ok_onMessageRead server_ok_onSyncRequest
      server_ok_onPresenceUpdate server_ok_onCallSignal)

lemma server_ok_dispatch: "server_ok sv \<Longrightarrow> fresh_session sv (en_sessionId e) \<Longrightarrow> server_ok (snd (dispatch nc sv e k event payload))"
  by (auto simp: dispatch_def server_ok_listener split: option.splits)

lemma server_ok_react:
  assumes ok: "server_ok sv" and "possible sv e i"
  shows "server_ok (snd (react nc sv e i))"
proof (cases i)
  case (Connecting k h)
  obtain r sv' where m: "connectionMiddleware sv e h = (r, sv')" by fastforce
  then have "server_ok sv'" "sv_sockets sv' = sv_sockets sv" "sv_challenges sv' = sv_challenges sv"
    using server_ok_middleware [OF ok, of e h] middleware_frame [of sv e h] by simp_all
  then have "server_ok (snd (onConnection sv' e k h))"
    using fresh_socketD [of sv k] assms(2) Connecting by (intro server_ok_onConnection) simp_all
  with \<open>server_ok sv'\<close> m Connecting show ?thesis by (simp split: option.splits)
next
  case (Received k event payload)
  with assms show ?thesis by (simp add: server_ok_dispatch)
next
  case (Disconnected k reason)
  with assms obtain d where "map_get (sv_sockets sv) k = Some d" by auto
  with ok Disconnected show ?thesis by (simp add: server_ok_disconnected)
qed (use ok in \<open>simp_all add: server_ok_adminRegisterDevice server_ok_adminRevokeDevice
    server_ok_adminRevokeSession server_ok_adminDirectory\<close>)

lemma reachable_ok: "reachable nc config sv \<Longrightarrow> server_ok sv"
proof (induction rule: reachable.induct)
  case start
  then show ?case by (rule server_ok_new)
next
  case (reach sv i effs sv')
  from reach.hyps(2) show ?case
    by (rule server_stepE) (use server_ok_react [OF reach.IH] in \<open>metis snd_conv\<close>)
qed

text \<open>The state a run of inputs ends in.\<close>

fun run_inputs :: "node_crypto \<Rightarrow> server \<Rightarrow> (env \<times> input) list \<Rightarrow> server" where
  "run_inputs nc sv [] = sv"
| "run_inputs nc sv ((e, i) # is) = run_inputs nc (snd (react nc sv e i)) is"

fun possible_run :: "node_crypto \<Rightarrow> server \<Rightarrow> (env \<times> input) list \<Rightarrow> bool" where
  "possible_run nc sv [] = True"
| "possible_run nc sv ((e, i) # is) = (possible sv e i \<and> possible_run nc (snd (react nc sv e i)) is)"

lemma reachable_run:
  "reachable nc config sv \<Longrightarrow> possible_run nc sv is \<Longrightarrow> reachable nc config (run_inputs nc sv is)"
proof (induction "is" arbitrary: sv)
  case Nil
  then show ?case by simp
next
  case (Cons x xs)
  obtain e i where x: "x = (e, i)" by (cases x)
  have "reachable nc config (snd (react nc sv e i))"
    using Cons.prems x reach [OF Cons.prems(1) step [OF _ surjective_pairing]] by simp
  with Cons x show ?case by simp
qed

end
