(* ===== verification/Server_Guarantees.thy ===== *)
theory Server_Guarantees
  imports Server_Machine
begin

text \<open>
  What the handlers put out, case by case: the shape they share, the refusals of the guards,
  and for each handler the effects of an event that is let through.
\<close>

section \<open>The guards\<close>

text \<open>A refusal: an error to the socket itself, or its disconnection.\<close>

fun is_refusal :: "string \<Rightarrow> effect \<Rightarrow> bool" where
  "is_refusal k (Emit k' event fs) \<longleftrightarrow> k' = k \<and> event = SystemError"
| "is_refusal k (Disconnect k') \<longleftrightarrow> k' = k"
| "is_refusal k eff \<longleftrightarrow> False"

lemma is_refusal_error [simp]: "is_refusal k (system_error k code ev extra)"
  by (simp add: system_error_def)

lemma admit_refusal:
  assumes "admit sv e k d ev rd extra = Inl (effs, sv')"
  shows "list_all (is_refusal k) effs \<and> sv_store sv' = sv_store sv \<and> sv_dedup sv' = sv_dedup sv \<and>
    sv_directory sv' = sv_directory sv \<and> sv_challenges sv' = sv_challenges sv"
  using assms by (cases rule: admit_cases) auto

lemma admit_anonymous:
  "sd_session d = None \<Longrightarrow> admit sv e k d ev rd extra =
    Inl ([system_error k Forbidden ev [], Disconnect k],
      put_data k (d\<lparr>sd_limiters := drainAggregate (sd_limiters d)\<rparr>) sv)"
  by (simp add: admit_def requireSession_def)

lemma admit_dead:
  assumes "sd_session d = Some ses" and "map_get (sr_sessions (sv_sessions sv)) (ses_sessionId ses) = None"
  shows "\<exists>sv'. admit sv e k d ev rd extra = Inl ([system_error k SessionExpired ev [], Disconnect k], sv')"
  using assms by (simp add: admit_def requireSession_def validate_def)

section \<open>The shape of a handler\<close>

primrec listener_event :: "listener \<Rightarrow> socket_event" where
  "listener_event LAuth = AuthResponse"
| "listener_event LSend = MessageSend"
| "listener_event LTyping = MessageTyping"
| "listener_event LDelivered = MessageDelivered"
| "listener_event LRead = MessageRead"
| "listener_event LSync = SyncRequest"
| "listener_event LPresence = PresenceUpdate"
| "listener_event (LCall event) = event"

lemma listeners_event: "map_get listeners event = Some l \<Longrightarrow> event = event_name (listener_event l)"
  by (auto simp: listeners_def split: if_splits)

lemma listeners_known: "map_has listeners event \<longleftrightarrow> isClientEmittableEvent event"
  by (simp add: listeners_def isClientEmittableEvent_def CLIENT_EMITTABLE_EVENTS_def)

lemma listener_auth: "map_get listeners event = Some LAuth \<longleftrightarrow> event = event_name AuthResponse"
  by (auto simp: listeners_def split: if_splits)

text \<open>Every listener but the handshake's starts with the guards.\<close>

lemma listener_form:
  assumes "l \<noteq> LAuth"
  shows "\<exists>rd extra cont. run_listener nc sv e k d payload l =
    (case admit sv e k d (listener_event l) rd extra of Inl early \<Rightarrow> early | Inr r \<Rightarrow> cont r)"
proof (cases l)
  case LAuth
  with assms show ?thesis by simp
next
  case LSend
  show ?thesis by (simp only: LSend run_listener.simps listener_event.simps onMessageSend_def Let_def)
    (intro exI, rule refl)
next
  case LTyping
  show ?thesis by (simp only: LTyping run_listener.simps listener_event.simps onMessageTyping_def)
    (intro exI, rule refl)
next
  case LDelivered
  show ?thesis by (simp only: LDelivered run_listener.simps listener_event.simps onMessageDelivered_def)
    (intro exI, rule refl)
next
  case LRead
  show ?thesis by (simp only: LRead run_listener.simps listener_event.simps onMessageRead_def)
    (intro exI, rule refl)
next
  case LSync
  show ?thesis by (simp only: LSync run_listener.simps listener_event.simps onSyncRequest_def)
    (intro exI, rule refl)
next
  case LPresence
  show ?thesis by (simp only: LPresence run_listener.simps listener_event.simps onPresenceUpdate_def)
    (intro exI, rule refl)
next
  case (LCall event)
  show ?thesis by (simp only: LCall run_listener.simps listener_event.simps onCallSignal_def)
    (intro exI, rule refl)
qed

text \<open>What an event of a socket amounts to, the handshake apart.\<close>

lemma dispatch_cases:
  assumes "dispatch nc sv e k event payload = (effs, sv')" "map_get (sv_sockets sv) k = Some d"
    "event \<noteq> event_name AuthResponse"
  obtains
    (ignored) "\<not> isClientEmittableEvent event" "effs = []" "sv' = sv"
  | (refused) ev rd extra where "isClientEmittableEvent event" "event = event_name ev"
      "admit sv e k d ev rd extra = Inl (effs, sv')"
  | (admitted) ev rd extra ses sv1 where "isClientEmittableEvent event" "event = event_name ev"
      "admit sv e k d ev rd extra = Inr (ses, sv1)"
proof (cases "map_get listeners event")
  case None
  with assms listeners_known [of event] show thesis by (intro ignored) (simp_all add: dispatch_def)
next
  case (Some l)
  then have ev: "event = event_name (listener_event l)" and em: "isClientEmittableEvent event"
    using listeners_event [OF Some] listeners_known [of event] by auto
  have "l \<noteq> LAuth" using Some listener_auth [of event] assms(3) by auto
  from listener_form [OF this, of nc sv e k d payload]
  obtain rd extra cont where form: "run_listener nc sv e k d payload l =
    (case admit sv e k d (listener_event l) rd extra of Inl early \<Rightarrow> early | Inr r \<Rightarrow> cont r)" by blast
  show thesis
  proof (cases "admit sv e k d (listener_event l) rd extra")
    case (Inl early)
    with form assms Some have "early = (effs, sv')" by (simp add: dispatch_def)
    with Inl show thesis by (intro refused [OF em ev]) simp
  next
    case (Inr r)
    then show thesis by (cases r) (rule admitted [OF em ev], simp)
  qed
qed

section \<open>Effects of the messaging handlers\<close>

text \<open>A send, once admitted and parsed.\<close>

lemma onMessageSend_admitted:
  assumes "onMessageSend sv e k d payload = (effs, sv')"
    and eff: "eff \<in> set effs" "\<not> is_refusal k eff" "eff \<noteq> RejectedPromise"
  obtains ses sv1 env extra where
    "admit sv e k d MessageSend RMessage extra = Inr (ses, sv1)"
    "parseMessageEnvelope (sv_config sv1) payload ses = Parsed env"
    "isConversationMember (sv_directory sv1) (pe_conversationId env) (ses_accountId ses)"
    "(effs, sv') = (if dedup_contains (sv_dedup sv1) (dedup_key ses env)
       then send_duplicate (sv1\<lparr>sv_dedup := snd (accept (sv_dedup sv1) (dedup_key ses env))\<rparr>) e k ses env
       else send_fresh (sv1\<lparr>sv_dedup := snd (accept (sv_dedup sv1) (dedup_key ses env))\<rparr>) e k ses env)"
proof -
  let ?extra = "[(''message_id'', map_option JStr (as_string (payload_field payload ''message_id'')))]"
  show thesis
  proof (cases "admit sv e k d MessageSend RMessage ?extra")
    case (Inl r)
    with assms admit_refusal [of sv e k d MessageSend RMessage ?extra effs sv'] show thesis
      by (auto simp: onMessageSend_def Let_def list_all_iff)
  next
    case (Inr r)
    obtain ses sv1 where r: "r = (ses, sv1)" by (cases r)
    show thesis
    proof (cases "parseMessageEnvelope (sv_config sv1) payload ses")
      case (Parsed env)
      let ?c = "pe_conversationId env"
      have mem: "isConversationMember (sv_directory sv1) ?c (ses_accountId ses)"
        using assms Inr r Parsed by (auto simp: onMessageSend_def Let_def canSendMessage_allow split: if_splits)
      then have "(effs, sv') = (if dedup_contains (sv_dedup sv1) (dedup_key ses env)
       then send_duplicate (sv1\<lparr>sv_dedup := snd (accept (sv_dedup sv1) (dedup_key ses env))\<rparr>) e k ses env
       else send_fresh (sv1\<lparr>sv_dedup := snd (accept (sv_dedup sv1) (dedup_key ses env))\<rparr>) e k ses env)"
        using assms(1) Inr r Parsed accept_fresh_iff [of "sv_dedup sv1" "dedup_key ses env"]
        by (auto simp: onMessageSend_def Let_def canSendMessage_def case_prod_beta split: if_splits)
      with Inr r Parsed mem show thesis by (intro that) simp_all
    next
      case (ParseError code)
      with assms Inr r show thesis by (auto simp: onMessageSend_def Let_def)
    next
      case ParseThrows
      with assms Inr r show thesis by (auto simp: onMessageSend_def Let_def)
    qed
  qed
qed

lemma send_fresh_effects:
  assumes "nextSeq (sv_store sv) (pe_conversationId env) = (n, st1)"
    and wire_def: "wire = message_wire ses env n (en_now e)"
    and logSeq_def: "logSeq = latestLogSeq (sv_store sv) (pe_conversationId env) + 1"
  shows "fst (send_fresh sv e k ses env) =
     [Join k (conv_room (pe_conversationId env)),
      Emit k MessageAck (object
        [(''message_id'', Some (JStr (pe_messageId env))), (''conversation_id'', Some (JStr (pe_conversationId env))),
         (''server_seq'', Some (jint n)), (''log_seq'', Some (jint logSeq)),
         (''recipient_device_id'', map_option JStr (pe_recipientDeviceId env))]),
      Broadcast (case pe_recipientDeviceId env of Some d \<Rightarrow> device_room d | None \<Rightarrow> conv_room (pe_conversationId env))
        (Some k) MessageNew (spread wire [(''log_seq'', jint logSeq)])]"
    and "sv_store (snd (send_fresh sv e k ses env)) = snd (appendEvent
      (persistMessage st1 (stored_of ses env n (en_now e)))
      \<lparr>ev_conversationId = pe_conversationId env, ev_type = EvMessageNew, ev_serverSeq = n,
       ev_atMs = en_now e, ev_payload = wire\<rparr>)"
    and "sv_dedup (snd (send_fresh sv e k ses env)) = sv_dedup sv"
    and "n = latestSeq (sv_store sv) (pe_conversationId env) + 1"
proof -
  have st1: "st1 = snd (nextSeq (sv_store sv) (pe_conversationId env))" using assms(1) by simp
  have "fst (appendEvent (persistMessage st1 m) ev) = latestLogSeq (sv_store sv) (ev_conversationId ev) + 1" for m ev
    by (simp add: appendEvent_def Let_def latestLogSeq_def persistMessage_def st1 nextSeq_def)
  then show "fst (send_fresh sv e k ses env) =
     [Join k (conv_room (pe_conversationId env)),
      Emit k MessageAck (object
        [(''message_id'', Some (JStr (pe_messageId env))), (''conversation_id'', Some (JStr (pe_conversationId env))),
         (''server_seq'', Some (jint n)), (''log_seq'', Some (jint logSeq)),
         (''recipient_device_id'', map_option JStr (pe_recipientDeviceId env))]),
      Broadcast (case pe_recipientDeviceId env of Some d \<Rightarrow> device_room d | None \<Rightarrow> conv_room (pe_conversationId env))
        (Some k) MessageNew (spread wire [(''log_seq'', jint logSeq)])]"
    by (simp add: send_fresh_def assms(1) Let_def case_prod_beta wire_def logSeq_def)
  show "sv_store (snd (send_fresh sv e k ses env)) = snd (appendEvent
      (persistMessage st1 (stored_of ses env n (en_now e)))
      \<lparr>ev_conversationId = pe_conversationId env, ev_type = EvMessageNew, ev_serverSeq = n,
       ev_atMs = en_now e, ev_payload = wire\<rparr>)"
    "sv_dedup (snd (send_fresh sv e k ses env)) = sv_dedup sv"
    by (simp_all add: send_fresh_def assms(1) Let_def case_prod_beta wire_def)
  show "n = latestSeq (sv_store sv) (pe_conversationId env) + 1"
    using message_seq.nxt_value [of "sv_store sv" "pe_conversationId env"] assms(1) by simp
qed

lemma send_duplicate_store [simp]:
  "sv_store (snd (send_duplicate sv e k ses env)) = sv_store sv"
  "sv_dedup (snd (send_duplicate sv e k ses env)) = sv_dedup sv"
  by (simp_all add: send_duplicate_def Let_def)

text \<open>The number a duplicate's acknowledgement carries.\<close>

definition original_seq :: "server \<Rightarrow> session \<Rightarrow> parsed_envelope \<Rightarrow> int" where
  "original_seq sv ses env =
     (case findMessage (sv_store sv) (storage_key env) of
        None \<Rightarrow> 0
      | Some m \<Rightarrow> if sm_senderAccountId m = ses_accountId ses \<and> sm_conversationId m = pe_conversationId env
                  then sm_serverSeq m else 0)"

lemma send_duplicate_effects:
  "fst (send_duplicate sv e k ses env) =
     [Emit k MessageAck (object
        [(''message_id'', Some (JStr (pe_messageId env))), (''conversation_id'', Some (JStr (pe_conversationId env))),
         (''server_seq'', Some (jint (original_seq sv ses env))), (''duplicate'', Some (JBool True)),
         (''recipient_device_id'', map_option JStr (pe_recipientDeviceId env))])]"
  by (simp add: send_duplicate_def Let_def original_seq_def split: option.splits)

section \<open>Effects of the handshake\<close>

lemma auth_refused_effects: "Emit k' AuthSuccess fs \<notin> set (auth_refused k code)"
  by (simp add: auth_refused_def)

text \<open>A locked scope ends the handshake before the engine runs.\<close>

lemma onAuthResponse_locked:
  assumes "key \<in> set (lockoutScopeKeys (sv_config sv) d (payloadObject payload))"
    and "fst (isLocked (sv_authFailures sv) (en_now e) key)"
  shows "fst (onAuthResponse nc sv e k d payload) = auth_refused k (error_code RateLimited) \<and>
    sv_challenges (snd (onAuthResponse nc sv e k d payload)) = sv_challenges sv \<and>
    sv_sessions (snd (onAuthResponse nc sv e k d payload)) = sv_sessions sv"
proof -
  obtain ok l where c: "consumeAuthRate (sd_limiters d) (en_now e) = (ok, l)" by fastforce
  have keys: "lockoutScopeKeys config (d\<lparr>sd_authAttempts := n, sd_limiters := l\<rparr>) rec = lockoutScopeKeys config d rec"
    for config n rec by (simp add: lockoutScopeKeys_def cong: lockout_scope.case_cong)
  obtain t where t: "someLocked (sv_authFailures sv) (en_now e)
      (lockoutScopeKeys (sv_config sv) d (payloadObject payload)) = (True, t)"
  proof -
    have "fst (someLocked (sv_authFailures sv) (en_now e) (lockoutScopeKeys (sv_config sv) d (payloadObject payload)))"
      unfolding someLocked_iff using assms by blast
    then show thesis by (intro that) (simp add: prod_eq_iff)
  qed
  show ?thesis
    by (simp add: onAuthResponse_def Let_def c keys t)
qed

lemma grant_effects:
  "fst (grant_session sv e k ses evicted) =
    map (Join k) ([account_room (ses_accountId ses), device_room (ses_deviceId ses)] @
      map conv_room (listConversationsForAccount (sv_directory sv) (ses_accountId ses))) @
    [Emit k AuthSuccess [(''session_id'', JStr (ses_sessionId ses)), (''account_id'', JStr (ses_accountId ses)),
       (''device_id'', JStr (ses_deviceId ses)), (''nova_id'', JStr (ses_novaId ses)),
       (''expires_at_ms'', jint (ses_expiresAtMs ses))]]"
  "sv_sessions (snd (grant_session sv e k ses evicted)) = sv_sessions sv"
  by (simp_all add: grant_session_def Let_def)

lemma disconnectSocketKey_effects: "Emit k' AuthSuccess fs \<notin> set (disconnectSocketKey sv key code)"
  "Join k' r \<notin> set (disconnectSocketKey sv key code)"
  by (auto simp: disconnectSocketKey_def split: option.splits)

lemma complete_auth_success:
  assumes "Emit k' AuthSuccess fs \<in> set (fst (complete_auth nc sv e k d rec keys))"
  obtains c ses where "response_accepted nc (sv_devices sv) (sv_challenges sv) (en_now e) k rec c"
    "ses = \<lparr>ses_sessionId = en_sessionId e, ses_socketKey = k, ses_accountId = cl_accountId c,
        ses_deviceId = cl_deviceId c, ses_novaId = cl_novaId c, ses_createdAtMs = en_now e,
        ses_expiresAtMs = en_now e + sr_sessionTtlMs (sv_sessions sv)\<rparr>"
    "k' = k" "fs = [(''session_id'', JStr (ses_sessionId ses)), (''account_id'', JStr (ses_accountId ses)),
       (''device_id'', JStr (ses_deviceId ses)), (''nova_id'', JStr (ses_novaId ses)),
       (''expires_at_ms'', jint (ses_expiresAtMs ses))]"
    "map_get (sr_sessions (sv_sessions (snd (complete_auth nc sv e k d rec keys)))) (en_sessionId e) = Some ses"
    "{r. Join k r \<in> set (fst (complete_auth nc sv e k d rec keys))} =
      {account_room (cl_accountId c), device_room (cl_deviceId c)} \<union>
      conv_room ` set (listConversationsForAccount (sv_directory sv) (cl_accountId c))"
proof -
  obtain r chs' sess' where h: "handleAuthResponse nc (sv_devices sv) (sv_challenges sv) (sv_sessions sv)
      (en_now e) (en_sessionId e) k rec True = (r, chs', sess')"
    by (metis prod_cases3)
  from h show thesis
  proof (cases rule: handshake_cases)
    case failed
    with assms auth_refused_effects show thesis
      by (cases "hr_outcome r") (simp_all add: complete_auth_def h Let_def)
  next
    case (success c ses evicted)
    note ses = create_fields(1) [OF success(3)]
    have reg: "map_get (sr_sessions sess') (en_sessionId e) = Some ses"
      using success(3) by (auto simp: create_session_def Let_def split: prod.splits)
    let ?out = "complete_auth nc sv e k d rec keys"
    obtain sv2 evs where out: "?out = (evs @ fst (grant_session sv2 e k ses evicted), snd (grant_session sv2 e k ses evicted))"
      and evs: "\<And>k' fs. Emit k' AuthSuccess fs \<notin> set evs" "\<And>r. Join k r \<notin> set evs"
      and sv2: "sv_sessions sv2 = sess'" "sv_directory sv2 = sv_directory sv"
    proof
      show "?out = (concat (map (\<lambda>ev. disconnectSocketKey (sv\<lparr>sv_challenges := chs', sv_sessions := sess', sv_authFailures :=
                 fold (\<lambda>key t. if starts_with ''device:'' key then clear_failures t key else t) keys (sv_authFailures sv)\<rparr>)
               (ses_socketKey ev) SessionExpired) evicted) @
          fst (grant_session (put_data k (d\<lparr>sd_session := Some ses\<rparr>) (sv\<lparr>sv_challenges := chs', sv_sessions := sess', sv_authFailures :=
                 fold (\<lambda>key t. if starts_with ''device:'' key then clear_failures t key else t) keys (sv_authFailures sv)\<rparr>))
             e k ses evicted),
          snd (grant_session (put_data k (d\<lparr>sd_session := Some ses\<rparr>) (sv\<lparr>sv_challenges := chs', sv_sessions := sess', sv_authFailures :=
                 fold (\<lambda>key t. if starts_with ''device:'' key then clear_failures t key else t) keys (sv_authFailures sv)\<rparr>))
             e k ses evicted))"
        by (simp add: complete_auth_def h Let_def success(1) case_prod_beta)
    qed (use disconnectSocketKey_effects in auto)
    have "k' = k \<and> fs = [(''session_id'', JStr (ses_sessionId ses)), (''account_id'', JStr (ses_accountId ses)),
       (''device_id'', JStr (ses_deviceId ses)), (''nova_id'', JStr (ses_novaId ses)),
       (''expires_at_ms'', jint (ses_expiresAtMs ses))]"
      using assms evs(1) by (auto simp: out grant_effects)
    moreover have "{r. Join k r \<in> set (fst ?out)} =
      {account_room (cl_accountId c), device_room (cl_deviceId c)} \<union>
      conv_room ` set (listConversationsForAccount (sv_directory sv) (cl_accountId c))"
      using evs(2) by (auto simp: out grant_effects sv2 ses)
    ultimately show thesis
      using success(2) ses reg by (intro that) (simp_all add: out grant_effects sv2)
  qed
qed

text \<open>The engine of \<open>onAuthResponse\<close> sees the stores as they were.\<close>

lemma onAuthResponse_success:
  assumes "onAuthResponse nc sv e k d payload = (effs, sv')" "Emit k' AuthSuccess fs \<in> set effs"
  obtains sv3 d3 keys where "complete_auth nc sv3 e k d3 (payloadObject payload) keys = (effs, sv')"
    "sv_devices sv3 = sv_devices sv" "sv_challenges sv3 = sv_challenges sv" "sv_sessions sv3 = sv_sessions sv"
    "sv_directory sv3 = sv_directory sv"
proof -
  let ?d1 = "d\<lparr>sd_authAttempts := sd_authAttempts d + 1\<rparr>"
  obtain ok l where c: "consumeAuthRate (sd_limiters d) (en_now e) = (ok, l)" by fastforce
  let ?d2 = "?d1\<lparr>sd_limiters := l\<rparr>"
  let ?sv2 = "put_data k ?d2 (put_data k ?d1 sv)"
  let ?keys = "lockoutScopeKeys (sv_config sv) ?d2 (payloadObject payload)"
  obtain locked t where t: "someLocked (sv_authFailures sv) (en_now e) ?keys = (locked, t)" by fastforce
  have "complete_auth nc (?sv2\<lparr>sv_authFailures := t\<rparr>) e k ?d2 (payloadObject payload) ?keys = (effs, sv')"
    using assms auth_refused_effects by (auto simp: onAuthResponse_def Let_def c t split: if_splits)
  then show thesis by (rule that) simp_all
qed

section \<open>Acknowledged sends\<close>

lemma send_fresh_frame:
  "sv_config (snd (send_fresh sv e k ses env)) = sv_config sv"
  "sv_dedup (snd (send_fresh sv e k ses env)) = sv_dedup sv"
  "map_get (sv_sockets (snd (send_fresh sv e k ses env))) k' =
    map_get (sv_sockets (join_room k (conv_room (pe_conversationId env)) sv)) k'"
  by (simp_all add: send_fresh_def Let_def case_prod_beta join_room_def put_data_def split: option.splits)

lemma send_duplicate_frame:
  "sv_config (snd (send_duplicate sv e k ses env)) = sv_config sv"
  "sv_dedup (snd (send_duplicate sv e k ses env)) = sv_dedup sv"
  "sv_sockets (snd (send_duplicate sv e k ses env)) = sv_sockets sv"
  by (simp_all add: send_duplicate_def Let_def)

lemma accept_tick: "dd_clockTick (snd (accept dd key)) \<le> dd_clockTick dd + 1"
  by (simp add: accept_def evictOldest_def Let_def split: option.split)

text \<open>
  After an acknowledged send the key is remembered; the acknowledgement was the original's, or
  the message is now stored under the number acknowledged.
\<close>

lemma acked_send:
  assumes ok: "server_ok sv" and d: "map_get (sv_sockets sv) k = Some d"
    and tick: "dd_clockTick (sv_dedup sv) < MAX_SAFE_INTEGER"
    and send: "onMessageSend sv e k d payload = (effs, sv')" and ack: "Emit k MessageAck ack \<in> set effs"
  obtains ses env where "sd_session d = Some ses" "parseMessageEnvelope (sv_config sv) payload ses = Parsed env"
    "sv_config sv' = sv_config sv" "dedup_contains (sv_dedup sv') (dedup_key ses env)"
    "\<And>d1. map_get (sv_sockets sv') k = Some d1 \<Longrightarrow> sd_session d1 = Some ses"
    "map_of ack ''server_seq'' = Some (jint (original_seq sv' ses env))"
    "dd_clockTick (sv_dedup sv') \<le> dd_clockTick (sv_dedup sv) + 1"
    "dedup_contains (sv_dedup sv) (dedup_key ses env) \<Longrightarrow>
       effs = [Emit k MessageAck ack] \<and> map_of ack ''duplicate'' = Some (JBool True) \<and> sv_store sv' = sv_store sv"
proof -
  have "\<not> is_refusal k (Emit k MessageAck ack)" "Emit k MessageAck ack \<noteq> RejectedPromise" by simp_all
  then obtain ses sv1 env extra where
    adm: "admit sv e k d MessageSend RMessage extra = Inr (ses, sv1)"
    and parse: "parseMessageEnvelope (sv_config sv1) payload ses = Parsed env"
    and out: "(effs, sv') = (if dedup_contains (sv_dedup sv1) (dedup_key ses env)
       then send_duplicate (sv1\<lparr>sv_dedup := snd (accept (sv_dedup sv1) (dedup_key ses env))\<rparr>) e k ses env
       else send_fresh (sv1\<lparr>sv_dedup := snd (accept (sv_dedup sv1) (dedup_key ses env))\<rparr>) e k ses env)"
    by (rule onMessageSend_admitted [OF send ack])
  note a = admit_Inr [OF ok d adm]
  obtain d' where d': "map_get (sv_sockets sv1) k = Some d'" "sd_session d' = Some ses" using a(10) by blast
  let ?key = "dedup_key ses env"
  let ?sv2 = "sv1\<lparr>sv_dedup := snd (accept (sv_dedup sv1) ?key)\<rparr>"
  have key: "dedup_contains (snd (accept (sv_dedup sv) ?key)) ?key"
    using server_okD(1) [OF ok] tick by (intro accept_contains) (simp_all add: stores_ok_def)
  show thesis
  proof (cases "dedup_contains (sv_dedup sv) ?key")
    case True
    then have r: "effs = fst (send_duplicate ?sv2 e k ses env)" "sv' = snd (send_duplicate ?sv2 e k ses env)"
      using out a(5) by (simp_all add: prod_eq_iff)
    from r(1) ack have ack': "effs = [Emit k MessageAck ack]" "ack = object
        [(''message_id'', Some (JStr (pe_messageId env))), (''conversation_id'', Some (JStr (pe_conversationId env))),
         (''server_seq'', Some (jint (original_seq ?sv2 ses env))), (''duplicate'', Some (JBool True)),
         (''recipient_device_id'', map_option JStr (pe_recipientDeviceId env))]"
      by (simp_all add: send_duplicate_effects)
    have seq: "original_seq ?sv2 ses env = original_seq sv' ses env"
      by (simp add: r(2) original_seq_def)
    show thesis
    proof (rule that [OF a(2)])
      show "map_of ack ''server_seq'' = Some (jint (original_seq sv' ses env))"
        by (simp add: ack'(2) seq)
    qed (use parse a(4,5,7) key d' accept_tick in \<open>simp_all add: r(2) ack' send_duplicate_frame\<close>)
  next
    case False
    then have r: "effs = fst (send_fresh ?sv2 e k ses env)" "sv' = snd (send_fresh ?sv2 e k ses env)"
      using out a(5) by (simp_all add: prod_eq_iff)
    obtain n st1 where n: "nextSeq (sv_store ?sv2) (pe_conversationId env) = (n, st1)" by fastforce
    note eff1 = send_fresh_effects(1) [OF n refl refl]
    note eff2 = send_fresh_effects(2) [OF n refl refl]
    have seq: "original_seq sv' ses env = n"
      by (simp add: r(2) original_seq_def eff2 find_persist stored_of_def)
    have "map_of ack ''server_seq'' = Some (jint n)"
      using ack by (auto simp: r(1) eff1)
    with seq have ack': "map_of ack ''server_seq'' = Some (jint (original_seq sv' ses env))" by simp
    show thesis
      by (rule that [OF a(2) _ _ _ _ ack'])
        (use parse a(5,7) key d' False accept_tick in \<open>simp_all add: r(2) send_fresh_frame join_room_get\<close>)
  qed
qed

end
