(* ===== verification/Server_Reading.thy ===== *)
theory Server_Reading
  imports Server_Guarantees
begin

text \<open>
  What the handlers for receipts, read marks, sync, presence and signaling put out, once the
  guards have let the event through; used by the properties of the root theory.
\<close>

section \<open>Receipts\<close>

lemma refused_effect:
  assumes "admit sv e k d ev rd extra = Inl (effs, sv')" "eff \<in> set effs"
  shows "is_refusal k eff"
  using admit_refusal [OF assms(1)] assms(2) by (simp add: list_all_iff)

lemma delivered_form:
  assumes "onMessageDelivered sv e k d payload = (effs, sv')" and "Broadcast room ex event fs \<in> set effs"
  obtains ses sv1 c i m where "admit sv e k d MessageDelivered RMessage [] = Inr (ses, sv1)"
    "map_get (payloadObject payload) ''conversation_id'' = Some (JStr c)"
    "map_get (payloadObject payload) ''message_id'' = Some (JStr i)"
    "isConversationMember (sv_directory sv1) c (ses_accountId ses)"
    "findMessage (sv_store sv1) i = Some m" "sm_conversationId m = c"
    "sm_senderAccountId m \<noteq> ses_accountId ses" "room = conv_room c" "ex = Some k" "event = MessageDelivered"
    "fs = spread [(''conversation_id'', JStr c), (''message_id'', JStr i),
       (''by_account_id'', JStr (ses_accountId ses)), (''by_device_id'', JStr (ses_deviceId ses)),
       (''server_seq'', jint (sm_serverSeq m)), (''at_ms'', jint (en_now e))]
       [(''log_seq'', jint (latestLogSeq (sv_store sv1) c + 1))]"
proof (cases "admit sv e k d MessageDelivered RMessage []")
  case (Inl r)
  with assms refused_effect [of sv e k d MessageDelivered RMessage "[]" effs sv' "Broadcast room ex event fs"]
  show thesis by (auto simp: onMessageDelivered_def)
next
  case (Inr r)
  then show thesis
    using assms that
    by (cases r) (auto simp: onMessageDelivered_def Let_def publish_receipt_def canReadConversation_allow
        system_error_def case_prod_beta appendEvent_def latestLogSeq_def split: if_splits option.splits)
qed

lemma read_form:
  assumes "onMessageRead sv e k d payload = (effs, sv')" and "Broadcast room ex event fs \<in> set effs"
  obtains ses sv1 c where "admit sv e k d MessageRead RMessage [] = Inr (ses, sv1)"
    "map_get (payloadObject payload) ''conversation_id'' = Some (JStr c)"
    "isConversationMember (sv_directory sv1) c (ses_accountId ses)"
    "room = conv_room c" "ex = Some k" "event = MessageRead"
    "fs = spread [(''conversation_id'', JStr c),
       (''by_account_id'', JStr (ses_accountId ses)), (''by_device_id'', JStr (ses_deviceId ses)),
       (''last_read_seq'', jint (read_mark (map_get (payloadObject payload) ''last_read_seq'') (latestSeq (sv_store sv1) c))),
       (''at_ms'', jint (en_now e))]
       [(''log_seq'', jint (latestLogSeq (sv_store sv1) c + 1))]"
    "\<And>c'. latestSeq (sv_store sv') c' = latestSeq (sv_store sv1) c'"
proof (cases "admit sv e k d MessageRead RMessage []")
  case (Inl r)
  with assms refused_effect [of sv e k d MessageRead RMessage "[]" effs sv' "Broadcast room ex event fs"]
  show thesis by (auto simp: onMessageRead_def)
next
  case (Inr r)
  obtain ses sv1 where r: "r = (ses, sv1)" by (cases r)
  let ?rec = "payloadObject payload"
  obtain c where c: "map_get ?rec ''conversation_id'' = Some (JStr c)"
    and out: "onMessageRead sv e k d payload =
      (if length c = 0 then ([system_error k PayloadInvalid MessageRead []], sv1)
       else if canReadConversation isConversationMember (sv_directory sv1) (Some ses) c \<noteq> AuthzAllow
       then ([system_error k Forbidden MessageRead []], sv1)
       else publish_receipt sv1 k c EvMessageRead MessageRead
         (read_mark (map_get ?rec ''last_read_seq'') (latestSeq (sv_store sv1) c)) (en_now e)
         [(''conversation_id'', JStr c), (''by_account_id'', JStr (ses_accountId ses)),
          (''by_device_id'', JStr (ses_deviceId ses)),
          (''last_read_seq'', jint (read_mark (map_get ?rec ''last_read_seq'') (latestSeq (sv_store sv1) c))),
          (''at_ms'', jint (en_now e))])"
  proof (cases "as_string (map_get ?rec ''conversation_id'')")
    case None
    then have "onMessageRead sv e k d payload = ([system_error k PayloadInvalid MessageRead []], sv1)"
      by (simp add: onMessageRead_def Inr r)
    with assms show thesis by (auto simp: system_error_def)
  next
    case (Some c)
    then show thesis by (intro that) (simp_all add: onMessageRead_def Inr r Let_def split del: if_split cong: if_cong)
  qed
  then have len: "length c \<noteq> 0" and mem: "isConversationMember (sv_directory sv1) c (ses_accountId ses)"
    using assms by (simp_all add: system_error_def canReadConversation_allow split: if_splits)
  define fs0 where "fs0 = [(''conversation_id'', JStr c), (''by_account_id'', JStr (ses_accountId ses)),
          (''by_device_id'', JStr (ses_deviceId ses)),
          (''last_read_seq'', jint (read_mark (map_get ?rec ''last_read_seq'') (latestSeq (sv_store sv1) c))),
          (''at_ms'', jint (en_now e))]"
  have "(effs, sv') = publish_receipt sv1 k c EvMessageRead MessageRead
      (read_mark (map_get ?rec ''last_read_seq'') (latestSeq (sv_store sv1) c)) (en_now e) fs0"
    using out len mem assms(1) by (simp add: canReadConversation_allow fs0_def)
  then have "effs = [Broadcast (conv_room c) (Some k) MessageRead
      (spread fs0 [(''log_seq'', jint (latestLogSeq (sv_store sv1) c + 1))])]"
    and "latestSeq (sv_store sv') c' = latestSeq (sv_store sv1) c'" for c'
    by (auto simp: publish_receipt_def case_prod_beta appendEvent_def latestLogSeq_def latestSeq_def Let_def)
  with assms(2) c mem show thesis
    by (intro that [OF _ c mem]) (auto simp: Inr r fs0_def)
qed

section \<open>Presence and signals\<close>

lemma presence_seen:
  "(\<forall>x > 0. raw = Some (JNum (Finite x)) \<longrightarrow> last_seen raw now = Finite x) \<and>
   ((\<forall>x. raw \<noteq> Some (JNum x)) \<longrightarrow> last_seen raw now = js_int now) \<and>
   (\<forall>x \<le> 0. raw = Some (JNum (Finite x)) \<longrightarrow> last_seen raw now = js_int now)"
  by (auto simp: last_seen_def split: option.splits)

lemma getPresence_set:
  "getPresence (setPresence st r) a = (if a = pr_accountId r then Some r else getPresence st a)"
  by (simp add: getPresence_def setPresence_def)

lemma signal_form:
  assumes "onCallSignal sv e k d event payload = (effs, sv')" and "Broadcast room ex event' fs \<in> set effs"
  obtains ses sv1 p where "admit sv e k d event RSignaling [] = Inr (ses, sv1)"
    "map_get (payloadObject payload) ''peer_account_id'' = Some (JStr p)"
    "hasRelationship (sv_directory sv1) (ses_accountId ses) p"
    "room = account_room p" "ex = None" "event' = event"
    "fs = spread [(''from_account_id'', JStr (ses_accountId ses)), (''from_device_id'', JStr (ses_deviceId ses))]
       (strip_identity (payloadObject payload))"
proof (cases "admit sv e k d event RSignaling []")
  case (Inl r)
  with assms refused_effect [of sv e k d event RSignaling "[]" effs sv' "Broadcast room ex event' fs"]
  show thesis by (auto simp: onCallSignal_def)
next
  case (Inr r)
  then show thesis
    using assms that
    by (cases r) (auto simp: onCallSignal_def Let_def system_error_def canSignalCall_def split: if_splits option.splits)
qed

lemma map_of_filter_key:
  assumes "key \<notin> K"
  shows "map_of (filter (\<lambda>(key, v). key \<notin> K) xs) key = map_of xs key"
  using assms by (induction xs) auto

text \<open>The fields that are not identity fields are relayed as they came.\<close>

lemma signal_rest:
  assumes "key \<notin> {''peer_account_id'', ''from_account_id'', ''from_device_id''}"
  shows "map_of (spread [(''from_account_id'', a), (''from_device_id'', b)] (strip_identity rec)) key = map_of (rev rec) key"
proof -
  have "map_of (rev (strip_identity rec)) key = map_of (rev rec) key"
    using map_of_filter_key [OF assms, of "rev rec"] by (simp add: strip_identity_def rev_filter)
  then show ?thesis
    using assms by (simp add: map_of_spread map_add_def split: option.splits)
qed

section \<open>Sync\<close>

lemma sync_form:
  assumes "onSyncRequest sv e k d payload = (effs, sv')" and "Emit k' SyncResponse resp \<in> set effs"
  obtains ses sv1 targets cursors pages where "admit sv e k d SyncRequest RSync [] = Inr (ses, sv1)"
    "sync_targets sv1 ses (payloadObject payload) = Inr (targets, cursors)"
    "serve_pages (sv_store sv1) (cf_syncPageLimit (sv_config sv1)) cursors targets = (pages, True)"
    "resp = sync_response pages" "k' = k"
proof (cases "admit sv e k d SyncRequest RSync []")
  case (Inl r)
  with assms refused_effect [of sv e k d SyncRequest RSync "[]" effs sv' "Emit k' SyncResponse resp"]
  show thesis by (auto simp: onSyncRequest_def)
next
  case (Inr r)
  then show thesis
    using assms that
    by (cases r) (auto simp: onSyncRequest_def Let_def system_error_def split: if_splits sum.splits prod.splits)
qed

text \<open>
  The client's loop over the pages the server serves: it asks again from the returned cursor
  while \<open>has_more\<close> is set.
\<close>

fun sync_all :: "nat \<Rightarrow> memory_store \<Rightarrow> int \<Rightarrow> string \<Rightarrow> int \<Rightarrow> stored_event list \<times> int \<times> bool" where
  "sync_all 0 st limit c k = ([], k, True)"
| "sync_all (Suc fuel) st limit c k =
     (case serve_page st limit c k of
        None \<Rightarrow> ([], k, True)
      | Some p \<Rightarrow>
          if sp_hasMore p
          then (let (rest, r) = sync_all fuel st limit c (sp_cursor p) in (sp_events p @ rest, r))
          else (sp_events p, sp_cursor p, False))"

lemma sync_all_fetch:
  assumes "0 < limit"
  shows "sync_all fuel st limit c k = fetch_pages eventsSince latestLogSeq fuel st c limit k"
proof (induction fuel arbitrary: k)
  case 0
  show ?case by simp
next
  case (Suc fuel)
  obtain p where p: "serve_page st limit c k = Some p"
    using serve_pages_all [OF assms, of st "[(c, k)]" "[c]"] by (auto split: option.splits)
  from Suc show ?case by (simp add: p serve_page_of [OF p] case_prod_beta)
qed

end
