(* ===== verification/Demo_Run.thy ===== *)
theory Demo_Run
  imports Server_Machine
begin

text \<open>
  A concrete run of the server, used to show that the hypotheses of the properties can hold:
  a device is registered and its account put into a
  conversation with another, then it connects and authenticates. The
  cryptography is instantiated by a verification that accepts exactly the messages the two
  devices have signed, and by a decoder that gives one zero byte per character.
\<close>

definition alice_claims :: auth_claims where
  "alice_claims = \<lparr>cl_accountId = ''alice'', cl_deviceId = ''a1'', cl_novaId = ''NA'', cl_challengeId = ''cA'',
     cl_challengeBase64 = ''bA''\<rparr>"

definition bob_claims :: auth_claims where
  "bob_claims = \<lparr>cl_accountId = ''bob'', cl_deviceId = ''b1'', cl_novaId = ''NB'', cl_challengeId = ''cB'',
     cl_challengeBase64 = ''bB''\<rparr>"

definition demo_crypto :: node_crypto where
  "demo_crypto =
     \<lparr>nc_fromBase64 = (\<lambda>s. replicate (length s) 0),
      nc_verify = (\<lambda>key message sig.
        Some (message = canonicalMessage alice_claims \<or> message = canonicalMessage bob_claims))\<rparr>"

definition demo_config :: realtime_config where
  "demo_config =
     \<lparr>authPerMinute = 5, messagePerMinute = 30, typingPerMinute = 12, signalingPerMinute = 60,
      syncPerMinute = 6, presencePerMinute = 12, totalEventsPerMinute = 120,
      cf_socketPath = ''/socket.io/'', cf_pingIntervalMs = 25000, cf_pingTimeoutMs = 20000,
      cf_maxHttpBufferSize = 1000000, cf_maxCiphertextBase64Chars = 87384, cf_corsOrigins = [''*''],
      cf_adminToken = [], cf_challengeTtlMs = 60000, cf_maxAuthAttemptsPerConnection = 3,
      cf_authFailuresLockout = 5, cf_authLockoutMs = 120000, cf_authLockoutScopes = [ScopeDevice, ScopeIp],
      cf_sessionTtlMs = 86400000, cf_newConnectionsPerIpPerMinute = 60, cf_syncPageLimit = 2,
      cf_storeBackend = MemoryBackend, cf_supabaseUrl = [], cf_supabaseServiceRoleKey = []\<rparr>"

definition demo_env :: "int \<Rightarrow> env" where
  "demo_env now = \<lparr>en_now = now, en_date = now, en_sessionId = ''SA'', en_challengeId = ''cA'',
     en_challengeBase64 = ''bA''\<rparr>"

definition demo_response :: "auth_claims \<Rightarrow> payload" where
  "demo_response c = Some (JObj
     [(''challenge_id'', JStr (cl_challengeId c)), (''account_id'', JStr (cl_accountId c)),
      (''device_id'', JStr (cl_deviceId c)), (''nova_id'', JStr (cl_novaId c)),
      (''signature'', JStr (replicate 64 (CHR ''s'')))])"

definition demo_handshake :: handshake_info where
  "demo_handshake = \<lparr>hk_forwardedFor = None, hk_address = Some ''10.0.0.1''\<rparr>"

definition demo_setup :: "(env \<times> input) list" where
  "demo_setup =
     [(demo_env 0, RegisterDevice ''alice'' ''a1'' ''NA'' (replicate 32 (CHR ''k''))),
      (demo_env 0, AddConversationMember ''room'' ''alice''),
      (demo_env 0, AddConversationMember ''room'' ''bob''),
      (demo_env 0, AddRelationship ''alice'' ''bob''),
      (demo_env 0, AllowPresence ''alice'' ''bob''),
      (demo_env 1, Connecting ''s1'' demo_handshake)]"

definition demo_auth :: "(env \<times> input) list" where
  "demo_auth = [(demo_env 2, Received ''s1'' ''auth.response'' (demo_response alice_claims))]"

text \<open>The states after the setup and after the handshake.\<close>

definition alice_device :: device_record where
  "alice_device = \<lparr>dev_accountId = ''alice'', dev_deviceId = ''a1'', dev_novaId = ''NA'',
     dev_ed25519PublicKey = replicate 32 0, dev_status = Active\<rparr>"

definition anonymous_data :: socket_data where
  "anonymous_data = \<lparr>sd_session = None, sd_authAttempts = 0,
     sd_limiters = createDomainRateLimiters demo_config, sd_ip = ''10.0.0.1'', sd_rooms = []\<rparr>"

definition connected_server :: server where
  "connected_server = (new_server demo_config)
     \<lparr>sv_directory :=
        \<lparr>md_devices = [(''a1'', alice_device)],
         md_conversationMembers = [(''room'', [''alice'', ''bob''])],
         md_accountConversations = [(''alice'', [''room'']), (''bob'', [''room''])],
         md_relationships = [(''alice'', [''bob'']), (''bob'', [''alice''])],
         md_presenceAudiences = [(''alice'', [''bob''])]\<rparr>,
      sv_devices := [(''a1'', alice_device)],
      sv_challenges := \<lparr>cs_ttlMs = 60000, cs_challenges =
        [(''cA'', \<lparr>ch_socketKey = ''s1'', ch_accountId = WILDCARD, ch_deviceId = WILDCARD,
           ch_challengeBase64 = ''bA'', ch_expiresAtMs = 60001\<rparr>)]\<rparr>,
      sv_socketLimiters := [''s1''],
      sv_ipConnections := [(''10.0.0.1'', \<lparr>bk_burst = 60, bk_perMinute = 60, bk_tokens = 59,
         bk_lastRefillMs = Some 1\<rparr>)],
      sv_sockets := [(''s1'', anonymous_data)]\<rparr>"

definition alice_session :: session where
  "alice_session = \<lparr>ses_sessionId = ''SA'', ses_socketKey = ''s1'', ses_accountId = ''alice'',
     ses_deviceId = ''a1'', ses_novaId = ''NA'', ses_createdAtMs = 2, ses_expiresAtMs = 86400002\<rparr>"

definition alice_data :: socket_data where
  "alice_data = \<lparr>sd_session = Some alice_session, sd_authAttempts = 1,
     sd_limiters = snd (consumeAuthRate (createDomainRateLimiters demo_config) 2), sd_ip = ''10.0.0.1'',
     sd_rooms = [''account:alice'', ''device:a1'', ''conv:room'']\<rparr>"

definition demo_server :: server where
  "demo_server = connected_server
     \<lparr>sv_challenges := \<lparr>cs_ttlMs = 60000, cs_challenges = []\<rparr>,
      sv_sessions := \<lparr>sr_sessionTtlMs = 86400000, sr_sessions = [(''SA'', alice_session)]\<rparr>,
      sv_log := log_event new_log 2 ''auth.success''
        [(''account_id'', Some (JStr ''alice'')), (''device_id'', Some (JStr ''a1'')), (''evicted'', Some (jint 0))],
      sv_sockets := [(''s1'', alice_data)]\<rparr>"

definition room_message :: "string \<Rightarrow> payload" where
  "room_message m = Some (JObj
     [(''message_id'', JStr m), (''conversation_id'', JStr ''room''), (''ciphertext'', JStr ''x''),
      (''header_type'', JStr ''h'')])"

lemma connected_run: "run_inputs demo_crypto (new_server demo_config) demo_setup = connected_server"
  by code_simp

lemma demo_run: "run_inputs demo_crypto connected_server demo_auth = demo_server"
  by code_simp

lemma config_ok_demo: "config_ok demo_config"
  by (simp add: config_ok_def limits_ok_def demo_config_def)

lemma possible_setup: "possible_run demo_crypto (new_server demo_config) demo_setup"
  by code_simp

lemma possible_auth: "possible_run demo_crypto connected_server demo_auth"
  by code_simp

lemma reachable_connected: "reachable demo_crypto demo_config connected_server"
  using reachable_run [OF start [OF config_ok_demo] possible_setup] by (simp only: connected_run)

lemma reachable_demo: "reachable demo_crypto demo_config demo_server"
  using reachable_run [OF reachable_connected possible_auth] by (simp only: demo_run)

lemma connected_socket: "map_get (sv_sockets connected_server) ''s1'' = Some anonymous_data"
  by (simp add: connected_server_def)

lemma demo_sessions [simp]:
  "sd_session alice_data = Some alice_session" "ses_accountId alice_session = ''alice''" "ses_deviceId alice_session = ''a1''"
  by (simp_all add: alice_data_def alice_session_def)

lemma demo_socket: "map_get (sv_sockets demo_server) ''s1'' = Some alice_data"
  by (simp add: demo_server_def)

text \<open>The first message of the room, and the state it leaves.\<close>

definition first_wire :: fields where
  "first_wire =
     [(''message_id'', JStr ''m1''), (''conversation_id'', JStr ''room''),
      (''sender_account_id'', JStr ''alice''), (''sender_device_id'', JStr ''a1''), (''ciphertext'', JStr ''x''),
      (''header_type'', JStr ''h''), (''server_seq'', jint 1), (''received_at_ms'', jint 10)]"

definition first_ack :: fields where
  "first_ack = [(''message_id'', JStr ''m1''), (''conversation_id'', JStr ''room''), (''server_seq'', jint 1),
     (''log_seq'', jint 1)]"

definition sent_data :: socket_data where
  "sent_data = alice_data\<lparr>sd_limiters := snd (consumeRate (sd_limiters alice_data) RMessage 10)\<rparr>"

definition sent_server :: server where
  "sent_server = demo_server
     \<lparr>sv_sessions := \<lparr>sr_sessionTtlMs = 86400000, sr_sessions =
        [(''SA'', alice_session\<lparr>ses_expiresAtMs := 86400010\<rparr>)]\<rparr>,
      sv_dedup := \<lparr>dd_windowSize = 4096, dd_seen = [(''alice|m1'', 0)], dd_clockTick = 1\<rparr>,
      sv_store :=
        \<lparr>ms_cursors = [(''room'', 1)], ms_logCursors = [(''room'', 1)],
         ms_messages = [(''m1'', \<lparr>sm_messageId = ''m1'', sm_conversationId = ''room'', sm_senderAccountId = ''alice'',
           sm_senderDeviceId = ''a1'', sm_ciphertextBase64 = ''x'', sm_headerType = ''h'', sm_serverSeq = 1,
           sm_receivedAtMs = 10, sm_clientTimestampMs = None\<rparr>)],
         ms_eventLog = [(''room'', [\<lparr>ev_conversationId = ''room'', ev_type = EvMessageNew, ev_serverSeq = 1,
           ev_atMs = 10, ev_payload = first_wire, ev_logSeq = 1\<rparr>])],
         ms_presence = []\<rparr>,
      sv_log := log_event (sv_log demo_server) 10 ''message.accepted''
        [(''account_id'', Some (JStr ''alice'')), (''device_id'', Some (JStr ''a1'')),
         (''conversation_id'', Some (JStr ''room'')), (''message_id'', Some (JStr ''m1'')),
         (''server_seq'', Some (jint 1)), (''log_seq'', Some (jint 1)), (''bytes'', Some (jint 1))],
      sv_sockets := [(''s1'', sent_data)]\<rparr>"

text \<open>How an event is let through the guards, in terms of the stores they look at.\<close>

lemma admitted:
  assumes "sd_session d = Some ses" "validate (sv_sessions sv) (en_now e) (ses_sessionId ses) k = (SessionOk, reg)"
    "fst (consumeRate (sd_limiters d) rd (en_now e))"
  shows "admit sv e k d ev rd extra =
    Inr (ses, put_data k (d\<lparr>sd_limiters := snd (consumeRate (sd_limiters d) rd (en_now e))\<rparr>) (sv\<lparr>sv_sessions := reg\<rparr>))"
  using assms by (simp add: admit_def requireSession_def Let_def case_prod_beta)

definition alice_renewed :: session_registry where
  "alice_renewed = \<lparr>sr_sessionTtlMs = 86400000, sr_sessions = [(''SA'', alice_session\<lparr>ses_expiresAtMs := 86400010\<rparr>)]\<rparr>"

lemma alice_validates: "validate (sv_sessions demo_server) 10 (ses_sessionId alice_session) ''s1'' = (SessionOk, alice_renewed)"
  by (simp add: demo_server_def validate_def alice_session_def alice_renewed_def)

lemma alice_rate: "fst (consumeRate (sd_limiters alice_data) RMessage 10)"
  by code_simp

lemma alice_admitted:
  "en_now e = 10 \<Longrightarrow> admit demo_server e ''s1'' alice_data MessageSend RMessage extra =
     Inr (alice_session, demo_server\<lparr>sv_sessions := alice_renewed, sv_sockets := [(''s1'', sent_data)]\<rparr>)"
  using admitted [of alice_data alice_session demo_server e "''s1''" alice_renewed RMessage] alice_validates alice_rate
  by (simp add: put_data_def sent_data_def) (simp add: demo_server_def)

definition room_envelope :: "string \<Rightarrow> session \<Rightarrow> parsed_envelope" where
  "room_envelope m ses = \<lparr>pe_messageId = m, pe_conversationId = ''room'', pe_senderDeviceId = ses_deviceId ses,
     pe_ciphertextBase64 = ''x'', pe_headerType = ''h'', pe_clientTimestampMs = None, pe_recipientDeviceId = None,
     pe_messageType = None, pe_envelopeVersion = None, pe_expiresAtMs = None\<rparr>"

lemma room_message_parsed:
  "m \<noteq> [] \<Longrightarrow> 1 \<le> cf_maxCiphertextBase64Chars config \<Longrightarrow>
   parseMessageEnvelope config (room_message m) ses = Parsed (room_envelope m ses)"
  by (simp add: parseMessageEnvelope_def room_message_def containsPlaintextPayload_def FORBIDDEN_PLAINTEXT_KEYS_def
      room_envelope_def)

lemma demo_simps:
  "sv_config demo_server = demo_config" "sv_dedup demo_server = new_dedup 4096" "sv_store demo_server = new_store"
  "sv_directory demo_server = sv_directory connected_server"
  by (simp_all add: demo_server_def connected_server_def new_server_def)

lemma room_members [simp]:
  "isConversationMember (sv_directory connected_server) ''room'' ''alice''"
  "isConversationMember (sv_directory connected_server) ''room'' ''bob''"
  by (simp_all add: connected_server_def isConversationMember_def get_set_def)

lemma send_any:
  assumes "en_now e = 10" "en_date e = 10"
  shows "onMessageSend demo_server e ''s1'' alice_data (room_message ''m1'') =
   ([Join ''s1'' (conv_room ''room''), Emit ''s1'' MessageAck first_ack,
     Broadcast (conv_room ''room'') (Some ''s1'') MessageNew (first_wire @ [(''log_seq'', jint 1)])], sent_server)"
proof -
  have room: "set_add (conv_room ''room'') (sd_rooms sent_data) = sd_rooms sent_data"
    by (simp add: sent_data_def alice_data_def set_add_def conv_room_def)
  have "1 \<le> cf_maxCiphertextBase64Chars demo_config" by (simp add: demo_config_def)
  then show ?thesis
    using assms room
    by (simp add: onMessageSend_def Let_def alice_admitted room_message_parsed demo_simps canSendMessage_def
        room_envelope_def dedup_key_def storage_key_def accept_def new_dedup_def send_fresh_def nextSeq_def new_store_def
        get_or_def persistMessage_def stored_of_def message_wire_def appendEvent_def with_logSeq_def join_room_def
        put_data_def log_to_def first_ack_def first_wire_def sent_server_def alice_renewed_def spread_def
        stored_event.defs appendable_event.defs)
qed

lemma demo_env_now [simp]: "en_now (demo_env t) = t" "en_date (demo_env t) = t"
  by (simp_all add: demo_env_def)

lemma first_send:
  "onMessageSend demo_server (demo_env 10) ''s1'' alice_data (room_message ''m1'') =
   ([Join ''s1'' (conv_room ''room''), Emit ''s1'' MessageAck first_ack,
     Broadcast (conv_room ''room'') (Some ''s1'') MessageNew (first_wire @ [(''log_seq'', jint 1)])], sent_server)"
  by (rule send_any) simp_all

lemma sent_socket: "map_get (sv_sockets sent_server) ''s1'' = Some sent_data"
  by (simp add: sent_server_def)

text \<open>Sending the same message again.\<close>

lemma sent_rate: "fst (consumeRate (sd_limiters sent_data) RMessage (en_now (demo_env 20)))"
  by (simp add: demo_env_def) code_simp

lemma second_send_effects:
  "fst (onMessageSend sent_server (demo_env 20) ''s1'' sent_data (room_message ''m1'')) =
   [Emit ''s1'' MessageAck [(''message_id'', JStr ''m1''), (''conversation_id'', JStr ''room''),
      (''server_seq'', jint 1), (''duplicate'', JBool True)]]"
proof -
  have val: "\<exists>reg. validate (sv_sessions sent_server) (en_now (demo_env 20)) (ses_sessionId alice_session) ''s1'' = (SessionOk, reg)"
    by (simp add: sent_server_def validate_def alice_session_def)
  have ses: "sd_session sent_data = Some alice_session" by (simp add: sent_data_def)
  obtain reg where reg: "validate (sv_sessions sent_server) (en_now (demo_env 20)) (ses_sessionId alice_session) ''s1'' = (SessionOk, reg)"
    using val by blast
  have "1 \<le> cf_maxCiphertextBase64Chars demo_config" by (simp add: demo_config_def)
  moreover have "sv_config sent_server = demo_config" "sv_directory sent_server = sv_directory connected_server"
    "sv_dedup sent_server = \<lparr>dd_windowSize = 4096, dd_seen = [(''alice|m1'', 0)], dd_clockTick = 1\<rparr>"
    by (simp_all add: sent_server_def demo_simps)
  moreover have "findMessage (sv_store sent_server) ''m1'' = Some (stored_of alice_session (room_envelope ''m1'' alice_session) 1 10)"
    by (simp add: findMessage_def sent_server_def stored_of_def room_envelope_def storage_key_def)
  ultimately show ?thesis
    by (simp add: onMessageSend_def Let_def admitted [OF ses reg sent_rate] room_message_parsed canSendMessage_def
        room_envelope_def dedup_key_def storage_key_def accept_def send_duplicate_def stored_of_def)
qed

section \<open>The other member joins\<close>

definition bob_env :: "int \<Rightarrow> env" where
  "bob_env now = \<lparr>en_now = now, en_date = now, en_sessionId = ''SB'', en_challengeId = ''cB'',
     en_challengeBase64 = ''bB''\<rparr>"

definition alice_sends :: "(env \<times> input) list" where
  "alice_sends = [(demo_env 10 \<lparr>en_sessionId := ''SX''\<rparr>, Received ''s1'' ''message.send'' (room_message ''m1''))]"

definition bob_joins :: "(env \<times> input) list" where
  "bob_joins =
     [(bob_env 11, RegisterDevice ''bob'' ''b1'' ''NB'' (replicate 32 (CHR ''k''))),
      (bob_env 11, Connecting ''s2'' demo_handshake)]"

definition bob_auth :: "(env \<times> input) list" where
  "bob_auth = [(bob_env 12, Received ''s2'' ''auth.response'' (demo_response bob_claims))]"

definition bob_device :: device_record where
  "bob_device = \<lparr>dev_accountId = ''bob'', dev_deviceId = ''b1'', dev_novaId = ''NB'',
     dev_ed25519PublicKey = replicate 32 0, dev_status = Active\<rparr>"

definition bob_session :: session where
  "bob_session = \<lparr>ses_sessionId = ''SB'', ses_socketKey = ''s2'', ses_accountId = ''bob'',
     ses_deviceId = ''b1'', ses_novaId = ''NB'', ses_createdAtMs = 12, ses_expiresAtMs = 86400012\<rparr>"

definition bob_data :: socket_data where
  "bob_data = \<lparr>sd_session = Some bob_session, sd_authAttempts = 1,
     sd_limiters = snd (consumeAuthRate (createDomainRateLimiters demo_config) 12), sd_ip = ''10.0.0.1'',
     sd_rooms = [''account:bob'', ''device:b1'', ''conv:room'']\<rparr>"

definition joined_server :: server where
  "joined_server = sent_server
     \<lparr>sv_directory := (sv_directory sent_server)\<lparr>md_devices := [(''a1'', alice_device), (''b1'', bob_device)]\<rparr>,
      sv_devices := [(''a1'', alice_device), (''b1'', bob_device)],
      sv_challenges := \<lparr>cs_ttlMs = 60000, cs_challenges =
        [(''cB'', \<lparr>ch_socketKey = ''s2'', ch_accountId = WILDCARD, ch_deviceId = WILDCARD,
           ch_challengeBase64 = ''bB'', ch_expiresAtMs = 60011\<rparr>)]\<rparr>,
      sv_socketLimiters := [''s1'', ''s2''],
      sv_ipConnections := [(''10.0.0.1'', snd (allow \<lparr>bk_burst = 60, bk_perMinute = 60, bk_tokens = 59,
         bk_lastRefillMs = Some 1\<rparr> 11))],
      sv_sockets := [(''s1'', sent_data), (''s2'', anonymous_data)]\<rparr>"

definition bob_server :: server where
  "bob_server = joined_server
     \<lparr>sv_challenges := \<lparr>cs_ttlMs = 60000, cs_challenges = []\<rparr>,
      sv_sessions := \<lparr>sr_sessionTtlMs = 86400000, sr_sessions =
        [(''SA'', alice_session\<lparr>ses_expiresAtMs := 86400010\<rparr>), (''SB'', bob_session)]\<rparr>,
      sv_log := log_event (sv_log sent_server) 12 ''auth.success''
        [(''account_id'', Some (JStr ''bob'')), (''device_id'', Some (JStr ''b1'')), (''evicted'', Some (jint 0))],
      sv_sockets := [(''s1'', sent_data), (''s2'', bob_data)]\<rparr>"

lemma possible_send: "possible_run demo_crypto demo_server alice_sends"
  by (simp add: alice_sends_def demo_env_def fresh_session_def demo_server_def alice_session_def alice_data_def)

lemma send_run: "run_inputs demo_crypto demo_server alice_sends = sent_server"
  by (simp add: alice_sends_def dispatch_def demo_socket listeners_def send_any)

lemma sent_simps:
  "sv_config sent_server = demo_config" "sv_devices sent_server = [(''a1'', alice_device)]"
  "sv_challenges sent_server = \<lparr>cs_ttlMs = 60000, cs_challenges = []\<rparr>"
  "md_devices (sv_directory sent_server) = [(''a1'', alice_device)]"
  "sv_sockets sent_server = [(''s1'', sent_data)]" "sv_socketLimiters sent_server = [''s1'']"
  "sv_ipConnections sent_server = [(''10.0.0.1'', \<lparr>bk_burst = 60, bk_perMinute = 60, bk_tokens = 59, bk_lastRefillMs = Some 1\<rparr>)]"
  by (simp_all add: sent_server_def demo_server_def connected_server_def new_server_def)

definition registered_server :: server where
  "registered_server = sent_server
     \<lparr>sv_directory := (sv_directory sent_server)\<lparr>md_devices := [(''a1'', alice_device), (''b1'', bob_device)]\<rparr>,
      sv_devices := [(''a1'', alice_device), (''b1'', bob_device)]\<rparr>"

lemma bob_registers:
  "adminRegisterDevice demo_crypto sent_server ''bob'' ''b1'' ''NB'' (replicate 32 (CHR ''k'')) = registered_server"
  by (simp add: adminRegisterDevice_def Let_def register_device_def upsertDevice_def sent_simps demo_crypto_def
      registered_server_def bob_device_def)

lemma bob_admitted: "fst (allow \<lparr>bk_burst = 60, bk_perMinute = 60, bk_tokens = 59, bk_lastRefillMs = Some 1\<rparr> 11)"
  by code_simp

lemma bob_connects: "snd (react demo_crypto registered_server (bob_env 11) (Connecting ''s2'' demo_handshake)) = joined_server"
proof -
  obtain b where b: "allow \<lparr>bk_burst = 60, bk_perMinute = 60, bk_tokens = 59, bk_lastRefillMs = Some 1\<rparr> 11 = (True, b)"
    using bob_admitted by (metis (full_types) prod.collapse)
  show ?thesis
    by (simp add: connectionMiddleware_def onConnection_def Let_def clientIp_def demo_handshake_def registered_server_def
        sent_simps demo_config_def b bob_env_def issue_def issueBound_def sweep_def joined_server_def anonymous_data_def put_data_def set_add_def)
qed

lemma possible_join: "possible_run demo_crypto sent_server bob_joins"
  by (simp add: bob_joins_def bob_registers fresh_socket_def registered_server_def sent_simps)

lemma join_run: "run_inputs demo_crypto sent_server bob_joins = joined_server"
  by (simp add: bob_joins_def bob_registers bob_connects del: react.simps(1))

lemma possible_bob: "possible_run demo_crypto joined_server bob_auth"
  by (simp add: bob_auth_def bob_env_def fresh_session_def joined_server_def alice_session_def sent_data_def
      alice_data_def anonymous_data_def sent_server_def)

text \<open>Bob's handshake, computed piece by piece: the engine sees only the stores.\<close>

lemma bob_handshake:
  "handleAuthResponse demo_crypto [(''a1'', alice_device), (''b1'', bob_device)]
     \<lparr>cs_ttlMs = 60000, cs_challenges =
        [(''cB'', \<lparr>ch_socketKey = ''s2'', ch_accountId = WILDCARD, ch_deviceId = WILDCARD,
           ch_challengeBase64 = ''bB'', ch_expiresAtMs = 60011\<rparr>)]\<rparr>
     \<lparr>sr_sessionTtlMs = 86400000, sr_sessions = [(''SA'', alice_session\<lparr>ses_expiresAtMs := 86400010\<rparr>)]\<rparr>
     12 ''SB'' ''s2'' (payloadObject (demo_response bob_claims)) True =
   (\<lparr>hr_outcome = HsSuccess, hr_session = Some bob_session, hr_evicted = []\<rparr>,
    \<lparr>cs_ttlMs = 60000, cs_challenges = []\<rparr>,
    \<lparr>sr_sessionTtlMs = 86400000, sr_sessions =
        [(''SA'', alice_session\<lparr>ses_expiresAtMs := 86400010\<rparr>), (''SB'', bob_session)]\<rparr>)"
  by code_simp

lemma bob_keys:
  "lockoutScopeKeys (sv_config joined_server) d (payloadObject (demo_response bob_claims)) = [''device:b1'', ''ip:'' @ sd_ip d]"
  by (simp add: lockoutScopeKeys_def joined_server_def sent_server_def demo_server_def connected_server_def new_server_def
      demo_config_def demo_response_def bob_claims_def)

lemma joined_simps:
  "sv_sockets joined_server = [(''s1'', sent_data), (''s2'', anonymous_data)]"
  "sv_authFailures joined_server = new_tracker 5 120000 None"
  "sv_devices joined_server = [(''a1'', alice_device), (''b1'', bob_device)]"
  "sv_challenges joined_server = \<lparr>cs_ttlMs = 60000, cs_challenges =
        [(''cB'', \<lparr>ch_socketKey = ''s2'', ch_accountId = WILDCARD, ch_deviceId = WILDCARD,
           ch_challengeBase64 = ''bB'', ch_expiresAtMs = 60011\<rparr>)]\<rparr>"
  "sv_sessions joined_server = \<lparr>sr_sessionTtlMs = 86400000, sr_sessions = [(''SA'', alice_session\<lparr>ses_expiresAtMs := 86400010\<rparr>)]\<rparr>"
  "cf_maxAuthAttemptsPerConnection (sv_config joined_server) = 3"
  "sv_log joined_server = sv_log sent_server"
  "listConversationsForAccount (sv_directory joined_server) ''bob'' = [''room'']"
  by (simp_all add: joined_server_def sent_server_def demo_server_def connected_server_def new_server_def demo_config_def
      listConversationsForAccount_def get_set_def)

lemma bob_lockout:
  "isLocked (new_tracker 5 120000 None) 12 key = (False, new_tracker 5 120000 None)"
  "clear_failures (new_tracker 5 120000 None) key = new_tracker 5 120000 None"
  by (simp_all add: isLocked_def new_tracker_def clear_failures_def)

lemma bob_rate: "fst (consumeAuthRate (sd_limiters anonymous_data) 12)"
  by code_simp

lemma bob_authenticates:
  "snd (onAuthResponse demo_crypto joined_server (bob_env 12) ''s2'' anonymous_data (demo_response bob_claims)) = bob_server"
proof -
  obtain l where l: "consumeAuthRate (sd_limiters anonymous_data) 12 = (True, l)"
    using bob_rate by (cases "consumeAuthRate (sd_limiters anonymous_data) 12") simp
  then have rate: "consumeAuthRate (createDomainRateLimiters demo_config) 12 = (True, l)"
    by (simp add: anonymous_data_def)
  show ?thesis
    by (simp add: onAuthResponse_def complete_auth_def Let_def joined_simps bob_keys put_data_def bob_handshake
        rate bob_env_def anonymous_data_def bob_lockout starts_with_def grant_session_def log_to_def join_room_def
        bob_server_def bob_data_def bob_session_def set_add_def account_room_def device_room_def conv_room_def)
qed

lemma bob_run: "run_inputs demo_crypto joined_server bob_auth = bob_server"
  by (simp add: bob_auth_def dispatch_def joined_simps listeners_def bob_authenticates)

lemma reachable_sent: "reachable demo_crypto demo_config sent_server"
  using reachable_run [OF reachable_demo possible_send] by (simp only: send_run)

lemma reachable_bob: "reachable demo_crypto demo_config bob_server"
  using reachable_run [OF reachable_run [OF reachable_sent possible_join, unfolded join_run] possible_bob]
  by (simp only: bob_run)

lemma bob_sessions [simp]:
  "sd_session bob_data = Some bob_session" "ses_accountId bob_session = ''bob''" "ses_deviceId bob_session = ''b1''"
  by (simp_all add: bob_data_def bob_session_def)

lemma bob_socket: "map_get (sv_sockets bob_server) ''s2'' = Some bob_data"
  by (simp add: bob_server_def)

text \<open>Bob reports the message delivered and read, syncs, and calls; Alice updates her presence.\<close>

definition bob_delivered :: payload where
  "bob_delivered = Some (JObj [(''conversation_id'', JStr ''room''), (''message_id'', JStr ''m1'')])"

definition bob_read :: payload where
  "bob_read = Some (JObj [(''conversation_id'', JStr ''room''), (''last_read_seq'', jint 7)])"

definition bob_call :: payload where
  "bob_call = Some (JObj [(''peer_account_id'', JStr ''alice''), (''from_account_id'', JStr ''mallory''), (''sdp'', JStr ''v=0'')])"

definition alice_online :: payload where
  "alice_online = Some (JObj [(''status'', JStr ''online'')])"

definition room_page :: sync_page where
  "room_page = \<lparr>sp_conversationId = ''room'', sp_events =
     [\<lparr>ev_conversationId = ''room'', ev_type = EvMessageNew, ev_serverSeq = 1,
           ev_atMs = 10, ev_payload = first_wire, ev_logSeq = 1\<rparr>], sp_cursor = 1, sp_hasMore = False\<rparr>"

definition delivered_receipt :: fields where
  "delivered_receipt = [(''conversation_id'', JStr ''room''), (''message_id'', JStr ''m1''), (''by_account_id'', JStr ''bob''),
     (''by_device_id'', JStr ''b1''), (''server_seq'', jint 1), (''at_ms'', jint 20), (''log_seq'', jint 2)]"

definition read_receipt :: fields where
  "read_receipt = [(''conversation_id'', JStr ''room''), (''by_account_id'', JStr ''bob''),
     (''by_device_id'', JStr ''b1''), (''last_read_seq'', jint 1), (''at_ms'', jint 20), (''log_seq'', jint 2)]"

text \<open>Bob's events are let through, with the stores as they are.\<close>

lemma bob_env_now [simp]: "en_now (bob_env t) = t" "en_date (bob_env t) = t"
  by (simp_all add: bob_env_def)

lemma bob_rates:
  "fst (consumeRate (sd_limiters bob_data) RMessage 20)" "fst (consumeRate (sd_limiters bob_data) RSync 20)"
  "fst (consumeRate (sd_limiters bob_data) RSignaling 20)" "fst (consumeRate (sd_limiters alice_data) RPresence 20)"
  by code_simp+

lemma bob_fields: "sv_store bob_server = sv_store sent_server" "sv_config bob_server = demo_config"
  by (simp_all add: bob_server_def joined_server_def sent_simps)

lemma bob_admitted_event:
  assumes "fst (consumeRate (sd_limiters bob_data) rd 20)"
  obtains sv1 where "admit bob_server (bob_env 20) ''s2'' bob_data ev rd extra = Inr (bob_session, sv1)"
    "sv_directory sv1 = sv_directory bob_server" "sv_store sv1 = sv_store sent_server" "sv_config sv1 = demo_config"
proof -
  obtain reg where "validate (sv_sessions bob_server) (en_now (bob_env 20)) (ses_sessionId bob_session) ''s2'' = (SessionOk, reg)"
    by (simp add: bob_server_def validate_def bob_session_def)
  note adm = admitted [OF bob_sessions(1) this, of rd ev extra]
  show thesis
    by (rule that [OF adm]) (simp_all add: bob_fields assms)
qed

lemma bob_directory:
  "isConversationMember (sv_directory bob_server) ''room'' ''bob''"
  "hasRelationship (sv_directory bob_server) ''bob'' ''alice''"
  "listConversationsForAccount (sv_directory bob_server) ''bob'' = [''room'']"
  by (simp_all add: bob_server_def joined_server_def sent_server_def demo_simps connected_server_def
      isConversationMember_def hasRelationship_def listConversationsForAccount_def get_set_def)

lemma sent_store:
  "findMessage (sv_store sent_server) ''m1'' = Some (stored_of alice_session (room_envelope ''m1'' alice_session) 1 10)"
  "latestSeq (sv_store sent_server) ''room'' = 1" "latestLogSeq (sv_store sent_server) ''room'' = 1"
  "get_or 0 (ms_logCursors (sv_store sent_server)) ''room'' = 1"
  "eventsSince (sv_store sent_server) ''room'' 0 2 = sp_events room_page"
  by (simp_all add: findMessage_def latestSeq_def latestLogSeq_def eventsSince_def get_or_def sent_server_def stored_of_def
      room_envelope_def storage_key_def room_page_def slice0_def)

lemma delivered_effects:
  "fst (onMessageDelivered bob_server (bob_env 20) ''s2'' bob_data bob_delivered) =
     [Broadcast (conv_room ''room'') (Some ''s2'') MessageDelivered delivered_receipt]"
  by (rule bob_admitted_event [OF bob_rates(1), of MessageDelivered "[]"])
    (simp add: onMessageDelivered_def bob_delivered_def Let_def canReadConversation_def bob_directory sent_store
      stored_of_def room_envelope_def publish_receipt_def appendEvent_def delivered_receipt_def spread_def)

lemma read_effects:
  "fst (onMessageRead bob_server (bob_env 20) ''s2'' bob_data bob_read) =
     [Broadcast (conv_room ''room'') (Some ''s2'') MessageRead read_receipt]"
  by (rule bob_admitted_event [OF bob_rates(1), of MessageRead "[]"])
    (simp add: onMessageRead_def bob_read_def Let_def canReadConversation_def bob_directory sent_store
      read_mark_def publish_receipt_def appendEvent_def read_receipt_def spread_def)

lemma room_page_served: "serve_page (sv_store sent_server) 2 ''room'' 0 = Some room_page"
  by (simp add: serve_page_def Let_def sent_store) (simp add: room_page_def)

lemma sync_effects:
  "fst (onSyncRequest bob_server (bob_env 20) ''s2'' bob_data (Some (JObj []))) =
     [Join ''s2'' (conv_room ''room''), Emit ''s2'' SyncResponse (sync_response [room_page])]"
proof (rule bob_admitted_event [OF bob_rates(2), of SyncRequest "[]"])
  fix sv1
  assume sv1: "admit bob_server (bob_env 20) ''s2'' bob_data SyncRequest RSync [] = Inr (bob_session, sv1)"
    "sv_directory sv1 = sv_directory bob_server" "sv_store sv1 = sv_store sent_server" "sv_config sv1 = demo_config"
  have targets: "sync_targets sv1 bob_session [] = Inr ([''room''], [(''room'', 0)])"
    by (simp add: sync_targets_def Let_def sv1(2) bob_directory readCursor_def)
  have pages: "serve_pages (sv_store sv1) (cf_syncPageLimit (sv_config sv1)) [(''room'', 0)] [''room''] = ([room_page], True)"
    by (simp add: sv1 demo_config_def room_page_served)
  have "sp_conversationId room_page = ''room''" by (simp add: room_page_def)
  then show ?thesis
    by (simp add: onSyncRequest_def sv1(1) targets pages Let_def del: serve_pages.simps)
qed

lemma call_effects:
  "fst (onCallSignal bob_server (bob_env 20) ''s2'' bob_data CallOffer bob_call) =
     [Broadcast (account_room ''alice'') None CallOffer
        [(''from_account_id'', JStr ''bob''), (''from_device_id'', JStr ''b1''), (''sdp'', JStr ''v=0'')]]"
  by (rule bob_admitted_event [OF bob_rates(3), of CallOffer "[]"])
    (simp add: onCallSignal_def bob_call_def Let_def canSignalCall_def bob_directory strip_identity_def spread_def)

end
