(* ===== verification/E2EE_Keys.thy ===== *)
theory E2EE_Keys
  imports Device_Registry "HOL-Library.Monad_Syntax"
begin

text \<open>
  The key agreement of \<^verbatim>\<open>server/src/client/e2ee.ts\<close>: X25519 helpers and X3DH.

  What \<open>node:crypto\<close> and \<open>Buffer\<close>'s base64 compute are parameters, collected in a
  record. \<open>None\<close> is an exception. Random draws (a new private key, a nonce) are arguments.
  A string is the list of its UTF-8 bytes, so \<open>Buffer.from(s, 'utf8')\<close> reads off the
  characters' codes.
\<close>

section \<open>Cryptography\<close>

text \<open>
  \<open>ec_publicDer\<close> is the exported SPKI of a private key's public half, \<open>ec_dh\<close> is
  \<open>diffieHellman\<close> of a private key and the SPKI of a public one, \<open>ec_hkdf\<close> takes the
  key material, the salt, the info and the length, \<open>ec_hmac\<close> the key and the data,
  \<open>ec_seal\<close> and \<open>ec_open\<close> are AES-256-GCM with key, nonce and associated data; the
  sealed text comes with its tag.
\<close>

record e2ee_crypto =
  ec_publicDer :: "byte list \<Rightarrow> byte list"
  ec_dh :: "byte list \<Rightarrow> byte list \<Rightarrow> byte list option"
  ec_hkdf :: "byte list \<Rightarrow> byte list \<Rightarrow> string \<Rightarrow> nat \<Rightarrow> byte list"
  ec_hmac :: "byte list \<Rightarrow> byte list \<Rightarrow> byte list"
  ec_seal :: "byte list \<Rightarrow> byte list \<Rightarrow> byte list \<Rightarrow> byte list \<Rightarrow> byte list \<times> byte list"
  ec_open :: "byte list \<Rightarrow> byte list \<Rightarrow> byte list \<Rightarrow> byte list \<Rightarrow> byte list \<Rightarrow> byte list option"
  ec_toBase64 :: "byte list \<Rightarrow> string"
  ec_fromBase64 :: "string \<Rightarrow> byte list"

definition utf8 :: "string \<Rightarrow> byte list" where
  "utf8 s = map (\<lambda>ch. word_of_nat (of_char ch)) s"

definition from_utf8 :: "byte list \<Rightarrow> string" where
  "from_utf8 bs = map (\<lambda>b. char_of (unat b)) bs"

lemma from_utf8_utf8 [simp]: "from_utf8 (utf8 s) = s"
proof -
  have "(of_char ch :: nat) < 256" for ch by simp
  then show ?thesis by (simp add: from_utf8_def utf8_def comp_def unat_of_nat take_bit_eq_mod map_idI)
qed

text \<open>\<open>subarray(-n)\<close>.\<close>

definition last_bytes :: "nat \<Rightarrow> byte list \<Rightarrow> byte list" where
  "last_bytes n bs = drop (length bs - n) bs"

section \<open>X25519 helpers\<close>

record x25519_key_pair =
  kp_privateKey :: "byte list"
  kp_publicKey :: "byte list"
  kp_publicRaw :: "byte list"

definition generateX25519 :: "e2ee_crypto \<Rightarrow> byte list \<Rightarrow> x25519_key_pair" where
  "generateX25519 c privateKey =
     (let publicKey = ec_publicDer c privateKey in
      \<lparr>kp_privateKey = privateKey, kp_publicKey = publicKey, kp_publicRaw = last_bytes 32 publicKey\<rparr>)"

definition X25519_SPKI_PREFIX :: "byte list" where
  "X25519_SPKI_PREFIX = [0x30, 0x2a, 0x30, 0x05, 0x06, 0x03, 0x2b, 0x65, 0x6e, 0x03, 0x21, 0x00]"

definition X25519_PKCS8_PREFIX :: "byte list" where
  "X25519_PKCS8_PREFIX = [0x30, 0x2e, 0x02, 0x01, 0x00, 0x30, 0x05, 0x06, 0x03, 0x2b, 0x65, 0x6e, 0x04, 0x22, 0x04, 0x20]"

text \<open>The DER bytes handed to \<open>createPublicKey\<close> and \<open>createPrivateKey\<close>.\<close>

definition x25519PublicFromRaw :: "byte list \<Rightarrow> byte list option" where
  "x25519PublicFromRaw raw = (if length raw \<noteq> 32 then None else Some (X25519_SPKI_PREFIX @ raw))"

definition x25519PrivateFromRaw :: "byte list \<Rightarrow> byte list option" where
  "x25519PrivateFromRaw raw = (if length raw \<noteq> 32 then None else Some (X25519_PKCS8_PREFIX @ raw))"

section \<open>X3DH\<close>

record prekey_bundle =
  pb_identityKeyRaw :: "byte list"
  pb_signedPreKeyRaw :: "byte list"
  pb_oneTimePreKeyRaw :: "byte list option"

record x3dh_device =
  xd_identity :: x25519_key_pair
  xd_signedPreKey :: x25519_key_pair
  xd_oneTimePreKey :: x25519_key_pair

definition new_device :: "e2ee_crypto \<Rightarrow> byte list \<Rightarrow> byte list \<Rightarrow> byte list \<Rightarrow> x3dh_device" where
  "new_device c ik spk opk =
     \<lparr>xd_identity = generateX25519 c ik, xd_signedPreKey = generateX25519 c spk,
      xd_oneTimePreKey = generateX25519 c opk\<rparr>"

definition prekeys :: "x3dh_device \<Rightarrow> prekey_bundle" where
  "prekeys dev =
     \<lparr>pb_identityKeyRaw = kp_publicRaw (xd_identity dev),
      pb_signedPreKeyRaw = kp_publicRaw (xd_signedPreKey dev),
      pb_oneTimePreKeyRaw = Some (kp_publicRaw (xd_oneTimePreKey dev))\<rparr>"

record x3dh_sender_result =
  xs_sharedSecret :: "byte list"
  xs_ephemeralPublicRaw :: "byte list"
  xs_usedOneTimePreKey :: bool

text \<open>The derivation both sides end with: HKDF over the concatenation, a zero salt.\<close>

definition x3dh_secret :: "e2ee_crypto \<Rightarrow> byte list list \<Rightarrow> byte list" where
  "x3dh_secret c parts = ec_hkdf c (concat parts) (replicate 32 0) ''NovaApp-X3DH-v1'' 32"

definition x3dhSender :: "e2ee_crypto \<Rightarrow> x3dh_device \<Rightarrow> byte list \<Rightarrow> prekey_bundle \<Rightarrow> x3dh_sender_result option" where
  "x3dhSender c me ephemeralKey theirBundle =
     (let ephemeral = generateX25519 c ephemeralKey in
      do {
        theirIk \<leftarrow> x25519PublicFromRaw (pb_identityKeyRaw theirBundle);
        theirSpk \<leftarrow> x25519PublicFromRaw (pb_signedPreKeyRaw theirBundle);
        dh1 \<leftarrow> ec_dh c (kp_privateKey (xd_identity me)) theirSpk;
        dh2 \<leftarrow> ec_dh c (kp_privateKey ephemeral) theirIk;
        dh3 \<leftarrow> ec_dh c (kp_privateKey ephemeral) theirSpk;
        (case pb_oneTimePreKeyRaw theirBundle of
           None \<Rightarrow> Some \<lparr>xs_sharedSecret = x3dh_secret c [dh1, dh2, dh3],
             xs_ephemeralPublicRaw = kp_publicRaw ephemeral, xs_usedOneTimePreKey = False\<rparr>
         | Some opkRaw \<Rightarrow> do {
             theirOpk \<leftarrow> x25519PublicFromRaw opkRaw;
             dh4 \<leftarrow> ec_dh c (kp_privateKey ephemeral) theirOpk;
             Some \<lparr>xs_sharedSecret = x3dh_secret c [dh1, dh2, dh3, dh4],
               xs_ephemeralPublicRaw = kp_publicRaw ephemeral, xs_usedOneTimePreKey = True\<rparr>
           })
      })"

definition x3dhReceiver :: "e2ee_crypto \<Rightarrow> x3dh_device \<Rightarrow> byte list \<Rightarrow> byte list \<Rightarrow> bool \<Rightarrow> byte list option" where
  "x3dhReceiver c me senderIdentityRaw senderEphemeralRaw usedOneTimePreKey =
     do {
       theirIk \<leftarrow> x25519PublicFromRaw senderIdentityRaw;
       theirEk \<leftarrow> x25519PublicFromRaw senderEphemeralRaw;
       dh1 \<leftarrow> ec_dh c (kp_privateKey (xd_signedPreKey me)) theirIk;
       dh2 \<leftarrow> ec_dh c (kp_privateKey (xd_identity me)) theirEk;
       dh3 \<leftarrow> ec_dh c (kp_privateKey (xd_signedPreKey me)) theirEk;
       if usedOneTimePreKey
       then do {
         dh4 \<leftarrow> ec_dh c (kp_privateKey (xd_oneTimePreKey me)) theirEk;
         Some (x3dh_secret c [dh1, dh2, dh3, dh4])
       }
       else Some (x3dh_secret c [dh1, dh2, dh3])
     }"

section \<open>What the code relies on\<close>

text \<open>
  The documented behaviour: raw public keys have 32 bytes; two key pairs agree on a secret
  whichever half is whose, and generated keys always do; what has been sealed opens with the
  same key, nonce, associated data and tag; base64 decodes to what was encoded.
\<close>

definition crypto_laws :: "e2ee_crypto \<Rightarrow> bool" where
  "crypto_laws c \<longleftrightarrow>
     (\<forall>a. length (kp_publicRaw (generateX25519 c a)) = 32) \<and>
     (\<forall>a b. ec_dh c a (X25519_SPKI_PREFIX @ kp_publicRaw (generateX25519 c b)) \<noteq> None \<and>
        ec_dh c a (X25519_SPKI_PREFIX @ kp_publicRaw (generateX25519 c b)) =
        ec_dh c b (X25519_SPKI_PREFIX @ kp_publicRaw (generateX25519 c a))) \<and>
     (\<forall>k n aad p. ec_open c k n aad (fst (ec_seal c k n aad p)) (snd (ec_seal c k n aad p)) = Some p) \<and>
     (\<forall>bs. ec_fromBase64 c (ec_toBase64 c bs) = bs) \<and> ec_fromBase64 c [] = []"

lemma crypto_lawsD:
  assumes "crypto_laws c"
  shows "length (kp_publicRaw (generateX25519 c a)) = 32"
    "x25519PublicFromRaw (kp_publicRaw (generateX25519 c a)) = Some (X25519_SPKI_PREFIX @ kp_publicRaw (generateX25519 c a))"
    "\<exists>s. ec_dh c a (X25519_SPKI_PREFIX @ kp_publicRaw (generateX25519 c b)) = Some s"
    "ec_dh c a (X25519_SPKI_PREFIX @ kp_publicRaw (generateX25519 c b)) =
     ec_dh c b (X25519_SPKI_PREFIX @ kp_publicRaw (generateX25519 c a))"
    "ec_open c k n aad (fst (ec_seal c k n aad p)) (snd (ec_seal c k n aad p)) = Some p"
    "ec_fromBase64 c (ec_toBase64 c bs) = bs" "ec_fromBase64 c [] = []"
  using assms by (simp_all add: crypto_laws_def x25519PublicFromRaw_def)

lemma base64_inject: "crypto_laws c \<Longrightarrow> ec_toBase64 c bs = ec_toBase64 c bs' \<longleftrightarrow> bs = bs'"
  by (metis crypto_lawsD(6))

lemma base64_nonempty: "crypto_laws c \<Longrightarrow> bs \<noteq> [] \<Longrightarrow> ec_toBase64 c bs \<noteq> []"
  by (metis crypto_lawsD(6,7))

lemma generate_simps [simp]: "kp_privateKey (generateX25519 c a) = a"
  by (simp add: generateX25519_def Let_def)

section \<open>Agreement\<close>

lemma x3dh_agrees:
  assumes "crypto_laws c"
  obtains sk where
    "x3dhSender c (new_device c ika spka opka) ek ((prekeys (new_device c ikb spkb opkb))\<lparr>pb_oneTimePreKeyRaw :=
        if withOpk then Some (kp_publicRaw (generateX25519 c opkb)) else None\<rparr>) =
     Some \<lparr>xs_sharedSecret = sk, xs_ephemeralPublicRaw = kp_publicRaw (generateX25519 c ek), xs_usedOneTimePreKey = withOpk\<rparr>"
    "x3dhReceiver c (new_device c ikb spkb opkb) (kp_publicRaw (generateX25519 c ika))
       (kp_publicRaw (generateX25519 c ek)) withOpk = Some sk"
proof -
  let ?der = "\<lambda>a. X25519_SPKI_PREFIX @ kp_publicRaw (generateX25519 c a)"
  note pub = crypto_lawsD(2) [OF assms]
  obtain d1 d2 d3 d4 where d: "ec_dh c ika (?der spkb) = Some d1" "ec_dh c ek (?der ikb) = Some d2"
    "ec_dh c ek (?der spkb) = Some d3" "ec_dh c ek (?der opkb) = Some d4"
    using crypto_lawsD(3) [OF assms] by metis
  have mirror: "ec_dh c spkb (?der ika) = Some d1" "ec_dh c ikb (?der ek) = Some d2"
    "ec_dh c spkb (?der ek) = Some d3" "ec_dh c opkb (?der ek) = Some d4"
    using d crypto_lawsD(4) [OF assms] by metis+
  show thesis
    by (rule that [of "x3dh_secret c (if withOpk then [d1, d2, d3, d4] else [d1, d2, d3])"])
      (simp_all add: x3dhSender_def x3dhReceiver_def new_device_def prekeys_def Let_def pub d mirror)
qed

end
