(* ===== verification/E2EE_Ratchet.thy ===== *)
theory E2EE_Ratchet
  imports E2EE_Keys Wire
begin

text \<open>
  The Double Ratchet of \<^verbatim>\<open>server/src/client/e2ee.ts\<close>: sessions, encryption,
  decryption with skipped message keys, and the DH ratchet step. A method returns its result
  or the error it throws, together with the session it leaves: an exception does not undo what
  was already assigned.
\<close>

section \<open>Message keys and associated data\<close>

definition MAX_SKIPPED_KEYS :: nat where
  "MAX_SKIPPED_KEYS = 2000"

text \<open>\<open>message_number\<close> and \<open>previous_chain_length\<close> are integers.\<close>

record ratchet_message =
  rm_ciphertext :: string
  rm_nonce :: string
  rm_mac :: string
  rm_message_number :: int
  rm_previous_chain_length :: int
  rm_ratchet_public_key :: string

definition kdfRootKey :: "e2ee_crypto \<Rightarrow> byte list \<Rightarrow> byte list \<Rightarrow> byte list \<times> byte list" where
  "kdfRootKey c rootKey dhOut =
     (let derived = ec_hkdf c dhOut rootKey ''NovaApp-Ratchet-v1'' 64 in
      (take 32 derived, take 32 (drop 32 derived)))"

definition messageKey :: "e2ee_crypto \<Rightarrow> byte list \<Rightarrow> byte list" where
  "messageKey c chainKey = ec_hmac c chainKey [0x01]"

definition advanceChain :: "e2ee_crypto \<Rightarrow> byte list \<Rightarrow> byte list" where
  "advanceChain c chainKey = ec_hmac c chainKey [0x02]"

text \<open>\<open>writeUInt32LE(n >>> 0)\<close>: the low 32 bits, least significant byte first.\<close>

definition uint32LE :: "int \<Rightarrow> byte list" where
  "uint32LE n = map (\<lambda>i. word_of_int (n div 2 ^ (8 * i))) [0, 1, 2, 3]"

definition buildAad :: "string \<Rightarrow> int \<Rightarrow> int \<Rightarrow> byte list" where
  "buildAad ratchetPubB64 msgNum prevChainLen = utf8 ratchetPubB64 @ uint32LE msgNum @ uint32LE prevChainLen"

text \<open>A number in a template literal.\<close>

fun nat_string :: "nat \<Rightarrow> string" where
  "nat_string n = (if n < 10 then [char_of (48 + n)] else nat_string (n div 10) @ [char_of (48 + n mod 10)])"

declare nat_string.simps [simp del]

definition int_string :: "int \<Rightarrow> string" where
  "int_string n = (if n < 0 then ''-'' @ nat_string (nat (- n)) else nat_string (nat n))"

definition replay_key :: "int \<Rightarrow> string \<Rightarrow> string" where
  "replay_key n theirKeyB64 = int_string n @ ''-'' @ theirKeyB64"

section \<open>Sessions\<close>

record ratchet_session =
  rs_rootKey :: "byte list"
  rs_sendingChainKey :: "byte list option"
  rs_receivingChainKey :: "byte list option"
  rs_myRatchet :: x25519_key_pair
  rs_theirRatchetRaw :: "byte list option"
  rs_sendCount :: int
  rs_receiveCount :: int
  rs_previousSendCount :: int
  rs_skipped :: "(string \<times> byte list) list"
  rs_decrypted :: "string list"

datatype ratchet_error =
    NoSendingChain
  | AlreadyDecrypted
  | NoReceivingChain
  | SkippedLimitExceeded
  | CryptoFailure

definition new_ratchet :: "byte list \<Rightarrow> x25519_key_pair \<Rightarrow> ratchet_session" where
  "new_ratchet rootKey myRatchet =
     \<lparr>rs_rootKey = rootKey, rs_sendingChainKey = None, rs_receivingChainKey = None, rs_myRatchet = myRatchet,
      rs_theirRatchetRaw = None, rs_sendCount = 0, rs_receiveCount = 0, rs_previousSendCount = 0,
      rs_skipped = [], rs_decrypted = []\<rparr>"

definition initSender :: "e2ee_crypto \<Rightarrow> byte list \<Rightarrow> byte list \<Rightarrow> byte list \<Rightarrow> ratchet_session option" where
  "initSender c ratchetKey sharedSecret theirRatchetRaw =
     do {
       theirs \<leftarrow> x25519PublicFromRaw theirRatchetRaw;
       dhOut \<leftarrow> ec_dh c ratchetKey theirs;
       let (rootKey, chainKey) = kdfRootKey c sharedSecret dhOut;
       Some ((new_ratchet sharedSecret (generateX25519 c ratchetKey))
         \<lparr>rs_rootKey := rootKey, rs_sendingChainKey := Some chainKey, rs_theirRatchetRaw := Some theirRatchetRaw\<rparr>)
     }"

definition initReceiver :: "byte list \<Rightarrow> x25519_key_pair \<Rightarrow> ratchet_session" where
  "initReceiver sharedSecret myRatchet = new_ratchet sharedSecret myRatchet"

section \<open>Encrypting\<close>

text \<open>The sealed body for a key and a number.\<close>

definition seal :: "e2ee_crypto \<Rightarrow> string \<Rightarrow> int \<Rightarrow> int \<Rightarrow> byte list \<Rightarrow> byte list \<Rightarrow> string \<Rightarrow> ratchet_message" where
  "seal c ratchetPubB64 sendCount previousSendCount mk nonce plaintext =
     (let (ciphertext, mac) = ec_seal c mk nonce (buildAad ratchetPubB64 sendCount previousSendCount) (utf8 plaintext) in
      \<lparr>rm_ciphertext = ec_toBase64 c ciphertext, rm_nonce = ec_toBase64 c nonce, rm_mac = ec_toBase64 c mac,
       rm_message_number = sendCount, rm_previous_chain_length = previousSendCount,
       rm_ratchet_public_key = ratchetPubB64\<rparr>)"

definition encrypt :: "e2ee_crypto \<Rightarrow> ratchet_session \<Rightarrow> byte list \<Rightarrow> string
    \<Rightarrow> (ratchet_error + ratchet_message) \<times> ratchet_session" where
  "encrypt c s nonce plaintext =
     (case rs_sendingChainKey s of
        None \<Rightarrow> (Inl NoSendingChain, s)
      | Some chainKey \<Rightarrow>
          (let mk = messageKey c chainKey;
               ratchetPubB64 = ec_toBase64 c (kp_publicRaw (rs_myRatchet s)) in
           (Inr (seal c ratchetPubB64 (rs_sendCount s) (rs_previousSendCount s) mk nonce plaintext),
            s\<lparr>rs_sendingChainKey := Some (advanceChain c chainKey), rs_sendCount := rs_sendCount s + 1\<rparr>)))"

section \<open>Decrypting\<close>

definition open_body :: "e2ee_crypto \<Rightarrow> byte list \<Rightarrow> ratchet_message \<Rightarrow> string option" where
  "open_body c mk body =
     map_option from_utf8
       (ec_open c mk (ec_fromBase64 c (rm_nonce body))
         (buildAad (rm_ratchet_public_key body) (rm_message_number body) (rm_previous_chain_length body))
         (ec_fromBase64 c (rm_ciphertext body)) (ec_fromBase64 c (rm_mac body)))"

text \<open>
  What \<open>dhRatchetStep\<close> and \<open>initReceiverChains\<close> share: they differ in what they
  leave in \<open>previousSendCount\<close>. \<open>False\<close> is an exception. The second agreement can
  fail after the receiving chain has been replaced.
\<close>

definition ratchet_chains :: "e2ee_crypto \<Rightarrow> ratchet_session \<Rightarrow> int \<Rightarrow> byte list \<Rightarrow> byte list \<Rightarrow> bool \<times> ratchet_session" where
  "ratchet_chains c s previous newKey theirRaw =
     (case x25519PublicFromRaw theirRaw of
        None \<Rightarrow> (False, s)
      | Some theirKey \<Rightarrow>
          (case ec_dh c (kp_privateKey (rs_myRatchet s)) theirKey of
             None \<Rightarrow> (False, s)
           | Some recvDh \<Rightarrow>
               (let (rootKey, chainKey) = kdfRootKey c (rs_rootKey s) recvDh;
                    s1 = s\<lparr>rs_rootKey := rootKey, rs_receivingChainKey := Some chainKey,
                           rs_previousSendCount := previous, rs_sendCount := 0, rs_receiveCount := 0,
                           rs_theirRatchetRaw := Some theirRaw\<rparr> in
                case ec_dh c newKey theirKey of
                  None \<Rightarrow> (False, s1)
                | Some sendDh \<Rightarrow>
                    (let (rootKey2, chainKey2) = kdfRootKey c (rs_rootKey s1) sendDh in
                     (True, s1\<lparr>rs_rootKey := rootKey2, rs_sendingChainKey := Some chainKey2,
                               rs_myRatchet := generateX25519 c newKey\<rparr>)))))"

definition initReceiverChains :: "e2ee_crypto \<Rightarrow> ratchet_session \<Rightarrow> byte list \<Rightarrow> byte list \<Rightarrow> bool \<times> ratchet_session" where
  "initReceiverChains c s newKey theirRaw = ratchet_chains c s 0 newKey theirRaw"

definition dhRatchetStep :: "e2ee_crypto \<Rightarrow> ratchet_session \<Rightarrow> byte list \<Rightarrow> byte list \<Rightarrow> bool \<times> ratchet_session" where
  "dhRatchetStep c s newKey theirRaw = ratchet_chains c s (rs_sendCount s) newKey theirRaw"

text \<open>The loop that keeps the message keys it passes over.\<close>

function skip_keys :: "e2ee_crypto \<Rightarrow> ratchet_session \<Rightarrow> string \<Rightarrow> int \<Rightarrow> ratchet_error option \<times> ratchet_session" where
  "skip_keys c s theirKeyB64 n =
     (if rs_receiveCount s < n then
        (case rs_receivingChainKey s of
           None \<Rightarrow> (Some NoReceivingChain, s)
         | Some chainKey \<Rightarrow>
             (let s' = s\<lparr>rs_skipped := map_set (replay_key (rs_receiveCount s) theirKeyB64) (messageKey c chainKey) (rs_skipped s),
                         rs_receivingChainKey := Some (advanceChain c chainKey),
                         rs_receiveCount := rs_receiveCount s + 1\<rparr> in
              if length (rs_skipped s') > MAX_SKIPPED_KEYS then (Some SkippedLimitExceeded, s')
              else skip_keys c s' theirKeyB64 n))
      else (None, s))"
  by auto
termination by (relation "measure (\<lambda>(c, s, b, n). nat (n - rs_receiveCount s))") auto

declare skip_keys.simps [simp del]

definition decrypt :: "e2ee_crypto \<Rightarrow> ratchet_session \<Rightarrow> byte list \<Rightarrow> ratchet_message
    \<Rightarrow> (ratchet_error + string) \<times> ratchet_session" where
  "decrypt c s newKey body =
     (let theirRaw = ec_fromBase64 c (rm_ratchet_public_key body);
          isNewKey = (length (rm_ratchet_public_key body) > 0 \<and> rs_theirRatchetRaw s \<noteq> Some theirRaw);
          (ok, s1) = (if \<not> isNewKey then (True, s)
                      else if rs_receivingChainKey s \<noteq> None then dhRatchetStep c s newKey theirRaw
                      else initReceiverChains c s newKey theirRaw) in
      if \<not> ok then (Inl CryptoFailure, s1)
      else
        (let theirKeyB64 = ec_toBase64 c (case rs_theirRatchetRaw s1 of None \<Rightarrow> [] | Some raw \<Rightarrow> raw);
             key = replay_key (rm_message_number body) theirKeyB64 in
         if key \<in> set (rs_decrypted s1) then (Inl AlreadyDecrypted, s1)
         else (case map_get (rs_skipped s1) key of
             Some mk \<Rightarrow>
               (let s2 = s1\<lparr>rs_skipped := map_delete key (rs_skipped s1)\<rparr> in
                case open_body c mk body of
                  None \<Rightarrow> (Inl CryptoFailure, s2)
                | Some plaintext \<Rightarrow> (Inr plaintext, s2\<lparr>rs_decrypted := set_add key (rs_decrypted s2)\<rparr>))
           | None \<Rightarrow>
               (case skip_keys c s1 theirKeyB64 (rm_message_number body) of
                  (Some err, s2) \<Rightarrow> (Inl err, s2)
                | (None, s2) \<Rightarrow>
                    (case rs_receivingChainKey s2 of
                       None \<Rightarrow> (Inl NoReceivingChain, s2)
                     | Some chainKey \<Rightarrow>
                         (let s3 = s2\<lparr>rs_receivingChainKey := Some (advanceChain c chainKey),
                                      rs_receiveCount := rs_receiveCount s2 + 1\<rparr> in
                          case open_body c (messageKey c chainKey) body of
                            None \<Rightarrow> (Inl CryptoFailure, s3)
                          | Some plaintext \<Rightarrow>
                              (Inr plaintext, s3\<lparr>rs_decrypted := set_add key (rs_decrypted s3)\<rparr>)))))))"

section \<open>Envelopes\<close>

text \<open>
  \<open>JSON.stringify\<close> and \<open>JSON.parse\<close> on bodies are parameters; \<open>None\<close> is a
  \<open>SyntaxError\<close>. The type assertion of \<open>unpackEnvelope\<close> checks nothing: a text that
  is not the text of a body is outside the typed model and also \<open>None\<close>.
\<close>

record body_text =
  bt_stringify :: "ratchet_message \<Rightarrow> string"
  bt_parse :: "string \<Rightarrow> ratchet_message option"

definition packEnvelope :: "e2ee_crypto \<Rightarrow> body_text \<Rightarrow> ratchet_message \<Rightarrow> string" where
  "packEnvelope c bt body = ec_toBase64 c (utf8 (bt_stringify bt body))"

definition unpackEnvelope :: "e2ee_crypto \<Rightarrow> body_text \<Rightarrow> string \<Rightarrow> ratchet_message option" where
  "unpackEnvelope c bt ciphertextBase64 = bt_parse bt (from_utf8 (ec_fromBase64 c ciphertextBase64))"

section \<open>A pair of sessions\<close>

text \<open>The private keys drawn, in order: Alice's and Bob's three each, the ephemeral, Alice's ratchet.\<close>

record session_draws =
  dr_alice :: "byte list \<times> byte list \<times> byte list"
  dr_bob :: "byte list \<times> byte list \<times> byte list"
  dr_ephemeral :: "byte list"
  dr_ratchet :: "byte list"

definition establishSessions :: "e2ee_crypto \<Rightarrow> session_draws \<Rightarrow> (ratchet_session \<times> ratchet_session) option" where
  "establishSessions c dr =
     (let aliceDevice = (case dr_alice dr of (ik, spk, opk) \<Rightarrow> new_device c ik spk opk);
          bobDevice = (case dr_bob dr of (ik, spk, opk) \<Rightarrow> new_device c ik spk opk) in
      do {
        sender \<leftarrow> x3dhSender c aliceDevice (dr_ephemeral dr) (prekeys bobDevice);
        bobSecret \<leftarrow> x3dhReceiver c bobDevice (kp_publicRaw (xd_identity aliceDevice))
          (xs_ephemeralPublicRaw sender) (xs_usedOneTimePreKey sender);
        if xs_sharedSecret sender \<noteq> bobSecret then None
        else do {
          alice \<leftarrow> initSender c (dr_ratchet dr) (xs_sharedSecret sender) (kp_publicRaw (xd_signedPreKey bobDevice));
          Some (alice, initReceiver bobSecret (xd_signedPreKey bobDevice))
        }
      })"

end
