(* ===== verification/E2EE_Conversation.thy ===== *)
theory E2EE_Conversation
  imports E2EE_Ratchet
begin

text \<open>
  That the ratchet of \<^verbatim>\<open>server/src/client/e2ee.ts\<close> delivers: within a chain messages
  are decrypted in any order of arrival, each once, and two parties that take turns keep
  agreeing across the DH steps, from the X3DH secret on.
\<close>

section \<open>Replay keys\<close>

lemma nat_string_digits: "ch \<in> set (nat_string n) \<Longrightarrow> ch \<noteq> CHR ''-''"
proof (induction n rule: nat_string.induct)
  case (1 n)
  have "char_of (48 + d) \<noteq> CHR ''-''" if "d < 10" for d :: nat
  proof
    assume "char_of (48 + d) = CHR ''-''"
    then have "(of_char (char_of (48 + d)) :: nat) = of_char (CHR ''-'')" by simp
    with that show False by (simp add: take_bit_eq_mod)
  qed
  from this [of n] this [of "n mod 10"] 1(1) 1(2) [unfolded nat_string.simps [of n]] show ?case
    by (auto split: if_splits)
qed

definition digits_number :: "string \<Rightarrow> nat" where
  "digits_number s = foldl (\<lambda>n ch. 10 * n + (of_char ch - 48)) 0 s"

lemma digits_number_nat_string: "digits_number (nat_string n) = n"
proof (induction n rule: nat_string.induct)
  case (1 n)
  show ?case
  proof (cases "n < 10")
    case True
    then show ?thesis by (subst nat_string.simps) (simp add: digits_number_def take_bit_eq_mod)
  next
    case False
    with 1 have "digits_number (nat_string (n div 10)) = n div 10" by simp
    then show ?thesis
      using False by (subst nat_string.simps) (simp add: digits_number_def take_bit_eq_mod)
  qed
qed

lemma replay_key_inject [simp]: "replay_key (int i) b = replay_key (int j) b' \<longleftrightarrow> i = j \<and> b = b'"
proof
  assume eq: "replay_key (int i) b = replay_key (int j) b'"
  have split: "takeWhile (\<lambda>ch. ch \<noteq> CHR ''-'') (replay_key (int n) x) = nat_string n"
    "dropWhile (\<lambda>ch. ch \<noteq> CHR ''-'') (replay_key (int n) x) = CHR ''-'' # x" for n x
    using nat_string_digits [of _ n]
    by (simp_all add: replay_key_def int_string_def takeWhile_append2 dropWhile_append2)
  from eq have "nat_string i = nat_string j" "b = b'"
    using split by (metis, metis list.inject)
  then show "i = j \<and> b = b'" using digits_number_nat_string by metis
qed simp

section \<open>Encrypting a burst\<close>

definition chain_key :: "e2ee_crypto \<Rightarrow> byte list \<Rightarrow> nat \<Rightarrow> byte list" where
  "chain_key c ck i = (advanceChain c ^^ i) ck"

lemma chain_key_0 [simp]: "chain_key c ck 0 = ck"
  by (simp add: chain_key_def)

lemma advance_chain_key [simp]: "advanceChain c (chain_key c ck i) = chain_key c ck (Suc i)"
  by (simp add: chain_key_def)

text \<open>The body of message number \<open>i\<close> of a chain.\<close>

definition chain_body :: "e2ee_crypto \<Rightarrow> byte list \<Rightarrow> byte list \<Rightarrow> int \<Rightarrow> nat \<Rightarrow> byte list \<times> string \<Rightarrow> ratchet_message" where
  "chain_body c pub ck previous i m =
     seal c (ec_toBase64 c pub) (int i) previous (messageKey c (chain_key c ck i)) (fst m) (snd m)"

fun encrypt_all :: "e2ee_crypto \<Rightarrow> ratchet_session \<Rightarrow> (byte list \<times> string) list
    \<Rightarrow> ratchet_message list \<times> ratchet_session" where
  "encrypt_all c s [] = ([], s)"
| "encrypt_all c s ((nonce, plaintext) # ms) =
     (case encrypt c s nonce plaintext of
        (Inl err, s') \<Rightarrow> ([], s')
      | (Inr body, s') \<Rightarrow> (let (bodies, s'') = encrypt_all c s' ms in (body # bodies, s'')))"

lemma encrypt_all_bodies:
  assumes "rs_sendingChainKey s = Some (chain_key c ck k)" "rs_sendCount s = int k"
  shows "encrypt_all c s ms =
    (map (\<lambda>j. chain_body c (kp_publicRaw (rs_myRatchet s)) ck (rs_previousSendCount s) (k + j) (ms ! j)) [0..<length ms],
     s\<lparr>rs_sendingChainKey := Some (chain_key c ck (k + length ms)), rs_sendCount := int (k + length ms)\<rparr>)"
  using assms
proof (induction ms arbitrary: s k)
  case Nil
  then show ?case by simp
next
  case (Cons m ms)
  let ?s' = "s\<lparr>rs_sendingChainKey := Some (chain_key c ck (Suc k)), rs_sendCount := int (Suc k)\<rparr>"
  have enc: "encrypt c s (fst m) (snd m) =
      (Inr (chain_body c (kp_publicRaw (rs_myRatchet s)) ck (rs_previousSendCount s) k m), ?s')"
    using Cons.prems by (simp add: encrypt_def Let_def chain_body_def)
  have rest: "[0..<Suc (length ms)] = 0 # map Suc [0..<length ms]"
    by (simp add: upt_conv_Cons map_Suc_upt del: upt_Suc)
  from Cons.IH [of ?s' "Suc k"] enc show ?case
    by (cases m) (simp add: rest comp_def del: upt_Suc)
qed

section \<open>Decrypting within a chain\<close>

fun decrypt_all :: "e2ee_crypto \<Rightarrow> byte list \<Rightarrow> ratchet_session \<Rightarrow> ratchet_message list
    \<Rightarrow> (ratchet_error + string) list \<times> ratchet_session" where
  "decrypt_all c newKey s [] = ([], s)"
| "decrypt_all c newKey s (body # bodies) =
     (let (r, s') = decrypt c s newKey body; (rs, s'') = decrypt_all c newKey s' bodies in (r # rs, s''))"

text \<open>The part of a session that receiving within a chain leaves alone.\<close>

definition own_part :: "ratchet_session \<Rightarrow> byte list \<times> byte list option \<times> x25519_key_pair \<times> byte list option \<times> int \<times> int" where
  "own_part s = (rs_rootKey s, rs_sendingChainKey s, rs_myRatchet s, rs_theirRatchetRaw s, rs_sendCount s, rs_previousSendCount s)"

lemma length_map_set: "length (map_set k v m) \<le> Suc (length m)"
  by (induction m) auto

text \<open>
  Where a receiver is in the peer's chain: the messages of \<open>D\<close> are decrypted, the keys of the
  others below the receive count are kept, and \<open>old\<close> are the replay keys of earlier chains.
\<close>

definition in_chain ::
  "e2ee_crypto \<Rightarrow> byte list \<Rightarrow> byte list \<Rightarrow> string set \<Rightarrow> nat set \<Rightarrow> nat \<Rightarrow> ratchet_session \<Rightarrow> bool" where
  "in_chain c ck pub old D r s \<longleftrightarrow>
     rs_theirRatchetRaw s = Some pub \<and> rs_receiveCount s = int r \<and>
     rs_receivingChainKey s = Some (chain_key c ck r) \<and> D \<subseteq> {..<r} \<and> (r = 0 \<or> r - 1 \<in> D) \<and>
     length (rs_skipped s) \<le> r \<and>
     (\<forall>i < r. i \<notin> D \<longrightarrow> map_get (rs_skipped s) (replay_key (int i) (ec_toBase64 c pub)) = Some (messageKey c (chain_key c ck i))) \<and>
     (\<forall>k. map_get (rs_skipped s) k \<noteq> None \<longrightarrow> (\<exists>i < r. i \<notin> D \<and> k = replay_key (int i) (ec_toBase64 c pub))) \<and>
     set (rs_decrypted s) = old \<union> (\<lambda>i. replay_key (int i) (ec_toBase64 c pub)) ` D"

lemma skip_keys_run:
  assumes "r \<le> i" "rs_receivingChainKey s = Some (chain_key c ck r)" "rs_receiveCount s = int r"
    "length (rs_skipped s) \<le> r" "i \<le> MAX_SKIPPED_KEYS"
  shows "\<exists>sk. skip_keys c s b (int i) = (None, s\<lparr>rs_skipped := sk, rs_receivingChainKey := Some (chain_key c ck i),
      rs_receiveCount := int i\<rparr>) \<and> length sk \<le> i \<and>
    (\<forall>j. r \<le> j \<longrightarrow> j < i \<longrightarrow> map_get sk (replay_key (int j) b) = Some (messageKey c (chain_key c ck j))) \<and>
    (\<forall>k. (\<forall>j. r \<le> j \<longrightarrow> j < i \<longrightarrow> k \<noteq> replay_key (int j) b) \<longrightarrow> map_get sk k = map_get (rs_skipped s) k)"
  using assms
proof (induction "i - r" arbitrary: r s)
  case 0
  then show ?case by (intro exI [of _ "rs_skipped s"]) (simp add: skip_keys.simps)
next
  case (Suc n)
  let ?sk = "map_set (replay_key (int r) b) (messageKey c (chain_key c ck r)) (rs_skipped s)"
  let ?s' = "s\<lparr>rs_skipped := ?sk, rs_receivingChainKey := Some (chain_key c ck (Suc r)), rs_receiveCount := int (Suc r)\<rparr>"
  have len: "length ?sk \<le> Suc r"
    using Suc.prems(4) length_map_set [of "replay_key (int r) b" "messageKey c (chain_key c ck r)" "rs_skipped s"] by linarith
  have r: "r < i" and n: "n = i - Suc r" using Suc.hyps(2) by simp_all
  have step: "skip_keys c s b (int i) = skip_keys c ?s' b (int i)"
    using r len Suc.prems by (subst skip_keys.simps) (simp add: Let_def add.commute)
  obtain sk where sk: "skip_keys c ?s' b (int i) = (None, ?s'\<lparr>rs_skipped := sk, rs_receivingChainKey := Some (chain_key c ck i),
      rs_receiveCount := int i\<rparr>)" "length sk \<le> i"
    "\<forall>j. Suc r \<le> j \<longrightarrow> j < i \<longrightarrow> map_get sk (replay_key (int j) b) = Some (messageKey c (chain_key c ck j))"
    "\<forall>k. (\<forall>j. Suc r \<le> j \<longrightarrow> j < i \<longrightarrow> k \<noteq> replay_key (int j) b) \<longrightarrow> map_get sk k = map_get ?sk k"
    using Suc.hyps(1) [of "Suc r" ?s'] n Suc.prems(5) r len by auto
  have "map_get sk (replay_key (int r) b) = Some (messageKey c (chain_key c ck r))"
    using sk(4) by simp
  then have "map_get sk (replay_key (int j) b) = Some (messageKey c (chain_key c ck j))" if "r \<le> j" "j < i" for j
    using sk(3) that by (cases "j = r") simp_all
  moreover have "map_get sk k = map_get (rs_skipped s) k" if "\<forall>j. r \<le> j \<longrightarrow> j < i \<longrightarrow> k \<noteq> replay_key (int j) b" for k
    using sk(4) that r by simp
  ultimately show ?case
    using sk(1,2) step by (intro exI [of _ sk]) simp
qed

lemma open_chain_body:
  assumes "crypto_laws c"
  shows "open_body c (messageKey c (chain_key c ck i)) (chain_body c pub ck previous i m) = Some (snd m)"
  using crypto_lawsD(5,6) [OF assms]
  by (simp add: open_body_def chain_body_def seal_def case_prod_beta)

lemma chain_body_simps [simp]:
  "rm_message_number (chain_body c pub ck previous i m) = int i"
  "rm_ratchet_public_key (chain_body c pub ck previous i m) = ec_toBase64 c pub"
  by (simp_all add: chain_body_def seal_def case_prod_beta)


lemma body_decrypted_as:
  assumes "crypto_laws c" "pub \<noteq> []" "rs_theirRatchetRaw s = Some pub"
  shows "decrypt c s newKey (chain_body c pub ck previous i m) =
    (let key = replay_key (int i) (ec_toBase64 c pub) in
     if key \<in> set (rs_decrypted s) then (Inl AlreadyDecrypted, s)
     else (case map_get (rs_skipped s) key of
         Some mk \<Rightarrow>
           (case open_body c mk (chain_body c pub ck previous i m) of
              None \<Rightarrow> (Inl CryptoFailure, s\<lparr>rs_skipped := map_delete key (rs_skipped s)\<rparr>)
            | Some p \<Rightarrow> (Inr p, s\<lparr>rs_skipped := map_delete key (rs_skipped s), rs_decrypted := set_add key (rs_decrypted s)\<rparr>))
       | None \<Rightarrow>
           (case skip_keys c s (ec_toBase64 c pub) (int i) of
              (Some err, s2) \<Rightarrow> (Inl err, s2)
            | (None, s2) \<Rightarrow>
                (case rs_receivingChainKey s2 of
                   None \<Rightarrow> (Inl NoReceivingChain, s2)
                 | Some chainKey \<Rightarrow>
                     (let s3 = s2\<lparr>rs_receivingChainKey := Some (advanceChain c chainKey),
                                  rs_receiveCount := rs_receiveCount s2 + 1\<rparr> in
                      case open_body c (messageKey c chainKey) (chain_body c pub ck previous i m) of
                        None \<Rightarrow> (Inl CryptoFailure, s3)
                      | Some p \<Rightarrow> (Inr p, s3\<lparr>rs_decrypted := set_add key (rs_decrypted s3)\<rparr>))))))"
  using assms by (simp add: decrypt_def Let_def crypto_lawsD(6) cong: if_cong option.case_cong prod.case_cong)

text \<open>A message of the chain not yet decrypted is, wherever the receiver stands.\<close>

lemma decrypt_in_chain:
  assumes laws: "crypto_laws c" and pub: "pub \<noteq> []" and st: "in_chain c ck pub old D r s"
    and i: "i \<notin> D" "i \<le> MAX_SKIPPED_KEYS" and fresh: "\<forall>i. replay_key (int i) (ec_toBase64 c pub) \<notin> old"
  shows "\<exists>s' r'. decrypt c s newKey (chain_body c pub ck previous i m) = (Inr (snd m), s') \<and>
    in_chain c ck pub old (insert i D) r' s' \<and> own_part s' = own_part s"
proof -
  let ?b = "ec_toBase64 c pub" and ?key = "replay_key (int i) (ec_toBase64 c pub)"
  have s: "rs_theirRatchetRaw s = Some pub" "rs_receiveCount s = int r" "rs_receivingChainKey s = Some (chain_key c ck r)"
    "D \<subseteq> {..<r}" "length (rs_skipped s) \<le> r"
    "\<And>j. j < r \<Longrightarrow> j \<notin> D \<Longrightarrow> map_get (rs_skipped s) (replay_key (int j) ?b) = Some (messageKey c (chain_key c ck j))"
    "\<And>k. map_get (rs_skipped s) k \<noteq> None \<Longrightarrow> \<exists>j < r. j \<notin> D \<and> k = replay_key (int j) ?b"
    "set (rs_decrypted s) = old \<union> (\<lambda>i. replay_key (int i) ?b) ` D"
    using st unfolding in_chain_def by blast+
  have new: "?key \<notin> set (rs_decrypted s)" using s(8) fresh i(1) by auto
  note dec = body_decrypted_as [OF laws pub s(1)]
  show ?thesis
  proof (cases "i < r")
    case True
    let ?s' = "s\<lparr>rs_skipped := map_delete ?key (rs_skipped s), rs_decrypted := set_add ?key (rs_decrypted s)\<rparr>"
    have "decrypt c s newKey (chain_body c pub ck previous i m) = (Inr (snd m), ?s')"
      using new s(6) [OF True i(1)] by (simp add: dec open_chain_body [OF laws] Let_def)
    moreover have "length (map_delete ?key (rs_skipped s)) \<le> r"
      using s(5) length_delete_le [of ?key "rs_skipped s"] by linarith
    then have "in_chain c ck pub old (insert i D) r ?s'"
      using st True s(7) by (auto simp: in_chain_def)
    ultimately show ?thesis by (intro exI [of _ ?s'] exI [of _ r]) (simp add: own_part_def)
  next
    case False
    then have ri: "r \<le> i" by simp
    obtain sk where sk: "skip_keys c s ?b (int i) = (None, s\<lparr>rs_skipped := sk, rs_receivingChainKey := Some (chain_key c ck i),
        rs_receiveCount := int i\<rparr>)" "length sk \<le> i"
      "\<And>j. r \<le> j \<Longrightarrow> j < i \<Longrightarrow> map_get sk (replay_key (int j) ?b) = Some (messageKey c (chain_key c ck j))"
      "\<And>k. (\<And>j. r \<le> j \<Longrightarrow> j < i \<Longrightarrow> k \<noteq> replay_key (int j) ?b) \<Longrightarrow> map_get sk k = map_get (rs_skipped s) k"
      using skip_keys_run [OF ri s(3,2,5) i(2), of ?b] by blast
    have "map_get (rs_skipped s) ?key = None" using s(7) [of ?key] False by fastforce
    let ?s' = "s\<lparr>rs_skipped := sk, rs_receivingChainKey := Some (chain_key c ck (Suc i)), rs_receiveCount := int (Suc i),
        rs_decrypted := set_add ?key (rs_decrypted s)\<rparr>"
    have "decrypt c s newKey (chain_body c pub ck previous i m) = (Inr (snd m), ?s')"
      using new \<open>map_get (rs_skipped s) ?key = None\<close> by (simp add: dec sk(1) open_chain_body [OF laws] Let_def)
    moreover have "map_get sk (replay_key (int j) ?b) = Some (messageKey c (chain_key c ck j))"
      if "j < Suc i" "j \<notin> insert i D" for j
      using that sk(3) [of j] sk(4) [of "replay_key (int j) ?b"] s(6) [of j] by (cases "r \<le> j") auto
    moreover have "\<exists>j < Suc i. j \<notin> insert i D \<and> k = replay_key (int j) ?b" if "map_get sk k \<noteq> None" for k
    proof (cases "\<exists>j. r \<le> j \<and> j < i \<and> k = replay_key (int j) ?b")
      case True
      then show ?thesis using s(4) by (auto intro: less_SucI)
    next
      case none: False
      then have "map_get (rs_skipped s) k \<noteq> None" using sk(4) [of k] that by auto
      then obtain j where "j < r" "j \<notin> D" "k = replay_key (int j) ?b" using s(7) by blast
      with ri show ?thesis by (intro exI [of _ j]) simp
    qed
    ultimately have "in_chain c ck pub old (insert i D) (Suc i) ?s'"
      using s(1,4,8) ri sk(2) by (auto simp: in_chain_def)
    with \<open>decrypt c s newKey (chain_body c pub ck previous i m) = (Inr (snd m), ?s')\<close> show ?thesis
      by (intro exI [of _ ?s'] exI [of _ "Suc i"]) (simp add: own_part_def)
  qed
qed

text \<open>So a burst arrives whole, in any order.\<close>

lemma decrypt_all_in_chain:
  assumes "crypto_laws c" "pub \<noteq> []" "in_chain c ck pub old D r s" "distinct order" "set order \<inter> D = {}"
    "\<forall>i \<in> set order. i \<le> MAX_SKIPPED_KEYS" "\<forall>i. replay_key (int i) (ec_toBase64 c pub) \<notin> old"
  shows "\<exists>s' r'. decrypt_all c newKey s (map (\<lambda>i. chain_body c pub ck previous i (ms ! i)) order) =
      (map (\<lambda>i. Inr (snd (ms ! i))) order, s') \<and>
    in_chain c ck pub old (D \<union> set order) r' s' \<and> own_part s' = own_part s"
  using assms(3-6)
proof (induction order arbitrary: D r s)
  case Nil
  then show ?case by auto
next
  case (Cons i order)
  obtain s1 r1 where one: "decrypt c s newKey (chain_body c pub ck previous i (ms ! i)) = (Inr (snd (ms ! i)), s1)"
    "in_chain c ck pub old (insert i D) r1 s1" "own_part s1 = own_part s"
    using decrypt_in_chain [OF assms(1,2) Cons.prems(1) _ _ assms(7), of i newKey previous "ms ! i"] Cons.prems(3,4) by auto
  obtain s2 r2 where rest: "decrypt_all c newKey s1 (map (\<lambda>i. chain_body c pub ck previous i (ms ! i)) order) =
      (map (\<lambda>i. Inr (snd (ms ! i))) order, s2)"
    "in_chain c ck pub old (insert i D \<union> set order) r2 s2" "own_part s2 = own_part s1"
    using Cons.IH [OF one(2)] Cons.prems(2,3,4) by auto
  then show ?case using one by (intro exI [of _ s2] exI [of _ r2]) simp
qed

section \<open>Taking turns\<close>

text \<open>
  \<open>A\<close> may speak, and \<open>B\<close> has not seen \<open>A\<close>'s ratchet key yet: \<open>A\<close>'s sending chain is
  the one \<open>B\<close> will derive. \<open>used\<close> are the ratchet keys that have been in use; no other
  key has left a trace.
\<close>

abbreviation raw_of :: "e2ee_crypto \<Rightarrow> byte list \<Rightarrow> byte list" where
  "raw_of c k \<equiv> kp_publicRaw (generateX25519 c k)"

definition traceless :: "e2ee_crypto \<Rightarrow> byte list \<Rightarrow> ratchet_session \<Rightarrow> bool" where
  "traceless c pub s \<longleftrightarrow> (\<forall>i. replay_key (int i) (ec_toBase64 c pub) \<notin> set (rs_decrypted s))"

definition may_speak :: "e2ee_crypto \<Rightarrow> byte list set \<Rightarrow> ratchet_session \<Rightarrow> ratchet_session \<Rightarrow> bool" where
  "may_speak c used A B \<longleftrightarrow>
     (\<exists>a b ck d. rs_myRatchet A = generateX25519 c a \<and> rs_myRatchet B = generateX25519 c b \<and>
        rs_theirRatchetRaw A = Some (raw_of c b) \<and> rs_theirRatchetRaw B \<noteq> Some (raw_of c a) \<and>
        rs_sendCount A = 0 \<and> rs_sendingChainKey A = Some ck \<and>
        ec_dh c a (X25519_SPKI_PREFIX @ raw_of c b) = Some d \<and> kdfRootKey c (rs_rootKey B) d = (rs_rootKey A, ck) \<and>
        raw_of c a \<in> used \<and> raw_of c b \<in> used \<and> traceless c (raw_of c a) B) \<and>
     rs_skipped A = [] \<and> rs_skipped B = [] \<and> (\<forall>p. p \<notin> used \<longrightarrow> traceless c p A \<and> traceless c p B)"

text \<open>The DH step with a new key of the peer, when the agreements succeed.\<close>

lemma ratchet_chains_step:
  assumes laws: "crypto_laws c" and my: "rs_myRatchet B = generateX25519 c b"
    and d: "ec_dh c a (X25519_SPKI_PREFIX @ raw_of c b) = Some d" and kdf: "kdfRootKey c (rs_rootKey B) d = (rk, ck)"
  obtains d2 root2 ck2 where "ec_dh c newKey (X25519_SPKI_PREFIX @ raw_of c a) = Some d2" "kdfRootKey c rk d2 = (root2, ck2)"
    "\<And>previous. ratchet_chains c B previous newKey (raw_of c a) =
      (True, B\<lparr>rs_rootKey := root2, rs_receivingChainKey := Some ck, rs_previousSendCount := previous, rs_sendCount := 0,
         rs_receiveCount := 0, rs_theirRatchetRaw := Some (raw_of c a), rs_sendingChainKey := Some ck2,
         rs_myRatchet := generateX25519 c newKey\<rparr>)"
proof -
  obtain d2 where d2: "ec_dh c newKey (X25519_SPKI_PREFIX @ raw_of c a) = Some d2"
    using crypto_lawsD(3) [OF laws] by blast
  obtain root2 ck2 where k2: "kdfRootKey c rk d2 = (root2, ck2)" by fastforce
  have "ec_dh c b (X25519_SPKI_PREFIX @ raw_of c a) = Some d" using d crypto_lawsD(4) [OF laws] by metis
  then show thesis
    by (intro that [OF d2 k2]) (simp add: ratchet_chains_def crypto_lawsD(2) [OF laws] my kdf d2 k2)
qed

lemma decrypt_new_key:
  assumes "crypto_laws c" "pub \<noteq> []" "rs_theirRatchetRaw s \<noteq> Some pub"
    "\<And>previous. ratchet_chains c s previous newKey pub = (True, t previous)"
    "\<And>previous. rs_theirRatchetRaw (t previous) = Some pub"
  shows "\<exists>previous. decrypt c s newKey (chain_body c pub ck0 p0 i m) = decrypt c (t previous) newKey (chain_body c pub ck0 p0 i m)"
  using assms base64_nonempty [OF assms(1,2)]
  by (cases "rs_receivingChainKey s = None")
    (auto simp: decrypt_def Let_def crypto_lawsD(6) initReceiverChains_def dhRatchetStep_def)

text \<open>A turn: the burst arrives whole in whatever order, and the other side may speak.\<close>

lemma turn_taken:
  assumes laws: "crypto_laws c" and speak: "may_speak c used A B" and fresh: "raw_of c newKey \<notin> used"
    and n: "ms \<noteq> []" "length ms \<le> MAX_SKIPPED_KEYS + 1" and order: "distinct order" "set order = {..<length ms}"
  obtains bodies A' B' where "encrypt_all c A ms = (bodies, A')"
    "decrypt_all c newKey B (map ((!) bodies) order) = (map (\<lambda>i. Inr (snd (ms ! i))) order, B')"
    "may_speak c (insert (raw_of c newKey) used) B' A'"
proof -
  obtain a b ck d where ab: "rs_myRatchet A = generateX25519 c a" "rs_myRatchet B = generateX25519 c b"
      "rs_theirRatchetRaw A = Some (raw_of c b)" "rs_theirRatchetRaw B \<noteq> Some (raw_of c a)"
      "rs_sendCount A = 0" "rs_sendingChainKey A = Some ck"
      "ec_dh c a (X25519_SPKI_PREFIX @ raw_of c b) = Some d" "kdfRootKey c (rs_rootKey B) d = (rs_rootKey A, ck)"
      "raw_of c a \<in> used" "raw_of c b \<in> used" "traceless c (raw_of c a) B"
    and sk: "rs_skipped A = []" "rs_skipped B = []" and clean: "\<And>p. p \<notin> used \<Longrightarrow> traceless c p A \<and> traceless c p B"
    using speak by (auto simp: may_speak_def)
  let ?pub = "raw_of c a" and ?prev = "rs_previousSendCount A"
  let ?body = "\<lambda>i. chain_body c ?pub ck ?prev i (ms ! i)"
  have pub: "?pub \<noteq> []" using crypto_lawsD(1) [OF laws, of a] by auto
  define A' where "A' = A\<lparr>rs_sendingChainKey := Some (chain_key c ck (length ms)), rs_sendCount := int (length ms)\<rparr>"
  have enc: "encrypt_all c A ms = (map ?body [0..<length ms], A')"
    using encrypt_all_bodies [of A c ck 0 ms] ab by (simp add: A'_def)
  have bodies: "map ((!) (map ?body [0..<length ms])) order = map ?body order"
    using order(2) by simp
  obtain d2 root2 ck2 where step: "ec_dh c newKey (X25519_SPKI_PREFIX @ ?pub) = Some d2"
      "kdfRootKey c (rs_rootKey A) d2 = (root2, ck2)" and
    chains: "\<And>previous. ratchet_chains c B previous newKey ?pub =
      (True, B\<lparr>rs_rootKey := root2, rs_receivingChainKey := Some ck, rs_previousSendCount := previous, rs_sendCount := 0,
         rs_receiveCount := 0, rs_theirRatchetRaw := Some ?pub, rs_sendingChainKey := Some ck2,
         rs_myRatchet := generateX25519 c newKey\<rparr>)"
    by (rule ratchet_chains_step [OF laws ab(2,7,8), of newKey]) (rule that; assumption)
  define B1 where "B1 = (\<lambda>previous. B\<lparr>rs_rootKey := root2, rs_receivingChainKey := Some ck, rs_previousSendCount := previous,
         rs_sendCount := 0, rs_receiveCount := 0, rs_theirRatchetRaw := Some ?pub, rs_sendingChainKey := Some ck2,
         rs_myRatchet := generateX25519 c newKey\<rparr>)"
  obtain i rest where or: "order = i # rest" using order(2) n(1) by (cases order) auto
  obtain previous where first: "decrypt c B newKey (?body i) = decrypt c (B1 previous) newKey (?body i)"
    using decrypt_new_key [OF laws pub ab(4), of newKey B1 ck ?prev i "ms ! i"] chains by (auto simp: B1_def)
  then have all: "decrypt_all c newKey B (map ?body order) = decrypt_all c newKey (B1 previous) (map ?body order)"
    by (simp add: or)
  have start: "in_chain c ck ?pub (set (rs_decrypted B)) {} 0 (B1 previous)"
    using sk by (simp add: in_chain_def B1_def)
  have small: "\<forall>i \<in> set order. i \<le> MAX_SKIPPED_KEYS" using order(2) n(2) by auto
  obtain B' r where B': "decrypt_all c newKey (B1 previous) (map ?body order) = (map (\<lambda>i. Inr (snd (ms ! i))) order, B')"
    "in_chain c ck ?pub (set (rs_decrypted B)) {..<length ms} r B'" "own_part B' = own_part (B1 previous)"
    using decrypt_all_in_chain [OF laws pub start order(1) _ small, of newKey ?prev ms] ab(11) order(2)
    by (auto simp: traceless_def)
  have own: "rs_rootKey B' = root2" "rs_sendingChainKey B' = Some ck2" "rs_myRatchet B' = generateX25519 c newKey"
    "rs_theirRatchetRaw B' = Some ?pub" "rs_sendCount B' = 0"
    using B'(3) by (simp_all add: own_part_def B1_def)
  have "r \<le> length ms" using B'(2) by (auto simp: in_chain_def)
  then have "map_get (rs_skipped B') k = None" for k
    using B'(2) unfolding in_chain_def by (metis lessThan_iff less_le_trans)
  then have skB: "rs_skipped B' = []" by (metis map_of_eq_empty_iff ext)
  have decB: "set (rs_decrypted B') = set (rs_decrypted B) \<union> (\<lambda>i. replay_key (int i) (ec_toBase64 c ?pub)) ` {..<length ms}"
    using B'(2) by (simp add: in_chain_def)
  have trace: "traceless c p B'" if "p \<notin> used" for p
    using clean [OF that] ab(9) that base64_inject [OF laws] by (auto simp: traceless_def decB)
  have "may_speak c (insert (raw_of c newKey) used) B' A'"
    unfolding may_speak_def
  proof (intro conjI exI)
    show "rs_myRatchet B' = generateX25519 c newKey" "rs_theirRatchetRaw B' = Some ?pub" "rs_sendCount B' = 0"
      "rs_sendingChainKey B' = Some ck2" "rs_skipped B' = []"
      by (simp_all add: own skB)
    show "rs_myRatchet A' = generateX25519 c a" "rs_skipped A' = []" by (simp_all add: A'_def ab sk)
    show "rs_theirRatchetRaw A' \<noteq> Some (raw_of c newKey)" using fresh ab(3,10) by (auto simp: A'_def)
    show "ec_dh c newKey (X25519_SPKI_PREFIX @ ?pub) = Some d2" by (rule step)
    show "kdfRootKey c (rs_rootKey A') d2 = (rs_rootKey B', ck2)" by (simp add: A'_def step own)
    show "raw_of c newKey \<in> insert (raw_of c newKey) used" "?pub \<in> insert (raw_of c newKey) used" using ab(9) by simp_all
    show "traceless c (raw_of c newKey) A'" using clean [OF fresh] by (simp add: traceless_def A'_def)
    show "\<forall>p. p \<notin> insert (raw_of c newKey) used \<longrightarrow> traceless c p B' \<and> traceless c p A'"
      using trace clean by (auto simp: traceless_def A'_def)
  qed
  note spoken = this
  show thesis
    by (rule that [OF enc _ spoken]) (simp only: bodies all B'(1))
qed

section \<open>A whole conversation\<close>

record turn =
  tn_messages :: "(byte list \<times> string) list"
  tn_order :: "nat list"
  tn_key :: "byte list"

text \<open>A turn's messages arrive once each, in the order \<open>tn_order\<close>.\<close>

definition turn_ok :: "turn \<Rightarrow> bool" where
  "turn_ok t \<longleftrightarrow> tn_messages t \<noteq> [] \<and> length (tn_messages t) \<le> MAX_SKIPPED_KEYS + 1 \<and>
     distinct (tn_order t) \<and> set (tn_order t) = {..<length (tn_messages t)}"

text \<open>The speaker encrypts a burst, the listener decrypts it as it arrives, and they swap.\<close>

fun converse :: "e2ee_crypto \<Rightarrow> ratchet_session \<Rightarrow> ratchet_session \<Rightarrow> turn list \<Rightarrow> (ratchet_error + string) list list" where
  "converse c A B [] = []"
| "converse c A B (t # ts) =
     (let (bodies, A') = encrypt_all c A (tn_messages t);
          (results, B') = decrypt_all c (tn_key t) B (map ((!) bodies) (tn_order t)) in
      results # converse c B' A' ts)"

lemma converse_delivers:
  assumes "crypto_laws c" "may_speak c used A B" "list_all turn_ok ts"
    "distinct (map (\<lambda>t. raw_of c (tn_key t)) ts)" "\<forall>t \<in> set ts. raw_of c (tn_key t) \<notin> used"
  shows "converse c A B ts = map (\<lambda>t. map (\<lambda>i. Inr (snd (tn_messages t ! i))) (tn_order t)) ts"
  using assms(2-)
proof (induction ts arbitrary: used A B)
  case Nil
  then show ?case by simp
next
  case (Cons t ts)
  from Cons.prems have t: "turn_ok t" "raw_of c (tn_key t) \<notin> used" by simp_all
  obtain bodies A' B' where turn: "encrypt_all c A (tn_messages t) = (bodies, A')"
    "decrypt_all c (tn_key t) B (map ((!) bodies) (tn_order t)) = (map (\<lambda>i. Inr (snd (tn_messages t ! i))) (tn_order t), B')"
    "may_speak c (insert (raw_of c (tn_key t)) used) B' A'"
    using turn_taken [OF assms(1) Cons.prems(1) t(2)] t(1) unfolding turn_ok_def by blast
  have "converse c B' A' ts = map (\<lambda>t. map (\<lambda>i. Inr (snd (tn_messages t ! i))) (tn_order t)) ts"
    using Cons.prems by (intro Cons.IH [OF turn(3)]) (auto simp: image_iff)
  with turn show ?case by simp
qed

text \<open>Fresh sessions: Alice speaks first.\<close>

lemma established:
  assumes laws: "crypto_laws c"
    and fresh: "raw_of c (dr_ratchet dr) \<noteq> raw_of c (fst (snd (dr_bob dr)))"
  obtains alice bob where "establishSessions c dr = Some (alice, bob)"
    "may_speak c {raw_of c (dr_ratchet dr), raw_of c (fst (snd (dr_bob dr)))} alice bob"
proof -
  obtain ika spka opka where a: "dr_alice dr = (ika, spka, opka)" by (metis prod_cases3)
  obtain ikb spkb opkb where b: "dr_bob dr = (ikb, spkb, opkb)" by (metis prod_cases3)
  obtain sk where sk:
    "x3dhSender c (new_device c ika spka opka) (dr_ephemeral dr) (prekeys (new_device c ikb spkb opkb)) =
     Some \<lparr>xs_sharedSecret = sk, xs_ephemeralPublicRaw = raw_of c (dr_ephemeral dr), xs_usedOneTimePreKey = True\<rparr>"
    "x3dhReceiver c (new_device c ikb spkb opkb) (raw_of c ika) (raw_of c (dr_ephemeral dr)) True = Some sk"
    by (rule x3dh_agrees [OF laws, where ika = ika and spka = spka and opka = opka and ek = "dr_ephemeral dr" and ikb = ikb and
        spkb = spkb and opkb = opkb and withOpk = True]) (rule that, simp_all add: prekeys_def new_device_def)
  obtain d where d: "ec_dh c (dr_ratchet dr) (X25519_SPKI_PREFIX @ raw_of c spkb) = Some d"
    using crypto_lawsD(3) [OF laws] by blast
  obtain rk ck where k: "kdfRootKey c sk d = (rk, ck)" by fastforce
  let ?A = "(new_ratchet sk (generateX25519 c (dr_ratchet dr)))
      \<lparr>rs_rootKey := rk, rs_sendingChainKey := Some ck, rs_theirRatchetRaw := Some (raw_of c spkb)\<rparr>"
  let ?B = "new_ratchet sk (generateX25519 c spkb)"
  have init: "initSender c (dr_ratchet dr) sk (raw_of c spkb) = Some ?A"
    by (simp add: initSender_def crypto_lawsD(2) [OF laws] d k)
  have est: "establishSessions c dr = Some (?A, ?B)"
    using sk init by (simp add: establishSessions_def a b Let_def)
      (simp add: new_device_def initReceiver_def)
  have "may_speak c {raw_of c (dr_ratchet dr), raw_of c spkb} ?A ?B"
    using d k by (auto simp: may_speak_def new_ratchet_def traceless_def)
  with est show thesis by (intro that) (simp_all add: b)
qed

section \<open>An instance\<close>

text \<open>
  Functions with the documented laws, to evaluate on: the public half is the private key padded
  to 32 bytes, an agreement is the sum of both, and the tag is the key with the associated data.
\<close>

definition pad32 :: "byte list \<Rightarrow> byte list" where
  "pad32 bs = take 32 (bs @ replicate 32 0)"

definition sample_crypto :: e2ee_crypto where
  "sample_crypto =
     \<lparr>ec_publicDer = (\<lambda>k. X25519_SPKI_PREFIX @ pad32 k),
      ec_dh = (\<lambda>k der. Some (map2 (+) (pad32 k) (last_bytes 32 der))),
      ec_hkdf = (\<lambda>ikm salt info n. take n (map2 (+) ikm (salt @ replicate 32 0) @ map2 (\<lambda>x y. x + 3 * y + 1) salt ikm)),
      ec_hmac = (\<lambda>k d. d @ k),
      ec_seal = (\<lambda>k n aad p. (p, k @ aad)),
      ec_open = (\<lambda>k n aad ct tag. if tag = k @ aad then Some ct else None),
      ec_toBase64 = from_utf8,
      ec_fromBase64 = utf8\<rparr>"

lemma utf8_from_utf8: "utf8 (from_utf8 bs) = bs"
proof -
  have "unat b < 2 ^ LENGTH(8)" for b :: byte by (rule unsigned_less)
  then show ?thesis by (simp add: utf8_def from_utf8_def comp_def map_idI)
qed

lemma length_pad32: "length (pad32 bs) = 32"
  by (simp add: pad32_def)

lemma sample_raw: "kp_publicRaw (generateX25519 sample_crypto k) = pad32 k"
  by (simp add: generateX25519_def sample_crypto_def last_bytes_def Let_def X25519_SPKI_PREFIX_def length_pad32)

lemma sample_laws: "crypto_laws sample_crypto"
proof -
  have "map2 (+) (pad32 a) (last_bytes 32 (X25519_SPKI_PREFIX @ pad32 b)) = map2 (+) (pad32 b) (last_bytes 32 (X25519_SPKI_PREFIX @ pad32 a))" for a b
    by (simp add: last_bytes_def length_pad32 X25519_SPKI_PREFIX_def zip_commute [of "pad32 b"] add.commute comp_def case_prod_unfold)
  then show ?thesis
    by (simp add: crypto_laws_def sample_raw length_pad32) (simp add: sample_crypto_def utf8_from_utf8, simp add: utf8_def)
qed

definition sample_draws :: session_draws where
  "sample_draws = \<lparr>dr_alice = ([1], [2], [3]), dr_bob = ([4], [5], [6]), dr_ephemeral = [7], dr_ratchet = [8]\<rparr>"

definition sample_turns :: "turn list" where
  "sample_turns =
     [\<lparr>tn_messages = [([1], ''hi''), ([2], ''there'')], tn_order = [1, 0], tn_key = [9]\<rparr>,
      \<lparr>tn_messages = [([3], ''yes'')], tn_order = [0], tn_key = [10]\<rparr>]"

text \<open>Bob's fresh session, and the body of Alice's first message.\<close>

definition sample_receiver :: ratchet_session where
  "sample_receiver = (case establishSessions sample_crypto sample_draws of Some (a, b) \<Rightarrow> b | None \<Rightarrow> new_ratchet [] (generateX25519 sample_crypto []))"

definition sample_body :: ratchet_message where
  "sample_body = (case establishSessions sample_crypto sample_draws of
       Some (a, b) \<Rightarrow> (case fst (encrypt sample_crypto a [1] ''hi'') of Inr body \<Rightarrow> body
         | Inl err \<Rightarrow> seal sample_crypto [] 0 0 [] [] [])
     | None \<Rightarrow> seal sample_crypto [] 0 0 [] [] [])"

text \<open>
  A delayed message: Alice sends two and Bob gets the first and replies, so that Alice's next
  messages are on a new chain; Bob gets the first of them, and then, if \<open>late\<close>, the one that
  was delayed. The results are Bob's, in order, with the second message of the new chain last.
\<close>

definition delayed_message :: "e2ee_crypto \<Rightarrow> session_draws \<Rightarrow> bool \<Rightarrow> (ratchet_error + string) list" where
  "delayed_message c dr late =
     (case establishSessions c dr of
        None \<Rightarrow> []
      | Some (alice, bob) \<Rightarrow>
          (let (ms, alice1) = encrypt_all c alice [([1], ''m0''), ([2], ''m1'')];
               (r0, bob1) = decrypt c bob [9] (ms ! 0);
               (rs, bob2) = encrypt_all c bob1 [([3], ''r0'')];
               (a0, alice2) = decrypt c alice1 [10] (rs ! 0);
               (ns, alice3) = encrypt_all c alice2 [([4], ''m2''), ([5], ''m3'')];
               (r2, bob3) = decrypt c bob2 [11] (ns ! 0) in
           if late then (let (r1, bob4) = decrypt c bob3 [12] (ms ! 1) in [r0, r2, r1, fst (decrypt c bob4 [13] (ns ! 1))])
           else [r0, r2, fst (decrypt c bob3 [13] (ns ! 1))]))"

section \<open>Replays\<close>

lemma ratchet_chains_their: "ratchet_chains c s previous newKey raw = (True, s1) \<Longrightarrow> rs_theirRatchetRaw s1 = Some raw"
  by (auto simp: ratchet_chains_def Let_def split: option.splits prod.splits)

lemma skip_keys_frame:
  "skip_keys c s b n = (err, s2) \<Longrightarrow> rs_theirRatchetRaw s2 = rs_theirRatchetRaw s \<and> rs_decrypted s2 = rs_decrypted s \<and>
    rs_rootKey s2 = rs_rootKey s \<and> rs_sendingChainKey s2 = rs_sendingChainKey s \<and> rs_sendCount s2 = rs_sendCount s \<and>
    rs_myRatchet s2 = rs_myRatchet s"
proof (induction c s b n arbitrary: err s2 rule: skip_keys.induct)
  case (1 c s b n)
  show ?case
  proof (cases "rs_receiveCount s < n \<and> rs_receivingChainKey s \<noteq> None")
    case False
    with 1(2) show ?thesis by (subst (asm) skip_keys.simps) (auto split: if_splits)
  next
    case True
    then obtain ck where r: "rs_receiveCount s < n" and ck: "rs_receivingChainKey s = Some ck" by auto
    note ih = 1(1) [OF r ck refl]
    from 1(2) show ?thesis
      by (subst (asm) skip_keys.simps) (use r ck ih in \<open>auto simp: Let_def split: if_splits\<close>)
  qed
qed

section \<open>Properties\<close>

text \<open>
  C31: Fresh sessions converse. From an X3DH secret two parties that take turns decrypt every
  message of every burst to the plaintext that was encrypted, whatever the order a burst
  arrives in, for any number of turns, as long as the ratchet keys drawn are different.
\<close>

theorem conversation_decrypts:
  assumes "crypto_laws c" and "establishSessions c dr = Some (alice, bob)" and "list_all turn_ok turns"
    and "distinct (raw_of c (dr_ratchet dr) # raw_of c (fst (snd (dr_bob dr))) # map (\<lambda>t. raw_of c (tn_key t)) turns)"
  shows "converse c alice bob turns = map (\<lambda>t. map (\<lambda>i. Inr (snd (tn_messages t ! i))) (tn_order t)) turns"
proof -
  have "raw_of c (dr_ratchet dr) \<noteq> raw_of c (fst (snd (dr_bob dr)))" using assms(4) by auto
  then have "may_speak c {raw_of c (dr_ratchet dr), raw_of c (fst (snd (dr_bob dr)))} alice bob"
    using established [OF assms(1), of dr] assms(2) by (metis option.inject prod.inject)
  then show ?thesis
    using assms(4) by (intro converse_delivers [OF assms(1) _ assms(3)]) (auto simp: image_iff)
qed

lemma conversation_decrypts_witness:
  "\<exists>alice bob. converse sample_crypto alice bob sample_turns = [[Inr ''there'', Inr ''hi''], [Inr ''yes'']]"
proof -
  have "establishSessions sample_crypto sample_draws \<noteq> None" by code_simp
  then obtain alice bob where est: "establishSessions sample_crypto sample_draws = Some (alice, bob)" by auto
  have ok: "list_all turn_ok sample_turns"
    by (auto simp: sample_turns_def turn_ok_def MAX_SKIPPED_KEYS_def)
  have "distinct (raw_of sample_crypto (dr_ratchet sample_draws) # raw_of sample_crypto (fst (snd (dr_bob sample_draws))) #
      map (\<lambda>t. raw_of sample_crypto (tn_key t)) sample_turns)"
    by (simp add: sample_raw pad32_def sample_draws_def sample_turns_def)
  from conversation_decrypts [OF sample_laws est ok this] show ?thesis
    by (auto simp: sample_turns_def)
qed

text \<open>
  C32: No body is decrypted twice. After a successful decryption the same body is refused as a
  replay and the session is left alone, whatever the cryptography does.
\<close>

theorem decrypted_body_is_refused:
  assumes "decrypt c s newKey body = (Inr p, s')"
  shows "decrypt c s' newKey' body = (Inl AlreadyDecrypted, s')"
proof -
  let ?raw = "ec_fromBase64 c (rm_ratchet_public_key body)" and ?len = "length (rm_ratchet_public_key body) > 0"
  obtain ok s1 where step: "(if \<not> (?len \<and> rs_theirRatchetRaw s \<noteq> Some ?raw) then (True, s)
      else if rs_receivingChainKey s \<noteq> None then dhRatchetStep c s newKey ?raw
      else initReceiverChains c s newKey ?raw) = (ok, s1)" by fastforce
  have ok: ok using assms step by (auto simp: decrypt_def Let_def split: if_splits)
  with step have their: "?len \<Longrightarrow> rs_theirRatchetRaw s1 = Some ?raw"
    by (auto simp: dhRatchetStep_def initReceiverChains_def split: if_splits dest: ratchet_chains_their)
  let ?key = "replay_key (rm_message_number body) (ec_toBase64 c (case rs_theirRatchetRaw s1 of None \<Rightarrow> [] | Some raw \<Rightarrow> raw))"
  have "rs_theirRatchetRaw s' = rs_theirRatchetRaw s1 \<and> ?key \<in> set (rs_decrypted s')"
    using assms step ok
    by (auto simp: decrypt_def Let_def simp del: if_True split: if_splits option.splits prod.splits dest: skip_keys_frame)
  then show ?thesis
    using their by (auto simp: decrypt_def Let_def)
qed

lemma decrypted_body_is_refused_witness:
  "\<exists>s. decrypt sample_crypto s [] sample_body = (Inl AlreadyDecrypted, s)"
proof -
  have "fst (decrypt sample_crypto sample_receiver [9] sample_body) = Inr ''hi''" by code_simp
  then have "decrypt sample_crypto sample_receiver [9] sample_body =
      (Inr ''hi'', snd (decrypt sample_crypto sample_receiver [9] sample_body))"
    by (metis prod.collapse)
  from decrypted_body_is_refused [OF this] show ?thesis by blast
qed

text \<open>
  C33: The two sides of X3DH agree. For any two devices, with or without a one-time pre-key in
  the bundle, the sender's derivation succeeds, and from the identity key, the ephemeral key
  and the flag it sends along the receiver derives the same secret.
\<close>

theorem x3dh_agreement:
  assumes "crypto_laws c" and "opk = None \<or> opk = Some (raw_of c opkb)"
  shows "\<exists>r. x3dhSender c (new_device c ika spka opka) ek
        ((prekeys (new_device c ikb spkb opkb))\<lparr>pb_oneTimePreKeyRaw := opk\<rparr>) = Some r \<and>
      xs_usedOneTimePreKey r = (opk \<noteq> None) \<and>
      x3dhReceiver c (new_device c ikb spkb opkb) (raw_of c ika) (xs_ephemeralPublicRaw r) (xs_usedOneTimePreKey r) =
        Some (xs_sharedSecret r)"
proof -
  have opk: "opk = (if opk \<noteq> None then Some (raw_of c opkb) else None)" using assms(2) by auto
  show ?thesis
    by (rule x3dh_agrees [OF assms(1), where ika = ika and spka = spka and opka = opka and ek = ek and ikb = ikb and
        spkb = spkb and opkb = opkb and withOpk = "opk \<noteq> None"]) (subst opk, simp)
qed

lemma x3dh_agreement_witness:
  "\<exists>r :: x3dh_sender_result. x3dhReceiver sample_crypto (new_device sample_crypto [4] [5] [6]) (raw_of sample_crypto [1])
    (xs_ephemeralPublicRaw r) (xs_usedOneTimePreKey r) = Some (xs_sharedSecret r)"
proof -
  obtain r :: x3dh_sender_result where "x3dhReceiver sample_crypto (new_device sample_crypto [4] [5] [6]) (raw_of sample_crypto [1])
      (xs_ephemeralPublicRaw r) (xs_usedOneTimePreKey r) = Some (xs_sharedSecret r)"
    using x3dh_agreement [OF sample_laws disjI2 [OF refl], of "[1]" "[2]" "[3]" "[7]" "[6]" "[4]" "[5]"] by fast
  then show ?thesis by (rule exI [of _ r])
qed

text \<open>
  C34: A body is believed before it is authenticated. Whatever cryptography is used and
  whatever else the body holds, a forgery included: a body that comes to a session under
  another ratchet key than the peer's current one, new or long past, makes the session take
  that key for the peer's and draw a new key pair, and replaces the root key and the chain it
  sends with by ones derived from that key. What \<open>decrypt\<close> answers makes no difference: the
  step is not undone when the body turns out not to open.
\<close>

theorem unauthenticated_body_steps_ratchet:
  assumes "rm_ratchet_public_key body \<noteq> []" and "ec_fromBase64 c (rm_ratchet_public_key body) = raw"
    and "rs_theirRatchetRaw s \<noteq> Some raw" and "x25519PublicFromRaw raw = Some theirs"
    and "ec_dh c (kp_privateKey (rs_myRatchet s)) theirs = Some received" and "ec_dh c newKey theirs = Some sent"
    and "decrypt c s newKey body = (answer, s')"
  shows "rs_theirRatchetRaw s' = Some raw \<and> rs_myRatchet s' = generateX25519 c newKey \<and> rs_sendCount s' = 0 \<and>
    (let root1 = fst (kdfRootKey c (rs_rootKey s) received) in
     (rs_rootKey s', rs_sendingChainKey s') = map_prod id Some (kdfRootKey c root1 sent))"
proof -
  let ?root1 = "fst (kdfRootKey c (rs_rootKey s) received)"
  let ?s1 = "\<lambda>previous. snd (ratchet_chains c s previous newKey raw)"
  have chains: "ratchet_chains c s previous newKey raw = (True, ?s1 previous)"
      "rs_theirRatchetRaw (?s1 previous) = Some raw" "rs_myRatchet (?s1 previous) = generateX25519 c newKey"
      "rs_sendCount (?s1 previous) = 0"
      "(rs_rootKey (?s1 previous), rs_sendingChainKey (?s1 previous)) = map_prod id Some (kdfRootKey c ?root1 sent)" for previous
    using assms(4-6) by (simp_all add: ratchet_chains_def Let_def case_prod_beta map_prod_def)
  obtain s1 where step: "(if rs_receivingChainKey s \<noteq> None then dhRatchetStep c s newKey raw
      else initReceiverChains c s newKey raw) = (True, s1)"
    and s1: "rs_theirRatchetRaw s1 = Some raw" "rs_myRatchet s1 = generateX25519 c newKey" "rs_sendCount s1 = 0"
      "(rs_rootKey s1, rs_sendingChainKey s1) = map_prod id Some (kdfRootKey c ?root1 sent)"
  proof (rule that [OF _ chains(2-5)])
    let ?previous = "if rs_receivingChainKey s \<noteq> None then rs_sendCount s else 0"
    show "(if rs_receivingChainKey s \<noteq> None then dhRatchetStep c s newKey raw
        else initReceiverChains c s newKey raw) = (True, ?s1 ?previous)"
      using chains(1) [of 0] chains(1) [of "rs_sendCount s"]
      by (cases "rs_receivingChainKey s") (simp_all add: dhRatchetStep_def initReceiverChains_def)
  qed
  have "rs_theirRatchetRaw s' = rs_theirRatchetRaw s1 \<and> rs_rootKey s' = rs_rootKey s1 \<and>
      rs_sendingChainKey s' = rs_sendingChainKey s1 \<and> rs_sendCount s' = rs_sendCount s1 \<and> rs_myRatchet s' = rs_myRatchet s1"
    using assms(1-3,7) step
    by (auto simp: decrypt_def Let_def simp del: if_True split: if_splits option.splits prod.splits dest: skip_keys_frame)
  with s1 show ?thesis by (simp add: Let_def)
qed

text \<open>A body nobody sealed, under a key of its maker.\<close>

definition forged_body :: ratchet_message where
  "forged_body = \<lparr>rm_ciphertext = [], rm_nonce = [], rm_mac = [], rm_message_number = 0,
     rm_previous_chain_length = 0, rm_ratchet_public_key = from_utf8 (pad32 [99])\<rparr>"

definition talking_receiver :: ratchet_session where
  "talking_receiver = snd (decrypt sample_crypto sample_receiver [9] sample_body)"

lemma unauthenticated_body_steps_ratchet_witness:
  "fst (decrypt sample_crypto talking_receiver [10] forged_body) = Inl CryptoFailure \<and>
   rs_theirRatchetRaw talking_receiver = Some (pad32 [8]) \<and>
   rs_theirRatchetRaw (snd (decrypt sample_crypto talking_receiver [10] forged_body)) = Some (pad32 [99])"
proof (intro conjI)
  show "fst (decrypt sample_crypto talking_receiver [10] forged_body) = Inl CryptoFailure" by code_simp
  show their: "rs_theirRatchetRaw talking_receiver = Some (pad32 [8])" by code_simp
  have key: "rm_ratchet_public_key forged_body \<noteq> []" "ec_fromBase64 sample_crypto (rm_ratchet_public_key forged_body) = pad32 [99]"
    "rs_theirRatchetRaw talking_receiver \<noteq> Some (pad32 [99])"
    by (simp add: forged_body_def from_utf8_def pad32_def)
      (simp_all add: their, simp_all add: forged_body_def sample_crypto_def utf8_from_utf8 pad32_def)
  have theirs: "x25519PublicFromRaw (pad32 [99]) = Some (X25519_SPKI_PREFIX @ pad32 [99])"
    by (simp add: x25519PublicFromRaw_def length_pad32)
  have dh: "ec_dh sample_crypto k der = Some (map2 (+) (pad32 k) (last_bytes 32 der))" for k der
    by (simp add: sample_crypto_def)
  from unauthenticated_body_steps_ratchet [OF key theirs dh dh prod.collapse [symmetric]]
  show "rs_theirRatchetRaw (snd (decrypt sample_crypto talking_receiver [10] forged_body)) = Some (pad32 [99])" by blast
qed

text \<open>
  What it does to a message that is only late: there is cryptography with all the laws for
  which the delayed message of the previous chain is not decrypted, and after it the next
  message of the current chain is not either, although without the delayed one it is.
\<close>

lemma delayed_message_breaks_session:
  "\<exists>c dr. crypto_laws c \<and>
     delayed_message c dr True = [Inr ''m0'', Inr ''m2'', Inl CryptoFailure, Inl CryptoFailure] \<and>
     delayed_message c dr False = [Inr ''m0'', Inr ''m2'', Inr ''m3'']"
proof (intro exI conjI)
  show "delayed_message sample_crypto sample_draws True = [Inr ''m0'', Inr ''m2'', Inl CryptoFailure, Inl CryptoFailure]"
    by code_simp
  show "delayed_message sample_crypto sample_draws False = [Inr ''m0'', Inr ''m2'', Inr ''m3'']"
    by code_simp
qed (rule sample_laws)

end
