(* ===== verification/Nova_Client.thy ===== *)
theory Nova_Client
  imports Canonical Wire
begin

text \<open>
  The reference client, \<^verbatim>\<open>server/src/client/nova_client.ts\<close>: connection lifecycle,
  handshake, outbox, inbox and sync cursors of one \<open>NovaClient\<close>.

  A method is the function of the client's state it runs between two awaits. It returns its
  result (a thrown error is an \<open>Inl\<close>), the packets it hands to the socket, and the next
  state. A promise made by \<open>waitFor\<close> is either already resolved with a buffered payload or
  the name (a number) of the waiter registered for it; \<open>enqueue\<close> says which waiter an
  incoming packet wakes. What comes after an await is a function of the value the promise gives.
  Draws (a message id, the signature, the clock) are arguments.
\<close>

section \<open>State\<close>

text \<open>
  The key pair and node's crypto: \<open>cc_sign\<close> is \<open>sign(null, message, key)\<close>, \<open>cc_spki\<close> the
  DER export of the public key.
\<close>

record client_crypto =
  cc_sign :: "byte list \<Rightarrow> string \<Rightarrow> byte list"
  cc_spki :: "byte list \<Rightarrow> byte list"
  cc_toBase64 :: "byte list \<Rightarrow> string"

record nova_identity =
  ni_accountId :: string
  ni_deviceId :: string
  ni_novaId :: string
  ni_privateKey :: "byte list"
  ni_publicKeyBase64 :: string

record auth_challenge =
  ac_challengeId :: string
  ac_challenge :: string
  ac_expiresAtMs :: int

datatype client_state =
  StDisconnected | StConnecting | StAwaitingChallenge | StAuthenticating | StAuthenticated | StBlocked

datatype client_error =
    DeviceBlocked
  | NotConnected
  | IdentityMismatch
  | SessionReused
  | AuthFailedWith json
  | AckTimeout string
  | ClientTypeError

record outbox_entry =
  ob_messageId :: string
  ob_wire :: fields
  ob_acked :: bool
  ob_attempts :: nat

text \<open>
  \<open>nv_socket\<close> is \<open>None\<close> for \<open>null\<close> and otherwise the socket's \<open>connected\<close> flag, which
  Socket.IO keeps. A session is the object the server sent. \<open>nv_nextWaiter\<close> names the
  next closure \<open>waitFor\<close> makes.
\<close>

record nova_client =
  nv_identity :: nova_identity
  nv_socket :: "bool option"
  nv_queues :: "(string \<times> payload list) list"
  nv_waiters :: "(string \<times> nat list) list"
  nv_nextWaiter :: nat
  nv_outbox :: "(string \<times> outbox_entry) list"
  nv_state :: client_state
  nv_session :: "fields option"
  nv_handshakes :: nat
  nv_cursors :: "(string \<times> js_number) list"
  nv_inbox :: "(string \<times> fields) list"
  nv_appliedOrder :: "string list"

type_synonym packet = "string \<times> payload"

definition new_client :: "nova_identity \<Rightarrow> nova_client" where
  "new_client ident =
     \<lparr>nv_identity = ident, nv_socket = None, nv_queues = [], nv_waiters = [], nv_nextWaiter = 0,
      nv_outbox = [], nv_state = StDisconnected, nv_session = None, nv_handshakes = 0,
      nv_cursors = [], nv_inbox = [], nv_appliedOrder = []\<rparr>"

text \<open>
  \<open>toUpperCase\<close> on Latin-1: the sharp s becomes two letters. The micro sign and y with
  diaeresis have upper case letters outside Latin-1; they stay as they are here.
\<close>

definition upper_char :: "char \<Rightarrow> string" where
  "upper_char ch =
     (let n = (of_char ch :: nat) in
      if n = 223 then ''SS''
      else if 97 \<le> n \<and> n \<le> 122 \<or> 224 \<le> n \<and> n \<le> 254 \<and> n \<noteq> 247 then [char_of (n - 32)]
      else [ch])"

definition createIdentity :: "client_crypto \<Rightarrow> byte list \<Rightarrow> string \<Rightarrow> string \<Rightarrow> string option \<Rightarrow> nova_identity" where
  "createIdentity cc privateKey accountId deviceId novaId =
     (let der = cc_spki cc privateKey;
          raw = drop (length der - 32) der in
      \<lparr>ni_accountId = accountId, ni_deviceId = deviceId,
       ni_novaId = (case novaId of Some n \<Rightarrow> n | None \<Rightarrow> ''NOVA-'' @ concat (map upper_char accountId)),
       ni_privateKey = privateKey, ni_publicKeyBase64 = cc_toBase64 cc raw\<rparr>)"

definition canonicalAuthMessage :: "auth_claims \<Rightarrow> string" where
  "canonicalAuthMessage input = join_with ''|''
     [CANONICAL_PREFIX, cl_accountId input, cl_deviceId input, cl_novaId input,
      cl_challengeId input, cl_challengeBase64 input]"

section \<open>Buffered events and waiters\<close>

definition enqueue :: "string \<Rightarrow> payload \<Rightarrow> nova_client \<Rightarrow> nat option \<times> nova_client" where
  "enqueue event payload c =
     (case map_get (nv_waiters c) event of
        Some (w # ws) \<Rightarrow> (Some w, c\<lparr>nv_waiters := map_set event ws (nv_waiters c)\<rparr>)
      | _ \<Rightarrow>
          (let queue = (case map_get (nv_queues c) event of None \<Rightarrow> [] | Some q \<Rightarrow> q) in
           (None, c\<lparr>nv_queues := map_set event (queue @ [payload]) (nv_queues c)\<rparr>)))"

definition waitFor :: "string \<Rightarrow> nova_client \<Rightarrow> (payload + nat) \<times> nova_client" where
  "waitFor event c =
     (case map_get (nv_queues c) event of
        Some (p # ps) \<Rightarrow> (Inl p, c\<lparr>nv_queues := map_set event ps (nv_queues c)\<rparr>)
      | _ \<Rightarrow>
          (let list = (case map_get (nv_waiters c) event of None \<Rightarrow> [] | Some ws \<Rightarrow> ws);
               waiter = nv_nextWaiter c in
           (Inr waiter, c\<lparr>nv_nextWaiter := waiter + 1,
              nv_waiters := map_set event (list @ [waiter]) (nv_waiters c)\<rparr>)))"

text \<open>\<open>remove\<close> of the closure: what \<open>cancel\<close> and the timer do before the promise is rejected.\<close>

definition remove_waiter :: "string \<Rightarrow> nat \<Rightarrow> nova_client \<Rightarrow> nova_client" where
  "remove_waiter event waiter c =
     (let list = (case map_get (nv_waiters c) event of None \<Rightarrow> [] | Some ws \<Rightarrow> ws) in
      c\<lparr>nv_waiters := map_set event (filter (\<lambda>entry. entry \<noteq> waiter) list) (nv_waiters c)\<rparr>)"

definition drainQueue :: "string \<Rightarrow> nova_client \<Rightarrow> payload list \<times> nova_client" where
  "drainQueue event c =
     ((case map_get (nv_queues c) event of None \<Rightarrow> [] | Some q \<Rightarrow> q),
      c\<lparr>nv_queues := map_set event [] (nv_queues c)\<rparr>)"

text \<open>
  \<open>race\<close> waits for every event at once; the first resolved promise in the order of the
  list wins, and every other waiter is released. A payload an earlier wait has shifted off its
  queue is gone even when it does not win.
\<close>

fun wait_all :: "string list \<Rightarrow> nova_client \<Rightarrow> (string \<times> (payload + nat)) list \<times> nova_client" where
  "wait_all [] c = ([], c)"
| "wait_all (event # events) c =
     (let (r, c1) = waitFor event c;
          (rs, c2) = wait_all events c1 in
      ((event, r) # rs, c2))"

definition cancel_all :: "(string \<times> (payload + nat)) list \<Rightarrow> nova_client \<Rightarrow> nova_client" where
  "cancel_all waits c =
     fold (\<lambda>(event, r) c. case r of Inl p \<Rightarrow> c | Inr w \<Rightarrow> remove_waiter event w c) waits c"

definition race :: "string list \<Rightarrow> nova_client \<Rightarrow> (packet + (string \<times> (payload + nat)) list) \<times> nova_client" where
  "race events c =
     (let (waits, c1) = wait_all events c in
      case filter (\<lambda>(event, r). isl r) waits of
        (event, r) # _ \<Rightarrow> (Inl (event, projl r), cancel_all waits c1)
      | [] \<Rightarrow> (Inr waits, c1))"

text \<open>A waiter of a pending race is woken: its event wins, the others are released.\<close>

definition race_woken :: "(string \<times> (payload + nat)) list \<Rightarrow> nat \<Rightarrow> payload \<Rightarrow> nova_client \<Rightarrow> packet option \<times> nova_client" where
  "race_woken waits waiter payload c =
     (case filter (\<lambda>(event, r). r = Inr waiter) waits of
        (event, r) # _ \<Rightarrow> (Some (event, payload), cancel_all waits c)
      | [] \<Rightarrow> (None, c))"

section \<open>Connection lifecycle\<close>

definition connected :: "nova_client \<Rightarrow> bool" where
  "connected c = (case nv_socket c of None \<Rightarrow> False | Some b \<Rightarrow> b)"

definition authenticated :: "nova_client \<Rightarrow> bool" where
  "authenticated c \<longleftrightarrow> nv_state c = StAuthenticated \<and> nv_session c \<noteq> None"

definition dropConnection :: "nova_client \<Rightarrow> nova_client" where
  "dropConnection c = c\<lparr>nv_session := None,
     nv_state := (if nv_state c \<noteq> StBlocked then StDisconnected else nv_state c),
     nv_socket := None, nv_queues := [], nv_waiters := []\<rparr>"

definition teardown :: "nova_client \<Rightarrow> nova_client" where
  "teardown c = (if nv_socket c \<noteq> None then dropConnection c else c)"

definition connect :: "nova_client \<Rightarrow> (client_error + unit) \<times> nova_client" where
  "connect c =
     (if nv_state c = StBlocked then (Inl DeviceBlocked, c)
      else (Inr (), (teardown c)\<lparr>nv_state := StConnecting, nv_socket := Some False\<rparr>))"

text \<open>The listeners of the socket.\<close>

definition on_connect :: "nova_client \<Rightarrow> nat option \<times> nova_client" where
  "on_connect c = enqueue ''connect'' None (c\<lparr>nv_socket := Some True, nv_state := StAwaitingChallenge\<rparr>)"

definition on_disconnect :: "string \<Rightarrow> nova_client \<Rightarrow> nat option \<times> nova_client" where
  "on_disconnect reason c =
     enqueue ''disconnect'' (Some (JStr reason))
       (c\<lparr>nv_socket := Some False, nv_session := None,
          nv_state := (if nv_state c \<noteq> StBlocked then StDisconnected else nv_state c)\<rparr>)"

definition on_connect_error :: "string option \<Rightarrow> nova_client \<Rightarrow> nat option \<times> nova_client" where
  "on_connect_error message c =
     enqueue ''connect_error'' (Some (JStr (case message of Some m \<Rightarrow> m | None \<Rightarrow> ''connect_error''))) c"

definition advanceCursor :: "string \<Rightarrow> js_number \<Rightarrow> nova_client \<Rightarrow> nova_client" where
  "advanceCursor conversationId logSeq c =
     (let current = (case map_get (nv_cursors c) conversationId of None \<Rightarrow> js_int 0 | Some n \<Rightarrow> n) in
      if current < logSeq then c\<lparr>nv_cursors := map_set conversationId logSeq (nv_cursors c)\<rparr> else c)"

definition apply_message :: "string \<Rightarrow> fields \<Rightarrow> nova_client \<Rightarrow> nova_client" where
  "apply_message i record c =
     c\<lparr>nv_inbox := map_set i record (nv_inbox c), nv_appliedOrder := nv_appliedOrder c @ [i]\<rparr>"

definition observe :: "string \<Rightarrow> payload \<Rightarrow> nova_client \<Rightarrow> nova_client" where
  "observe event payload c =
     (let record = payloadObject payload in
      if event = ''message.ack'' then
        (case as_string (map_get record ''message_id'') of
           None \<Rightarrow> c
         | Some i \<Rightarrow>
             (case map_get (nv_outbox c) i of
                None \<Rightarrow> c
              | Some entry \<Rightarrow> c\<lparr>nv_outbox := map_set i (entry\<lparr>ob_acked := True\<rparr>) (nv_outbox c)\<rparr>))
      else if event = ''message.new'' then
        (let c1 = (case as_string (map_get record ''message_id'') of
                     None \<Rightarrow> c
                   | Some i \<Rightarrow> if map_has (nv_inbox c) i then c else apply_message i record c) in
         case (as_string (map_get record ''conversation_id''), as_number (map_get record ''log_seq'')) of
           (Some conv, Some logSeq) \<Rightarrow> advanceCursor conv logSeq c1
         | _ \<Rightarrow> c1)
      else if event = ''device.revoked'' then
        (let deviceId = map_get record ''device_id'' in
         if deviceId = Some (JStr (ni_deviceId (nv_identity c))) \<or> deviceId = None
         then c\<lparr>nv_state := StBlocked, nv_session := None\<rparr>
         else c)
      else c)"

definition on_any :: "string \<Rightarrow> payload \<Rightarrow> nova_client \<Rightarrow> nat option \<times> nova_client" where
  "on_any event payload c = enqueue event payload (observe event payload c)"

definition emitRaw :: "string \<Rightarrow> payload \<Rightarrow> nova_client \<Rightarrow> client_error + packet list" where
  "emitRaw event payload c = (if nv_socket c = None then Inl NotConnected else Inr [(event, payload)])"

section \<open>The handshake\<close>

record auth_overrides =
  ao_accountId :: "string option"
  ao_deviceId :: "string option"
  ao_novaId :: "string option"
  ao_signingKey :: "byte list option"
  ao_signatureBase64 :: "string option"

definition no_overrides :: auth_overrides where
  "no_overrides = \<lparr>ao_accountId = None, ao_deviceId = None, ao_novaId = None, ao_signingKey = None,
     ao_signatureBase64 = None\<rparr>"

definition buildAuthResponse ::
  "client_crypto \<Rightarrow> int \<Rightarrow> nova_identity \<Rightarrow> auth_challenge \<Rightarrow> auth_overrides \<Rightarrow> fields" where
  "buildAuthResponse cc now ident challenge overrides =
     (let accountId = (case ao_accountId overrides of Some a \<Rightarrow> a | None \<Rightarrow> ni_accountId ident);
          deviceId = (case ao_deviceId overrides of Some d \<Rightarrow> d | None \<Rightarrow> ni_deviceId ident);
          novaId = (case ao_novaId overrides of Some n \<Rightarrow> n | None \<Rightarrow> ni_novaId ident);
          message = canonicalAuthMessage
            \<lparr>cl_accountId = accountId, cl_deviceId = deviceId, cl_novaId = novaId,
             cl_challengeId = ac_challengeId challenge, cl_challengeBase64 = ac_challenge challenge\<rparr>;
          key = (case ao_signingKey overrides of Some k \<Rightarrow> k | None \<Rightarrow> ni_privateKey ident);
          signature = (case ao_signatureBase64 overrides of Some s \<Rightarrow> s
            | None \<Rightarrow> cc_toBase64 cc (cc_sign cc key message)) in
      [(''challenge_id'', JStr (ac_challengeId challenge)),
       (''signature'', JStr signature),
       (''account_id'', JStr accountId),
       (''device_id'', JStr deviceId),
       (''nova_id'', JStr novaId),
       (''ts_ms'', jint now)])"

text \<open>
  \<open>authenticate\<close> up to its first await: wait for \<open>connect\<close>, or forget that it came.
  It then waits for the challenge, unless it is given one.
\<close>

definition authenticate_begin :: "nova_client \<Rightarrow> (payload + nat) option \<times> nova_client" where
  "authenticate_begin c =
     (if \<not> connected c then (let (r, c1) = waitFor ''connect'' c in (Some r, c1))
      else (None, snd (drainQueue ''connect'' c)))"

definition nextChallenge :: "nova_client \<Rightarrow> (payload + nat) \<times> nova_client" where
  "nextChallenge c = waitFor ''auth.challenge'' c"

definition sendAuthResponse ::
  "fields \<Rightarrow> nova_client \<Rightarrow> (client_error + (packet + (string \<times> (payload + nat)) list)) \<times> packet list \<times> nova_client" where
  "sendAuthResponse payload c =
     (case emitRaw ''auth.response'' (Some (JObj payload)) c of
        Inl err \<Rightarrow> (Inl err, [], c)
      | Inr out \<Rightarrow>
          (let (outcome, c1) = race [''auth.success'', ''auth.failure'', ''disconnect''] c in
           (Inr outcome, out, c1)))"

text \<open>With the challenge in hand: sign, send, and wait for the verdict.\<close>

definition authenticate_respond ::
  "client_crypto \<Rightarrow> int \<Rightarrow> auth_challenge \<Rightarrow> auth_overrides \<Rightarrow> nova_client \<Rightarrow>
   (client_error + (packet + (string \<times> (payload + nat)) list)) \<times> packet list \<times> nova_client" where
  "authenticate_respond cc now challenge overrides c =
     sendAuthResponse (buildAuthResponse cc now (nv_identity c) challenge overrides)
       (c\<lparr>nv_state := StAuthenticating\<rparr>)"

text \<open>The rest of \<open>sendAuthResponse\<close>, on the outcome of the race.\<close>

definition auth_verdict :: "packet \<Rightarrow> nova_client \<Rightarrow> (client_error + fields) \<times> nova_client" where
  "auth_verdict outcome c =
     (let (event, payload) = outcome; record = payloadObject payload in
      if event = ''auth.success'' then
        (if payload = None \<or> payload = Some JNull then (Inl ClientTypeError, c)
         else if map_get record ''account_id'' \<noteq> Some (JStr (ni_accountId (nv_identity c))) \<or>
                 map_get record ''device_id'' \<noteq> Some (JStr (ni_deviceId (nv_identity c))) \<or>
                 map_get record ''nova_id'' \<noteq> Some (JStr (ni_novaId (nv_identity c)))
         then (Inl IdentityMismatch, c\<lparr>nv_state := StDisconnected\<rparr>)
         else (Inr record, c\<lparr>nv_session := Some record, nv_state := StAuthenticated,
                 nv_handshakes := nv_handshakes c + 1\<rparr>))
      else if event = ''auth.failure'' then
        (let code = (case map_get record ''code'' of
                       None \<Rightarrow> JStr ''AUTH_FAILED'' | Some JNull \<Rightarrow> JStr ''AUTH_FAILED'' | Some v \<Rightarrow> v) in
         (Inl (AuthFailedWith code),
          if code = JStr ''DEVICE_REVOKED'' then c\<lparr>nv_state := StBlocked\<rparr> else c))
      else (Inl (AuthFailedWith (JStr ''DISCONNECTED'')), c))"

section \<open>Messaging\<close>

text \<open>\<open>attempts\<close> is counted before the socket is looked at.\<close>

definition emitOutbox :: "string \<Rightarrow> nova_client \<Rightarrow> (client_error + unit) \<times> packet list \<times> nova_client" where
  "emitOutbox messageId c =
     (case map_get (nv_outbox c) messageId of
        None \<Rightarrow> (Inr (), [], c)
      | Some entry \<Rightarrow>
          if ob_acked entry then (Inr (), [], c)
          else
            (let c1 = c\<lparr>nv_outbox := map_set messageId (entry\<lparr>ob_attempts := ob_attempts entry + 1\<rparr>) (nv_outbox c)\<rparr> in
             case emitRaw ''message.send'' (Some (JObj (ob_wire entry))) c1 of
               Inl err \<Rightarrow> (Inl err, [], c1)
             | Inr out \<Rightarrow> (Inr (), out, c1)))"

record send_input =
  si_conversationId :: string
  si_ciphertextBase64 :: string
  si_headerType :: "string option"
  si_messageId :: "string option"
  si_extra :: fields
  si_force :: bool

definition envelope_fields :: "int \<Rightarrow> string \<Rightarrow> nova_identity \<Rightarrow> send_input \<Rightarrow> fields" where
  "envelope_fields now messageId ident input = spread
     [(''message_id'', JStr messageId),
      (''conversation_id'', JStr (si_conversationId input)),
      (''sender_device_id'', JStr (ni_deviceId ident)),
      (''ciphertext'', JStr (si_ciphertextBase64 input)),
      (''header_type'', JStr (case si_headerType input of Some h \<Rightarrow> h | None \<Rightarrow> ''dr.v1'')),
      (''client_ts_ms'', jint now)]
     (si_extra input)"

definition sendEnvelope ::
  "string \<Rightarrow> int \<Rightarrow> send_input \<Rightarrow> nova_client \<Rightarrow> (client_error + string) \<times> packet list \<times> nova_client" where
  "sendEnvelope uuid now input c =
     (let messageId = (case si_messageId input of Some i \<Rightarrow> i | None \<Rightarrow> uuid);
          wire = envelope_fields now messageId (nv_identity c) input;
          c1 = (case map_get (nv_outbox c) messageId of
                  None \<Rightarrow> c\<lparr>nv_outbox := map_set messageId
                    \<lparr>ob_messageId = messageId, ob_wire = wire, ob_acked = False, ob_attempts = 0\<rparr> (nv_outbox c)\<rparr>
                | Some existing \<Rightarrow>
                    if si_force input
                    then c\<lparr>nv_outbox := map_set messageId (existing\<lparr>ob_acked := False\<rparr>) (nv_outbox c)\<rparr>
                    else c);
          (r, out, c2) = emitOutbox messageId c1 in
      (case r of Inl err \<Rightarrow> Inl err | Inr _ \<Rightarrow> Inr messageId, out, c2))"

text \<open>
  The loop of \<open>flushOutbox\<close> over \<open>outbox.values()\<close>; emitting replaces entries in place, so
  the ids walked are those of the start. A throw ends it.
\<close>

fun flush_loop :: "string list \<Rightarrow> nova_client \<Rightarrow> (client_error + string list) \<times> packet list \<times> nova_client" where
  "flush_loop [] c = (Inr [], [], c)"
| "flush_loop (i # ids) c =
     (case map_get (nv_outbox c) i of
        None \<Rightarrow> flush_loop ids c
      | Some entry \<Rightarrow>
          if ob_acked entry then flush_loop ids c
          else
            (case emitOutbox (ob_messageId entry) c of
               (Inl err, out, c1) \<Rightarrow> (Inl err, out, c1)
             | (Inr _, out, c1) \<Rightarrow>
                 (case flush_loop ids c1 of
                    (Inl err, out', c2) \<Rightarrow> (Inl err, out @ out', c2)
                  | (Inr resent, out', c2) \<Rightarrow> (Inr (ob_messageId entry # resent), out @ out', c2))))"

definition flushOutbox :: "nova_client \<Rightarrow> (client_error + string list) \<times> packet list \<times> nova_client" where
  "flushOutbox c = flush_loop (map_keys (nv_outbox c)) c"

definition pending :: "nova_client \<Rightarrow> string list" where
  "pending c = map ob_messageId (filter (\<lambda>entry. \<not> ob_acked entry) (map_values (nv_outbox c)))"

definition markDelivered :: "string \<Rightarrow> string \<Rightarrow> nova_client \<Rightarrow> client_error + packet list" where
  "markDelivered conversationId messageId c =
     emitRaw ''message.delivered''
       (Some (JObj [(''conversation_id'', JStr conversationId), (''message_id'', JStr messageId)])) c"

definition markRead :: "string \<Rightarrow> js_number option \<Rightarrow> nova_client \<Rightarrow> client_error + packet list" where
  "markRead conversationId lastReadSeq c =
     emitRaw ''message.read''
       (Some (JObj (object [(''conversation_id'', Some (JStr conversationId)),
          (''last_read_seq'', map_option JNum lastReadSeq)]))) c"

text \<open>
  \<open>waitForAck\<close>: every turn of its loop reads the clock and waits for the next ack; one with
  another id is dropped. \<open>ack_loop\<close> takes the turns that buffered acks resolve at once (the
  clock of turn \<open>n\<close> is \<open>clock n\<close>) and stops at the waiter it has to sleep on.
\<close>

lemma waitFor_queue:
  "waitFor event c = (Inl p, c') \<Longrightarrow>
   (\<exists>ps. map_get (nv_queues c) event = Some (p # ps) \<and> c' = c\<lparr>nv_queues := map_set event ps (nv_queues c)\<rparr>)"
  by (auto simp: waitFor_def Let_def split: option.splits list.splits)

definition queue_length :: "string \<Rightarrow> nova_client \<Rightarrow> nat" where
  "queue_length event c = (case map_get (nv_queues c) event of None \<Rightarrow> 0 | Some q \<Rightarrow> length q)"

lemma waitFor_shorter:
  "waitFor event c = (Inl p, c') \<Longrightarrow> queue_length event c' < queue_length event c"
  by (drule waitFor_queue) (auto simp: queue_length_def)

datatype ack_wait = AckArrived fields | AckPending nat

function ack_loop :: "(nat \<Rightarrow> int) \<Rightarrow> nat \<Rightarrow> int \<Rightarrow> string \<Rightarrow> nova_client \<Rightarrow> (client_error + ack_wait) \<times> nova_client" where
  "ack_loop clock n deadline messageId c =
     (if deadline - clock n \<le> 0 then (Inl (AckTimeout messageId), c)
      else
        (case waitFor ''message.ack'' c of
           (Inr waiter, c') \<Rightarrow> (Inr (AckPending waiter), c')
         | (Inl ack, c') \<Rightarrow>
             if ack = None \<or> ack = Some JNull then (Inl ClientTypeError, c')
             else if map_get (payloadObject ack) ''message_id'' = Some (JStr messageId)
             then (Inr (AckArrived (payloadObject ack)), c')
             else ack_loop clock (n + 1) deadline messageId c'))"
  by pat_completeness auto
termination
  by (relation "measure (\<lambda>(clock, n, deadline, messageId, c). queue_length ''message.ack'' c)")
    (auto dest: waitFor_shorter [OF sym])

declare ack_loop.simps [simp del]

text \<open>The loop goes on when the waiter it slept on is woken with an ack.\<close>

definition ack_woken :: "(nat \<Rightarrow> int) \<Rightarrow> int \<Rightarrow> string \<Rightarrow> payload \<Rightarrow> nova_client \<Rightarrow> (client_error + ack_wait) \<times> nova_client" where
  "ack_woken clock deadline messageId ack c =
     (if ack = None \<or> ack = Some JNull then (Inl ClientTypeError, c)
      else if map_get (payloadObject ack) ''message_id'' = Some (JStr messageId)
      then (Inr (AckArrived (payloadObject ack)), c)
      else ack_loop clock 0 deadline messageId c)"

text \<open>\<open>sendAndAwaitAck\<close>: send, then wait for the ack of that id; a failed send rejects.\<close>

definition sendAndAwaitAck ::
  "string \<Rightarrow> int \<Rightarrow> send_input \<Rightarrow> (nat \<Rightarrow> int) \<Rightarrow> int \<Rightarrow> nova_client
   \<Rightarrow> (client_error + string \<times> ack_wait) \<times> packet list \<times> nova_client" where
  "sendAndAwaitAck uuid now inp clock deadline c =
     (case sendEnvelope uuid now inp c of
        (Inl err, out, c1) \<Rightarrow> (Inl err, out, c1)
      | (Inr messageId, out, c1) \<Rightarrow>
          (case ack_loop clock 0 deadline messageId c1 of
             (Inl err, c2) \<Rightarrow> (Inl err, out, c2)
           | (Inr w, c2) \<Rightarrow> (Inr (messageId, w), out, c2)))"

section \<open>Reconnecting\<close>

text \<open>\<open>===\<close> on parsed values: two objects or arrays are never the same one.\<close>

fun strict_eq :: "json \<Rightarrow> json \<Rightarrow> bool" where
  "strict_eq JNull JNull = True"
| "strict_eq (JBool a) (JBool b) = (a = b)"
| "strict_eq (JNum a) (JNum b) = (a = b \<and> a \<noteq> NaN)"
| "strict_eq (JStr a) (JStr b) = (a = b)"
| "strict_eq _ _ = False"

text \<open>Up to the handshake; the previous session's id is kept (\<open>null\<close> and \<open>undefined\<close> are \<open>None\<close>).\<close>

definition reconnect_begin :: "nova_client \<Rightarrow> json option \<times> (client_error + unit) \<times> nova_client" where
  "reconnect_begin c =
     (let previousSession = (case nv_session c of None \<Rightarrow> None
            | Some s \<Rightarrow> (case map_get s ''session_id'' of Some JNull \<Rightarrow> None | v \<Rightarrow> v));
          (r, c1) = connect (dropConnection c) in
      (previousSession, r, c1))"

text \<open>After the handshake gave \<open>success\<close>.\<close>

definition reconnect_end ::
  "json option \<Rightarrow> bool \<Rightarrow> fields \<Rightarrow> nova_client \<Rightarrow> (client_error + fields) \<times> packet list \<times> nova_client" where
  "reconnect_end previousSession resend success c =
     (if (case (previousSession, map_get success ''session_id'') of
            (Some a, Some b) \<Rightarrow> strict_eq b a | _ \<Rightarrow> False)
      then (Inl SessionReused, [], c)
      else if resend then
        (case flushOutbox c of
           (Inl err, out, c1) \<Rightarrow> (Inl err, out, c1)
         | (Inr _, out, c1) \<Rightarrow> (Inr success, out, c1))
      else (Inr success, [], c))"

section \<open>Sync, presence, signalling\<close>

text \<open>\<open>sync\<close> up to its await: the request, and the wait for the response.\<close>

definition sync_request ::
  "string option \<Rightarrow> nova_client \<Rightarrow> (client_error + (payload + nat)) \<times> packet list \<times> nova_client" where
  "sync_request conversationId c =
     (let body = (case conversationId of
            Some conv \<Rightarrow>
              [(''conversation_id'', JStr conv),
               (''last_seq'', JNum (case map_get (nv_cursors c) conv of None \<Rightarrow> js_int 0 | Some n \<Rightarrow> n))]
          | None \<Rightarrow> [(''cursors'', JObj (map (\<lambda>(k, n). (k, JNum n)) (nv_cursors c)))]) in
      case emitRaw ''sync.request'' (Some (JObj body)) c of
        Inl err \<Rightarrow> (Inl err, [], c)
      | Inr out \<Rightarrow> (let (r, c1) = waitFor ''sync.response'' c in (Inr r, out, c1)))"

text \<open>
  The loops of \<open>applySync\<close>, with the counters \<open>applied\<close> and \<open>duplicates\<close>. The flag is false
  when reading a property of \<open>null\<close> threw; what was applied before stays.
\<close>

fun apply_events :: "json list \<Rightarrow> nat \<times> nat \<Rightarrow> nova_client \<Rightarrow> bool \<times> (nat \<times> nat) \<times> nova_client" where
  "apply_events [] counts c = (True, counts, c)"
| "apply_events (e # events) (applied, duplicates) c =
     (if e = JNull then (False, (applied, duplicates), c)
      else
        (let event = payloadObject (Some e) in
         if map_get event ''type'' \<noteq> Some (JStr ''message.new'') then apply_events events (applied, duplicates) c
         else
           (case as_string (map_get event ''message_id'') of
              None \<Rightarrow> apply_events events (applied, duplicates) c
            | Some i \<Rightarrow>
                if map_has (nv_inbox c) i then apply_events events (applied, duplicates + 1) c
                else apply_events events (applied + 1, duplicates) (apply_message i event c))))"

fun apply_conversations :: "json list \<Rightarrow> nat \<times> nat \<Rightarrow> nova_client \<Rightarrow> bool \<times> (nat \<times> nat) \<times> nova_client" where
  "apply_conversations [] counts c = (True, counts, c)"
| "apply_conversations (x # conversations) counts c =
     (if x = JNull then (False, counts, c)
      else
        (let entry = payloadObject (Some x);
             events = (case map_get entry ''events'' of Some (JArr es) \<Rightarrow> es | _ \<Rightarrow> []);
             (ok, counts1, c1) = apply_events events counts c in
         if \<not> ok then (False, counts1, c1)
         else apply_conversations conversations counts1
           (case (as_string (map_get entry ''conversation_id''), as_number (map_get entry ''cursor'')) of
              (Some conversationId, Some cursor) \<Rightarrow> advanceCursor conversationId cursor c1
            | _ \<Rightarrow> c1)))"

definition applySync :: "fields \<Rightarrow> nova_client \<Rightarrow> (client_error + nat \<times> nat) \<times> nova_client" where
  "applySync response c =
     (let conversations = (case map_get response ''conversations'' of
            Some (JArr xs) \<Rightarrow> xs
          | _ \<Rightarrow> [JObj (object [(''conversation_id'', map_get response ''conversation_id''),
                   (''events'', map_get response ''events''), (''cursor'', map_get response ''cursor'')])]);
          (ok, counts, c1) = apply_conversations conversations (0, 0) c in
      (if ok then Inr counts else Inl ClientTypeError, c1))"

text \<open>The rest of \<open>sync\<close>, on the response.\<close>

definition sync_finish :: "payload \<Rightarrow> nova_client \<Rightarrow> (client_error + fields) \<times> nova_client" where
  "sync_finish response c =
     (if response = None \<or> response = Some JNull then (Inl ClientTypeError, c)
      else
        (case applySync (payloadObject response) c of
           (Inl err, c1) \<Rightarrow> (Inl err, c1)
         | (Inr _, c1) \<Rightarrow> (Inr (payloadObject response), c1)))"

definition updatePresence :: "string \<Rightarrow> int \<Rightarrow> nova_client \<Rightarrow> client_error + packet list" where
  "updatePresence status now c =
     emitRaw ''presence.update'' (Some (JObj [(''status'', JStr status), (''last_seen_ms'', jint now)])) c"

definition signal :: "string \<Rightarrow> string \<Rightarrow> fields \<Rightarrow> nova_client \<Rightarrow> client_error + packet list" where
  "signal event peerAccountId body c =
     emitRaw event (Some (JObj (spread [(''peer_account_id'', JStr peerAccountId)] body))) c"

text \<open>\<open>expectNone\<close> up to its await: buffered occurrences fail it at once.\<close>

definition expectNone :: "string \<Rightarrow> nova_client \<Rightarrow> (payload + nat) option \<times> nova_client" where
  "expectNone event c =
     (if 0 < queue_length event c then (None, c)
      else (let (r, c1) = waitFor event c in (Some r, c1)))"

end
