(* ===== verification/Client_Machine.thy ===== *)
theory Client_Machine
  imports Nova_Client
begin

text \<open>
  The client as a machine: \<open>client_react\<close> is one synchronous piece of the client, a call of a
  method up to its await, the code after an await, or a listener of the socket.
  \<open>client_ok\<close> is the invariant every piece keeps, \<open>client_grows\<close> what no piece ever takes
  back: cursors, applied messages and outbox entries.
\<close>

section \<open>Pieces\<close>

datatype client_input =
    DoConnect
  | DoDrop
  | SocketConnect
  | SocketDisconnect string
  | SocketError "string option"
  | Incoming string payload
  | DoWait string
  | DoRelease string nat
  | DoDrain string
  | DoRace "string list"
  | RaceWoken "(string \<times> (payload + nat)) list" nat payload
  | DoAuthBegin
  | DoRespond int auth_challenge auth_overrides
  | DoSendResponse fields
  | Verdict packet
  | DoSend string int send_input
  | DoFlush
  | DoAwaitAck "nat \<Rightarrow> int" int string
  | DoReconnectBegin
  | DoReconnectEnd "json option" bool fields
  | DoSyncRequest "string option"
  | SyncArrived payload
  | DoEmit string payload

text \<open>The listeners are removed with the socket: without one, nothing comes in.\<close>

definition listening :: "(nova_client \<Rightarrow> nat option \<times> nova_client) \<Rightarrow> nova_client \<Rightarrow> packet list \<times> nova_client" where
  "listening f c = ([], if nv_socket c = None then c else snd (f c))"

primrec client_react :: "client_crypto \<Rightarrow> client_input \<Rightarrow> nova_client \<Rightarrow> packet list \<times> nova_client" where
  "client_react cc DoConnect c = ([], snd (connect c))"
| "client_react cc DoDrop c = ([], dropConnection c)"
| "client_react cc SocketConnect c = listening on_connect c"
| "client_react cc (SocketDisconnect reason) c = listening (on_disconnect reason) c"
| "client_react cc (SocketError message) c = listening (on_connect_error message) c"
| "client_react cc (Incoming event payload) c = listening (on_any event payload) c"
| "client_react cc (DoWait event) c = ([], snd (waitFor event c))"
| "client_react cc (DoRelease event w) c = ([], remove_waiter event w c)"
| "client_react cc (DoDrain event) c = ([], snd (drainQueue event c))"
| "client_react cc (DoRace events) c = ([], snd (race events c))"
| "client_react cc (RaceWoken waits w payload) c = ([], snd (race_woken waits w payload c))"
| "client_react cc DoAuthBegin c = ([], snd (authenticate_begin c))"
| "client_react cc (DoRespond now challenge overrides) c = snd (authenticate_respond cc now challenge overrides c)"
| "client_react cc (DoSendResponse payload) c = snd (sendAuthResponse payload c)"
| "client_react cc (Verdict outcome) c = ([], snd (auth_verdict outcome c))"
| "client_react cc (DoSend uuid now inp) c = snd (sendEnvelope uuid now inp c)"
| "client_react cc DoFlush c = snd (flushOutbox c)"
| "client_react cc (DoAwaitAck clock deadline messageId) c = ([], snd (ack_loop clock 0 deadline messageId c))"
| "client_react cc DoReconnectBegin c = ([], snd (snd (reconnect_begin c)))"
| "client_react cc (DoReconnectEnd prev resend success) c = snd (reconnect_end prev resend success c)"
| "client_react cc (DoSyncRequest conv) c = snd (sync_request conv c)"
| "client_react cc (SyncArrived payload) c = ([], snd (sync_finish payload c))"
| "client_react cc (DoEmit event payload) c = ((case emitRaw event payload c of Inl err \<Rightarrow> [] | Inr out \<Rightarrow> out), c)"

definition client_run :: "client_crypto \<Rightarrow> client_input list \<Rightarrow> nova_client \<Rightarrow> nova_client" where
  "client_run cc inputs c = fold (\<lambda>i c. snd (client_react cc i c)) inputs c"

lemma client_run_simps [simp]:
  "client_run cc [] c = c"
  "client_run cc (i # inputs) c = client_run cc inputs (snd (client_react cc i c))"
  by (simp_all add: client_run_def)

section \<open>Buffers and waiters touch nothing else\<close>

definition core :: "nova_client \<Rightarrow> nova_client" where
  "core c = c\<lparr>nv_queues := [], nv_waiters := [], nv_nextWaiter := 0\<rparr>"

named_theorems core_simps \<open>an operation on buffers and waiters keeps the rest of the client\<close>

lemma core_enqueue [core_simps]: "core (snd (enqueue event p c)) = core c"
  by (simp add: core_def enqueue_def Let_def split: option.splits list.splits)

lemma core_waitFor [core_simps]: "core (snd (waitFor event c)) = core c"
  by (simp add: core_def waitFor_def Let_def split: option.splits list.splits)

lemma core_remove_waiter [core_simps]: "core (remove_waiter event w c) = core c"
  by (simp add: core_def remove_waiter_def Let_def)

lemma core_drainQueue [core_simps]: "core (snd (drainQueue event c)) = core c"
  by (simp add: core_def drainQueue_def)

lemma core_wait_all [core_simps]: "core (snd (wait_all events c)) = core c"
  by (induction events arbitrary: c) (simp_all add: case_prod_beta core_simps)

lemma core_cancel_all [core_simps]: "core (cancel_all waits c) = core c"
  unfolding cancel_all_def
  by (induction waits arbitrary: c) (auto simp: core_simps split: sum.splits)

lemma core_race [core_simps]: "core (snd (race events c)) = core c"
  by (simp add: race_def case_prod_beta core_simps split: list.splits)

lemma core_race_woken [core_simps]: "core (snd (race_woken waits w p c)) = core c"
  by (auto simp: race_woken_def core_simps split: list.splits)

lemma core_authenticate_begin [core_simps]: "core (snd (authenticate_begin c)) = core c"
  by (simp add: authenticate_begin_def case_prod_beta core_simps)

lemma core_ack_loop [core_simps]: "core (snd (ack_loop clock n deadline i c)) = core c"
proof (induction clock n deadline i c rule: ack_loop.induct)
  case (1 clock n deadline i c)
  obtain r c' where w: "waitFor ''message.ack'' c = (r, c')" by fastforce
  then have [simp]: "core c' = core c" using core_waitFor [of "''message.ack''" c] by simp
  show ?case
    using 1 w by (subst ack_loop.simps) (auto split: sum.splits)
qed

lemma core_send_auth [core_simps]: "core (snd (snd (sendAuthResponse payload c))) = core c"
  by (simp add: sendAuthResponse_def case_prod_beta core_simps split: sum.splits)

lemma core_sync_request [core_simps]: "core (snd (snd (sync_request conv c))) = core c"
  by (simp add: sync_request_def case_prod_beta core_simps Let_def split: sum.splits)

section \<open>The invariant\<close>

definition own_session :: "nova_identity \<Rightarrow> fields \<Rightarrow> bool" where
  "own_session ident s \<longleftrightarrow>
     map_get s ''account_id'' = Some (JStr (ni_accountId ident)) \<and>
     map_get s ''device_id'' = Some (JStr (ni_deviceId ident)) \<and>
     map_get s ''nova_id'' = Some (JStr (ni_novaId ident))"

definition client_ok :: "nova_client \<Rightarrow> bool" where
  "client_ok c \<longleftrightarrow>
     nv_appliedOrder c = map_keys (nv_inbox c) \<and> distinct (map_keys (nv_inbox c)) \<and>
     distinct (map_keys (nv_outbox c)) \<and> (\<forall>(i, entry) \<in> set (nv_outbox c). ob_messageId entry = i) \<and>
     (nv_state c = StAuthenticated \<longrightarrow> nv_session c \<noteq> None) \<and>
     (\<forall>s. nv_session c = Some s \<longrightarrow> own_session (nv_identity c) s)"

lemma client_ok_core: "client_ok (core c) = client_ok c"
  by (simp add: client_ok_def core_def)

lemma client_ok_cong: "core c = core c' \<Longrightarrow> client_ok c' \<Longrightarrow> client_ok c"
  by (metis client_ok_core)

lemma new_client_identity [simp]: "nv_identity (new_client ident) = ident"
  by (simp add: new_client_def)

lemma client_ok_new: "client_ok (new_client ident)"
  by (simp add: client_ok_def new_client_def)

lemma update_fresh: "i \<notin> set (map fst xs) \<Longrightarrow> AList.update i v xs = xs @ [(i, v)]"
  by (induction xs) auto

lemma client_ok_apply:
  "client_ok c \<Longrightarrow> \<not> map_has (nv_inbox c) i \<Longrightarrow> client_ok (apply_message i r c)"
  by (auto simp: client_ok_def apply_message_def update_fresh map_of_eq_None_iff image_iff)

lemma client_ok_cursor: "client_ok c \<Longrightarrow> client_ok (advanceCursor k n c)"
  by (simp add: client_ok_def advanceCursor_def Let_def)

lemma client_ok_outbox:
  assumes "client_ok c" and "ob_messageId entry = i"
  shows "client_ok (c\<lparr>nv_outbox := map_set i entry (nv_outbox c)\<rparr>)"
proof -
  have "\<forall>(j, e) \<in> set (map_set i entry (nv_outbox c)). ob_messageId e = j"
    using assms in_set_update [of "nv_outbox c" _ i entry] by (auto simp: client_ok_def)
  with assms show ?thesis by (simp add: client_ok_def)
qed

lemma client_ok_entry: "client_ok c \<Longrightarrow> map_get (nv_outbox c) i = Some entry \<Longrightarrow> ob_messageId entry = i"
  by (auto simp: client_ok_def dest: map_of_SomeD)


named_theorems client_invs \<open>an operation keeps the invariant of the client\<close>

lemmas client_ok_steps = client_ok_apply client_ok_cursor client_ok_outbox

lemma client_ok_buffers [client_invs]:
  "client_ok (snd (waitFor e c)) = client_ok c"
  "client_ok (snd (enqueue e p c)) = client_ok c"
  "client_ok (remove_waiter e w c) = client_ok c"
  "client_ok (snd (drainQueue e c)) = client_ok c"
  "client_ok (snd (race es c)) = client_ok c"
  "client_ok (snd (race_woken ws w p c)) = client_ok c"
  "client_ok (snd (authenticate_begin c)) = client_ok c"
  "client_ok (snd (ack_loop clock n deadline i c)) = client_ok c"
  "client_ok (snd (snd (sendAuthResponse payload c))) = client_ok c"
  "client_ok (snd (snd (sync_request conv c))) = client_ok c"
  by (metis client_ok_core core_simps)+

lemma client_ok_drop [client_invs]: "client_ok c \<Longrightarrow> client_ok (dropConnection c)"
  by (auto simp: client_ok_def dropConnection_def)

lemma client_ok_connect [client_invs]: "client_ok c \<Longrightarrow> client_ok (snd (connect c))"
  using client_ok_drop [of c] by (auto simp: connect_def teardown_def client_ok_def)

lemma client_ok_on_connect [client_invs]: "client_ok c \<Longrightarrow> client_ok (snd (on_connect c))"
  unfolding on_connect_def client_invs by (auto simp: client_ok_def)

lemma client_ok_on_disconnect [client_invs]: "client_ok c \<Longrightarrow> client_ok (snd (on_disconnect r c))"
  unfolding on_disconnect_def client_invs by (auto simp: client_ok_def)

lemma client_ok_on_connect_error [client_invs]: "client_ok c \<Longrightarrow> client_ok (snd (on_connect_error r c))"
  by (simp add: on_connect_error_def client_invs)

lemma client_ok_observe [client_invs]:
  assumes "client_ok c"
  shows "client_ok (observe event p c)"
proof -
  have "client_ok (c\<lparr>nv_state := StBlocked, nv_session := None\<rparr>)"
    using assms by (auto simp: client_ok_def)
  with assms show ?thesis
    by (simp add: observe_def Let_def client_ok_entry [OF assms] client_ok_steps split: option.split)
qed

lemma client_ok_on_any [client_invs]: "client_ok c \<Longrightarrow> client_ok (snd (on_any event p c))"
  by (simp add: on_any_def client_invs)

lemma client_ok_respond [client_invs]:
  "client_ok c \<Longrightarrow> client_ok (snd (snd (authenticate_respond cc now ch ov c)))"
  unfolding authenticate_respond_def client_invs by (auto simp: client_ok_def)

lemma client_ok_verdict [client_invs]: "client_ok c \<Longrightarrow> client_ok (snd (auth_verdict outcome c))"
  by (auto simp: auth_verdict_def Let_def client_ok_def own_session_def split: prod.splits)

lemma client_ok_emit [client_invs]:
  assumes "client_ok c"
  shows "client_ok (snd (snd (emitOutbox i c)))"
  using assms
  by (auto simp: emitOutbox_def Let_def client_ok_entry split: option.splits sum.splits intro!: client_ok_steps)

lemma client_ok_send [client_invs]:
  assumes "client_ok c"
  shows "client_ok (snd (snd (sendEnvelope uuid now inp c)))"
  using assms
  by (auto simp: sendEnvelope_def Let_def case_prod_beta client_ok_entry split: option.splits
      intro!: client_invs client_ok_steps)

lemma client_ok_flush_loop: "client_ok c \<Longrightarrow> client_ok (snd (snd (flush_loop ids c)))"
proof (induction ids arbitrary: c)
  case (Cons i ids)
  have "client_ok (snd (snd (emitOutbox i c)))" by (rule client_ok_emit [OF Cons.prems])
  with Cons show ?case
    by (simp add: client_ok_entry [OF Cons.prems] case_prod_beta split: option.split sum.split)
qed simp

lemma client_ok_flush [client_invs]: "client_ok c \<Longrightarrow> client_ok (snd (snd (flushOutbox c)))"
  by (simp add: flushOutbox_def client_ok_flush_loop)

lemma client_ok_reconnect_begin [client_invs]: "client_ok c \<Longrightarrow> client_ok (snd (snd (reconnect_begin c)))"
  by (simp add: reconnect_begin_def case_prod_beta Let_def client_invs)

lemma client_ok_reconnect_end [client_invs]:
  "client_ok c \<Longrightarrow> client_ok (snd (snd (reconnect_end prev resend success c)))"
  by (simp add: reconnect_end_def case_prod_beta client_invs split: sum.split)

lemma client_ok_apply_events: "client_ok c \<Longrightarrow> client_ok (snd (snd (apply_events es n c)))"
  by (induction es n c rule: apply_events.induct) (auto simp: Let_def client_ok_apply split: option.splits)

lemma client_ok_apply_conversations: "client_ok c \<Longrightarrow> client_ok (snd (snd (apply_conversations xs n c)))"
proof (induction xs arbitrary: n c)
  case (Cons x xs)
  obtain ok n1 c1 where e: "apply_events (case map_get (payloadObject (Some x)) ''events'' of
      Some (JArr es) \<Rightarrow> es | _ \<Rightarrow> []) n c = (ok, n1, c1)" by (metis prod_cases3)
  have c1: "client_ok c1" using client_ok_apply_events [OF Cons.prems, of _ n] e by (metis snd_conv)
  show ?case
    using Cons.prems by (auto simp: Let_def e Cons.IH c1 client_ok_cursor split: option.splits prod.splits)
qed simp

lemma client_ok_applySync [client_invs]: "client_ok c \<Longrightarrow> client_ok (snd (applySync resp c))"
  by (simp add: applySync_def Let_def case_prod_beta client_ok_apply_conversations)

lemma client_ok_sync_finish [client_invs]: "client_ok c \<Longrightarrow> client_ok (snd (sync_finish resp c))"
  by (simp add: sync_finish_def case_prod_beta client_invs split: sum.split)

lemma client_ok_react: "client_ok c \<Longrightarrow> client_ok (snd (client_react cc i c))"
  by (cases i) (simp_all add: client_invs listening_def)

lemma client_ok_run: "client_ok c \<Longrightarrow> client_ok (client_run cc inputs c)"
  by (induction inputs arbitrary: c) (simp_all add: client_ok_react)

end
