(* ===== verification/Client_Progress.thy ===== *)
theory Client_Progress
  imports Client_Machine
begin

text \<open>
  What the client never takes back, whatever is called and whatever comes in: a cursor never
  moves back, an applied message stays and is never applied again, an envelope stays in the
  outbox as it was first built and stays un-acked until its ack comes in.
\<close>

section \<open>Progress\<close>

definition cursor_of :: "nova_client \<Rightarrow> string \<Rightarrow> js_number" where
  "cursor_of c k = (case map_get (nv_cursors c) k of None \<Rightarrow> js_int 0 | Some n \<Rightarrow> n)"

text \<open>The ids acknowledged by a packet.\<close>

fun acked_by :: "client_input \<Rightarrow> string list" where
  "acked_by (Incoming event p) =
     (if event = ''message.ack''
      then (case as_string (payload_field p ''message_id'') of None \<Rightarrow> [] | Some i \<Rightarrow> [i]) else [])"
| "acked_by _ = []"

definition client_grows :: "string set \<Rightarrow> nova_client \<Rightarrow> nova_client \<Rightarrow> bool" where
  "client_grows acks c c' \<longleftrightarrow>
     nv_identity c' = nv_identity c \<and> nv_handshakes c \<le> nv_handshakes c' \<and>
     (\<forall>k. cursor_of c' k = cursor_of c k \<or> cursor_of c k < cursor_of c' k) \<and>
     prefix (nv_appliedOrder c) (nv_appliedOrder c') \<and> map_of (nv_inbox c) \<subseteq>\<^sub>m map_of (nv_inbox c') \<and>
     (\<forall>i e. map_get (nv_outbox c) i = Some e \<longrightarrow>
        (\<exists>e'. map_get (nv_outbox c') i = Some e' \<and> ob_wire e' = ob_wire e \<and> ob_attempts e \<le> ob_attempts e' \<and>
           (\<not> ob_acked e \<and> i \<notin> acks \<longrightarrow> \<not> ob_acked e')))"

lemma js_less_trans: "(a :: js_number) < b \<Longrightarrow> b < c \<Longrightarrow> a < c"
  by (cases a; cases b; cases c) auto

lemma grows_refl [simp]: "client_grows A c c"
  by (simp add: client_grows_def)

lemma grows_trans:
  assumes "client_grows A c c'" and "client_grows A c' c''"
  shows "client_grows A c c''"
  unfolding client_grows_def
proof (intro conjI allI impI)
  note d = assms [unfolded client_grows_def]
  show "cursor_of c'' k = cursor_of c k \<or> cursor_of c k < cursor_of c'' k" for k
    using d js_less_trans by metis
  show "map_of (nv_inbox c) \<subseteq>\<^sub>m map_of (nv_inbox c'')" using d map_le_trans by blast
  show "prefix (nv_appliedOrder c) (nv_appliedOrder c'')" using d prefix_order.trans by blast
  fix i e
  assume "map_get (nv_outbox c) i = Some e"
  with d obtain e' where e': "map_get (nv_outbox c') i = Some e'" "ob_wire e' = ob_wire e"
    "ob_attempts e \<le> ob_attempts e'" "\<not> ob_acked e \<and> i \<notin> A \<longrightarrow> \<not> ob_acked e'" by blast
  with d obtain e'' where "map_get (nv_outbox c'') i = Some e''" "ob_wire e'' = ob_wire e'"
    "ob_attempts e' \<le> ob_attempts e''" "\<not> ob_acked e' \<and> i \<notin> A \<longrightarrow> \<not> ob_acked e''" by blast
  with e' show "\<exists>e'. map_get (nv_outbox c'') i = Some e' \<and> ob_wire e' = ob_wire e \<and> ob_attempts e \<le> ob_attempts e' \<and>
           (\<not> ob_acked e \<and> i \<notin> A \<longrightarrow> \<not> ob_acked e')"
    by (intro exI [of _ e'']) auto
qed (use assms in \<open>auto simp: client_grows_def\<close>)

lemma grows_core: "client_grows A (core c) (core c') = client_grows A c c'"
  by (simp add: client_grows_def core_def cursor_of_def)

lemma grows_of_core: "core c' = core c \<Longrightarrow> client_grows A c c'"
  by (metis grows_core grows_refl)

lemma grows_frame:
  assumes "nv_identity c' = nv_identity c" "nv_handshakes c \<le> nv_handshakes c'" "nv_cursors c' = nv_cursors c"
    "nv_inbox c' = nv_inbox c" "nv_appliedOrder c' = nv_appliedOrder c" "nv_outbox c' = nv_outbox c"
  shows "client_grows A c c'"
  using assms by (simp add: client_grows_def cursor_of_def)

named_theorems grows \<open>an operation of the client takes nothing back\<close>

lemma grows_buffers [grows]:
  "client_grows A c (snd (waitFor e c))"
  "client_grows A c (snd (enqueue e p c))"
  "client_grows A c (remove_waiter e w c)"
  "client_grows A c (snd (drainQueue e c))"
  "client_grows A c (snd (race es c))"
  "client_grows A c (snd (race_woken ws w p c))"
  "client_grows A c (snd (authenticate_begin c))"
  "client_grows A c (snd (ack_loop clock n deadline i c))"
  "client_grows A c (snd (snd (sendAuthResponse payload c)))"
  "client_grows A c (snd (snd (sync_request conv c)))"
  by (simp_all add: grows_of_core core_simps)

lemma grows_cursor [grows]: "client_grows A c (advanceCursor k n c)"
  by (auto simp: client_grows_def advanceCursor_def cursor_of_def Let_def split: option.splits)

lemma grows_then_cursor: "client_grows A c c' \<Longrightarrow> client_grows A c (advanceCursor k n c')"
  by (rule grows_trans [OF _ grows_cursor])

lemma grows_apply: "client_ok c \<Longrightarrow> \<not> map_has (nv_inbox c) i \<Longrightarrow> client_grows A c (apply_message i r c)"
  by (auto simp: client_grows_def apply_message_def cursor_of_def map_le_def dom_def)

lemma grows_outbox_new:
  "map_get (nv_outbox c) i = None \<Longrightarrow> client_grows A c (c\<lparr>nv_outbox := map_set i e (nv_outbox c)\<rparr>)"
  by (auto simp: client_grows_def cursor_of_def)

lemma grows_outbox_set:
  assumes "map_get (nv_outbox c) i = Some e" "ob_wire e' = ob_wire e" "ob_attempts e \<le> ob_attempts e'"
    "\<not> ob_acked e \<and> i \<notin> A \<Longrightarrow> \<not> ob_acked e'"
  shows "client_grows A c (c\<lparr>nv_outbox := map_set i e' (nv_outbox c)\<rparr>)"
  using assms by (auto simp: client_grows_def cursor_of_def)

lemma grows_drop [grows]: "client_grows A c (dropConnection c)"
  by (rule grows_frame) (simp_all add: dropConnection_def)

lemma grows_connect [grows]: "client_grows A c (snd (connect c))"
  by (rule grows_frame) (simp_all add: connect_def teardown_def dropConnection_def)

lemma grows_state [grows]:
  "client_grows A c (c\<lparr>nv_state := st\<rparr>)"
  "client_grows A c (c\<lparr>nv_state := st, nv_session := s\<rparr>)"
  "client_grows A c (c\<lparr>nv_socket := so, nv_state := st\<rparr>)"
  "client_grows A c (c\<lparr>nv_socket := so, nv_session := s, nv_state := st\<rparr>)"
  "client_grows A c (c\<lparr>nv_session := s, nv_state := st, nv_handshakes := nv_handshakes c + 1\<rparr>)"
  by (simp_all add: grows_frame)

lemma grows_listeners [grows]:
  "client_grows A c (snd (on_connect c))"
  "client_grows A c (snd (on_disconnect r c))"
  "client_grows A c (snd (on_connect_error m c))"
  by (auto simp: on_connect_def on_disconnect_def on_connect_error_def intro: grows grows_trans)

lemma grows_observe:
  assumes "client_ok c" and "set (acked_by (Incoming event p)) \<subseteq> A"
  shows "client_grows A c (observe event p c)"
proof (cases "as_string (payload_field p ''message_id'')")
  case None
  then show ?thesis by (simp add: observe_def Let_def grows split: option.split)
next
  case (Some i)
  have fresh: "client_grows A c (apply_message i r c)" if "map_get (nv_inbox c) i = None" for r
    using grows_apply [OF assms(1), of i] that by simp
  have ack: "client_grows A c (c\<lparr>nv_outbox := map_set i (e\<lparr>ob_acked := True\<rparr>) (nv_outbox c)\<rparr>)"
    if "event = ''message.ack''" "map_get (nv_outbox c) i = Some e" for e
    using that assms(2) Some by (intro grows_outbox_set) auto
  from Some show ?thesis
    by (simp add: observe_def Let_def ack fresh grows grows_then_cursor split: option.split)
qed

lemma grows_respond [grows]: "client_grows A c (snd (snd (authenticate_respond cc now ch ov c)))"
  unfolding authenticate_respond_def by (rule grows_trans [OF grows_state(1) grows_buffers(9)])

lemma grows_verdict [grows]: "client_grows A c (snd (auth_verdict outcome c))"
  by (simp add: auth_verdict_def Let_def case_prod_beta grows grows [simplified])

lemma grows_emit [grows]: "client_grows A c (snd (snd (emitOutbox i c)))"
  by (simp add: emitOutbox_def Let_def grows_outbox_set split: option.split sum.split)

lemma grows_then_emit: "client_grows A c c' \<Longrightarrow> client_grows A c (snd (snd (emitOutbox i c')))"
  by (rule grows_trans [OF _ grows_emit])

lemma grows_send [grows]: "client_grows A c (snd (snd (sendEnvelope uuid now inp c)))"
  by (simp add: sendEnvelope_def Let_def case_prod_beta grows_then_emit grows_outbox_new grows_outbox_set split: option.split)

lemma grows_flush_loop: "client_grows A c (snd (snd (flush_loop ids c)))"
proof (induction ids arbitrary: c)
  case (Cons i ids)
  then show ?case
    by (auto simp: case_prod_beta split: option.split sum.split intro: grows_trans [OF grows_emit] grows_emit)
qed simp

lemma grows_flush [grows]: "client_grows A c (snd (snd (flushOutbox c)))"
  by (simp add: flushOutbox_def grows_flush_loop)

lemma grows_reconnect [grows]:
  "client_grows A c (snd (snd (reconnect_begin c)))"
  "client_grows A c (snd (snd (reconnect_end prev resend success c)))"
  by (auto simp: reconnect_begin_def reconnect_end_def case_prod_beta Let_def split: sum.split
      intro: grows grows_trans [OF grows_drop])

lemma grows_apply_events: "client_ok c \<Longrightarrow> client_grows A c (snd (snd (apply_events es n c)))"
proof (induction es n c rule: apply_events.induct)
  case (2 e es a d c)
  let ?ev = "payloadObject (Some e)"
  have fresh: "client_grows A c (snd (snd (apply_events es (a + 1, d) (apply_message i ?ev c))))"
    if "e \<noteq> JNull" "map_get ?ev ''type'' = Some (JStr ''message.new'')" "map_get ?ev ''message_id'' = Some (JStr i)"
      "\<not> map_has (nv_inbox c) i" for i
    by (rule grows_trans [OF grows_apply [OF "2.prems" that(4), where r = ?ev]])
      (use that 2 client_ok_apply [OF "2.prems" that(4)] in simp)
  show ?case
    using 2 fresh by (auto simp: Let_def split: option.split)
qed simp

lemma grows_apply_conversations: "client_ok c \<Longrightarrow> client_grows A c (snd (snd (apply_conversations xs n c)))"
proof (induction xs arbitrary: n c)
  case (Cons x xs)
  let ?es = "case map_get (payloadObject (Some x)) ''events'' of Some (JArr es) \<Rightarrow> es | _ \<Rightarrow> []"
  obtain ok n1 c1 where e: "apply_events ?es n c = (ok, n1, c1)" by (metis prod_cases3)
  note step = client_ok_apply_events [OF Cons.prems, of ?es n] grows_apply_events [OF Cons.prems, of A ?es n]
  note step = step [unfolded e, simplified]
  have "client_grows A c (snd (snd (apply_conversations xs n1 c2)))" if "c2 = c1 \<or> (\<exists>k m. c2 = advanceCursor k m c1)" for c2
  proof (rule grows_trans)
    show "client_grows A c c2" using that step(2) by (auto intro: grows_then_cursor)
    show "client_grows A c2 (snd (snd (apply_conversations xs n1 c2)))"
      using that step(1) by (intro Cons.IH) (auto intro: client_ok_cursor)
  qed
  then show ?case
    by (auto simp: Let_def e step(2) split: option.split)
qed simp

lemma grows_applySync: "client_ok c \<Longrightarrow> client_grows A c (snd (applySync resp c))"
  by (simp add: applySync_def Let_def case_prod_beta grows_apply_conversations)

lemma grows_sync_finish: "client_ok c \<Longrightarrow> client_grows A c (snd (sync_finish resp c))"
  by (simp add: sync_finish_def case_prod_beta grows_applySync split: sum.split)

lemma grows_react:
  assumes "client_ok c" and "set (acked_by i) \<subseteq> A"
  shows "client_grows A c (snd (client_react cc i c))"
proof (cases i)
  case (Incoming event p)
  with assms have "client_grows A c (observe event p c)" by (simp add: grows_observe del: acked_by.simps)
  then show ?thesis
    by (auto simp: Incoming listening_def on_any_def intro: grows_trans [OF _ grows_buffers(2)])
qed (use assms(1) in \<open>simp_all add: grows grows_sync_finish listening_def\<close>)

lemma grows_run:
  "client_ok c \<Longrightarrow> set (concat (map acked_by inputs)) \<subseteq> A \<Longrightarrow> client_grows A c (client_run cc inputs c)"
proof (induction inputs arbitrary: c)
  case (Cons i inputs)
  then have "client_grows A c (snd (client_react cc i c))" by (intro grows_react) auto
  moreover have "client_grows A (snd (client_react cc i c)) (client_run cc inputs (snd (client_react cc i c)))"
    using Cons by (intro Cons.IH) (auto simp: client_ok_react)
  ultimately show ?case by (auto intro: grows_trans)
qed simp

section \<open>The outbox\<close>

definition unacked :: "nova_client \<Rightarrow> string \<Rightarrow> bool" where
  "unacked c i = (case map_get (nv_outbox c) i of None \<Rightarrow> False | Some entry \<Rightarrow> \<not> ob_acked entry)"

definition resend_packet :: "nova_client \<Rightarrow> string \<Rightarrow> packet" where
  "resend_packet c i = (''message.send'',
     case map_get (nv_outbox c) i of None \<Rightarrow> None | Some entry \<Rightarrow> Some (JObj (ob_wire entry)))"

lemma emitOutbox_unacked:
  assumes "map_get (nv_outbox c) i = Some entry" "\<not> ob_acked entry" "nv_socket c \<noteq> None"
  shows "emitOutbox i c = (Inr (), [(''message.send'', Some (JObj (ob_wire entry)))],
    c\<lparr>nv_outbox := map_set i (entry\<lparr>ob_attempts := ob_attempts entry + 1\<rparr>) (nv_outbox c)\<rparr>)"
  using assms by (simp add: emitOutbox_def emitRaw_def Let_def)

lemma flush_loop_emits:
  assumes "client_ok c" and "nv_socket c \<noteq> None" and "distinct ids"
  shows "\<exists>c'. flush_loop ids c = (Inr (filter (unacked c) ids), map (resend_packet c) (filter (unacked c) ids), c')"
  using assms
proof (induction ids arbitrary: c)
  case (Cons i ids)
  show ?case
  proof (cases "unacked c i")
    case False
    with Cons show ?thesis by (auto simp: unacked_def split: option.splits)
  next
    case True
    then obtain entry where entry: "map_get (nv_outbox c) i = Some entry" "\<not> ob_acked entry"
      by (auto simp: unacked_def split: option.splits)
    have id: "ob_messageId entry = i" by (rule client_ok_entry [OF Cons.prems(1) entry(1)])
    let ?c1 = "c\<lparr>nv_outbox := map_set i (entry\<lparr>ob_attempts := ob_attempts entry + 1\<rparr>) (nv_outbox c)\<rparr>"
    have "client_ok ?c1" using Cons.prems(1) id by (simp add: client_ok_outbox)
    from Cons.IH [OF this] Cons.prems obtain c' where
      "flush_loop ids ?c1 = (Inr (filter (unacked ?c1) ids), map (resend_packet ?c1) (filter (unacked ?c1) ids), c')"
      by auto
    moreover have "filter (unacked ?c1) ids = filter (unacked c) ids"
      "map (resend_packet ?c1) (filter (unacked c) ids) = map (resend_packet c) (filter (unacked c) ids)"
      using Cons.prems(3) by (auto simp: unacked_def resend_packet_def split: if_splits intro!: filter_cong)
    ultimately show ?thesis
      using True entry id Cons.prems(2)
      by (simp add: emitOutbox_unacked [OF entry Cons.prems(2)] resend_packet_def [of c i])
  qed
qed simp

lemma pending_keys:
  assumes "client_ok c"
  shows "pending c = filter (unacked c) (map_keys (nv_outbox c))"
proof -
  have "map ob_messageId (filter (\<lambda>entry. \<not> ob_acked entry) (map snd xs)) = filter (unacked c) (map fst xs)"
    if "\<forall>p \<in> set xs. map_get (nv_outbox c) (fst p) = Some (snd p)" for xs
    using that by (induction xs) (auto simp: unacked_def client_ok_entry [OF assms])
  moreover have "\<forall>p \<in> set (nv_outbox c). map_get (nv_outbox c) (fst p) = Some (snd p)"
    using assms by (auto simp: client_ok_def)
  ultimately show ?thesis by (simp add: pending_def)
qed

lemma flush_emits:
  assumes "client_ok c" and "nv_socket c \<noteq> None"
  shows "\<exists>c'. flushOutbox c = (Inr (pending c), map (resend_packet c) (pending c), c')"
  using flush_loop_emits [OF assms, of "map_keys (nv_outbox c)"] assms(1)
  by (auto simp: flushOutbox_def pending_keys [OF assms(1)] client_ok_def)

text \<open>An envelope without its ack is still there, as it was, after any run.\<close>

lemma unacked_stays:
  assumes "client_ok c" and "map_get (nv_outbox c) i = Some entry" and "\<not> ob_acked entry"
    and "i \<notin> set (concat (map acked_by inputs))"
  shows "unacked (client_run cc inputs c) i \<and> resend_packet (client_run cc inputs c) i = (''message.send'', Some (JObj (ob_wire entry)))"
proof -
  have "client_grows (set (concat (map acked_by inputs))) c (client_run cc inputs c)"
    by (rule grows_run [OF assms(1) subset_refl])
  with assms(2-4) obtain e' where "map_get (nv_outbox (client_run cc inputs c)) i = Some e'" "ob_wire e' = ob_wire entry"
    "\<not> ob_acked e'" unfolding client_grows_def by blast
  then show ?thesis by (simp add: unacked_def resend_packet_def)
qed

end
