(* ===== verification/Client_Server.thy ===== *)
theory Client_Server
  imports Client_Progress Server_Reading
begin

text \<open>
  Client and server together, over the packets each sends the other: the sync of one
  conversation page by page, and the handshake.
\<close>

section \<open>What a page does to the client\<close>

text \<open>The message id under which the client files an event of a page, if it files it.\<close>

definition event_message_id :: "stored_event \<Rightarrow> string option" where
  "event_message_id ev =
     (let fs = payloadObject (Some (event_json ev)) in
      if map_get fs ''type'' = Some (JStr ''message.new'') then as_string (map_get fs ''message_id'') else None)"

definition message_ids :: "stored_event list \<Rightarrow> string set" where
  "message_ids es = {i. \<exists>ev \<in> set es. event_message_id ev = Some i}"

lemma message_ids_simps [simp]:
  "message_ids [] = {}"
  "message_ids (ev # es) = (case event_message_id ev of None \<Rightarrow> {} | Some i \<Rightarrow> {i}) \<union> message_ids es"
  "message_ids (es @ es') = message_ids es \<union> message_ids es'"
  by (auto simp: message_ids_def split: option.splits)

abbreviation inbox_ids :: "nova_client \<Rightarrow> string set" where
  "inbox_ids c \<equiv> dom (map_of (nv_inbox c))"

text \<open>The fields a sync does not touch, and those it reads.\<close>

definition same_link :: "nova_client \<Rightarrow> nova_client \<Rightarrow> bool" where
  "same_link c c' \<longleftrightarrow> nv_socket c' = nv_socket c \<and> nv_cursors c' = nv_cursors c \<and>
     nv_queues c' = nv_queues c \<and> nv_waiters c' = nv_waiters c"

lemma apply_message_link [simp]:
  "nv_socket (apply_message i r c) = nv_socket c" "nv_cursors (apply_message i r c) = nv_cursors c"
  "nv_queues (apply_message i r c) = nv_queues c" "nv_waiters (apply_message i r c) = nv_waiters c"
  "inbox_ids (apply_message i r c) = insert i (inbox_ids c)"
  by (auto simp: apply_message_def)

lemma event_json_object: "event_json ev = JObj (payloadObject (Some (event_json ev)))"
  by (simp add: event_json_def)

lemma apply_events_page:
  "\<exists>n' c'. apply_events (map event_json es) n c = (True, n', c') \<and> same_link c c' \<and>
     inbox_ids c' = inbox_ids c \<union> message_ids es"
proof (induction es arbitrary: n c)
  case Nil
  show ?case by (simp add: same_link_def)
next
  case (Cons ev es)
  obtain a d where n: "n = (a, d)" by fastforce
  let ?fs = "payloadObject (Some (event_json ev))"
  have nn: "event_json ev \<noteq> JNull" by (simp add: event_json_def)
  show ?case
  proof (cases "event_message_id ev")
    case None
    then have "apply_events (map event_json (ev # es)) n c = apply_events (map event_json es) n c"
      using nn by (auto simp: event_message_id_def Let_def n split: option.splits)
    with None Cons.IH [of n c] show ?thesis by simp
  next
    case (Some i)
    then have i: "map_get ?fs ''type'' = Some (JStr ''message.new'')" "map_get ?fs ''message_id'' = Some (JStr i)"
      by (simp_all add: event_message_id_def Let_def split: if_splits)
    show ?thesis
    proof (cases "map_has (nv_inbox c) i")
      case True
      then have "apply_events (map event_json (ev # es)) n c = apply_events (map event_json es) (a, d + 1) c"
        using i nn by (simp add: n)
      with True Some Cons.IH [of "(a, d + 1)" c] show ?thesis by (auto simp: dom_def)
    next
      case False
      then have "apply_events (map event_json (ev # es)) n c =
          apply_events (map event_json es) (a + 1, d) (apply_message i ?fs c)"
        using i nn by (simp add: n)
      with Some Cons.IH [of "(a + 1, d)" "apply_message i ?fs c"] show ?thesis
        by (auto simp: same_link_def simp del: map_of_eq_None_iff)
    qed
  qed
qed

section \<open>Sync, page by page\<close>

text \<open>
  One sync of a conversation against the server's store. The client emits its request and
  waits; the server serves the page for the cursor in the request; the response comes in. If
  the wait was resolved by a buffered response, \<open>sync\<close> has taken that one in before, and the
  fresh one only reaches the listener. Otherwise the fresh one goes to the oldest waiter, and
  \<open>sync\<close> goes on if that is its own. \<open>None\<close> is a sync that throws or goes on waiting; the
  flag is \<open>has_more\<close> of the object \<open>sync\<close> returns.
\<close>

definition sync_again :: "(client_error + fields) \<times> nova_client \<Rightarrow> (bool \<times> nova_client) option" where
  "sync_again result =
     (case result of
        (Inl err, c) \<Rightarrow> None
      | (Inr response, c) \<Rightarrow> Some (map_get response ''has_more'' = Some (JBool True), c))"

definition sync_turn :: "memory_store \<Rightarrow> int \<Rightarrow> string \<Rightarrow> nova_client \<Rightarrow> (bool \<times> nova_client) option" where
  "sync_turn st limit conv c =
     (case sync_request (Some conv) c of
        (Inr waited, [(event, request)], c1) \<Rightarrow>
          (case serve_page st limit conv (readCursor (payload_field request ''last_seq'')) of
             None \<Rightarrow> None
           | Some p \<Rightarrow>
               (let response = Some (JObj (sync_response [p])) in
                case waited of
                  Inl buffered \<Rightarrow>
                    map_option (map_prod id (\<lambda>c2. snd (on_any ''sync.response'' response c2)))
                      (sync_again (sync_finish buffered c1))
                | Inr waiter \<Rightarrow>
                    (let (woken, c2) = on_any ''sync.response'' response c1 in
                     if woken = Some waiter then sync_again (sync_finish response c2) else None)))
      | _ \<Rightarrow> None)"

text \<open>Syncing again while the response says \<open>has_more\<close>.\<close>

fun sync_rounds :: "nat \<Rightarrow> memory_store \<Rightarrow> int \<Rightarrow> string \<Rightarrow> nova_client \<Rightarrow> nova_client option" where
  "sync_rounds 0 st limit conv c = Some c"
| "sync_rounds (Suc rounds) st limit conv c =
     (case sync_turn st limit conv c of
        None \<Rightarrow> None
      | Some (again, c') \<Rightarrow> if again then sync_rounds rounds st limit conv c' else Some c')"

text \<open>No response to an earlier sync is buffered, and none is awaited.\<close>

definition sync_idle :: "nova_client \<Rightarrow> bool" where
  "sync_idle c \<longleftrightarrow> map_get (nv_queues c) ''sync.response'' \<in> {None, Some []} \<and>
     map_get (nv_waiters c) ''sync.response'' \<in> {None, Some []}"

lemma readCursor_int [simp]: "0 \<le> k \<Longrightarrow> readCursor (Some (JNum (js_int k))) = k"
  by (simp add: readCursor_def)

lemma core_frame:
  assumes "core c' = core c"
  shows "nv_socket c' = nv_socket c" "nv_cursors c' = nv_cursors c" "nv_inbox c' = nv_inbox c"
    "nv_identity c' = nv_identity c" "nv_appliedOrder c' = nv_appliedOrder c"
  using arg_cong [OF assms, of nv_socket] arg_cong [OF assms, of nv_cursors] arg_cong [OF assms, of nv_inbox]
    arg_cong [OF assms, of nv_identity] arg_cong [OF assms, of nv_appliedOrder]
  by (simp_all add: core_def)

lemma on_any_response: "core (snd (on_any ''sync.response'' resp c)) = core c"
  by (simp add: on_any_def core_simps observe_def)

text \<open>An idle client waits for the fresh response, gets it, and is idle again.\<close>

lemma idle_wait:
  assumes "sync_idle c"
  obtains w c1 where "waitFor ''sync.response'' c = (Inr w, c1)" "core c1 = core c"
    "map_get (nv_queues c1) ''sync.response'' \<in> {None, Some []}" "map_get (nv_waiters c1) ''sync.response'' = Some [w]"
  using assms core_waitFor [of "''sync.response''" c]
  by (auto simp: sync_idle_def waitFor_def Let_def)

lemma woken_idle:
  assumes "map_get (nv_queues c1) ''sync.response'' \<in> {None, Some []}" "map_get (nv_waiters c1) ''sync.response'' = Some [w]"
  obtains c2 where "on_any ''sync.response'' resp c1 = (Some w, c2)" "core c2 = core c1" "sync_idle c2"
  using assms on_any_response [of resp c1]
  by (auto simp: on_any_def enqueue_def observe_def sync_idle_def)

lemma advanceCursor_frame [simp]:
  "nv_socket (advanceCursor k n c) = nv_socket c" "nv_inbox (advanceCursor k n c) = nv_inbox c"
  "nv_appliedOrder (advanceCursor k n c) = nv_appliedOrder c"
  "nv_queues (advanceCursor k n c) = nv_queues c" "nv_waiters (advanceCursor k n c) = nv_waiters c"
  by (simp_all add: advanceCursor_def Let_def)

lemma advanceCursor_forward:
  "cursor_of c k = js_int a \<Longrightarrow> a \<le> b \<Longrightarrow> cursor_of (advanceCursor k (js_int b) c) k = js_int b"
  by (auto simp: cursor_of_def advanceCursor_def Let_def split: option.splits)

lemma apply_response:
  assumes "cursor_of c (sp_conversationId p) = js_int k" and "k \<le> sp_cursor p"
  shows "\<exists>counts c'. applySync (sync_response [p]) c = (Inr counts, c') \<and> nv_socket c' = nv_socket c \<and>
    nv_queues c' = nv_queues c \<and> nv_waiters c' = nv_waiters c \<and> cursor_of c' (sp_conversationId p) = js_int (sp_cursor p) \<and>
    inbox_ids c' = inbox_ids c \<union> message_ids (sp_events p)"
proof -
  obtain n' c1 where a: "apply_events (map event_json (sp_events p)) (0, 0) c = (True, n', c1)" "same_link c c1"
    "inbox_ids c1 = inbox_ids c \<union> message_ids (sp_events p)"
    using apply_events_page by blast
  let ?c2 = "advanceCursor (sp_conversationId p) (js_int (sp_cursor p)) c1"
  have "applySync (sync_response [p]) c = (Inr n', ?c2)"
    by (simp add: applySync_def sync_response_def page_json_def a(1) Let_def)
  moreover have "cursor_of c1 (sp_conversationId p) = js_int k"
    using a(2) assms(1) by (simp add: same_link_def cursor_of_def)
  ultimately show ?thesis
    using a assms(2) advanceCursor_forward by (auto simp: same_link_def)
qed

lemma sync_request_packet:
  assumes "nv_socket c \<noteq> None" and "waitFor ''sync.response'' c = (r, c1)"
  shows "sync_request (Some conv) c =
    (Inr r, [(''sync.request'', Some (JObj [(''conversation_id'', JStr conv), (''last_seq'', JNum (cursor_of c conv))]))], c1)"
  using assms by (simp add: sync_request_def emitRaw_def cursor_of_def)

text \<open>Taking in the response of one page: its messages are in the inbox, and the cursor is the page's.\<close>

lemma sync_finish_page:
  assumes "cursor_of c (sp_conversationId p) = js_int k" and "k \<le> sp_cursor p"
  shows "\<exists>c'. sync_again (sync_finish (Some (JObj (sync_response [p]))) c) = Some (sp_hasMore p, c') \<and>
    nv_socket c' = nv_socket c \<and> nv_queues c' = nv_queues c \<and> nv_waiters c' = nv_waiters c \<and>
    cursor_of c' (sp_conversationId p) = js_int (sp_cursor p) \<and> inbox_ids c' = inbox_ids c \<union> message_ids (sp_events p)"
  using apply_response [OF assms] by (auto simp: sync_finish_def sync_again_def sync_response_def)

text \<open>One turn of an idle client.\<close>

lemma sync_turn_page:
  assumes "nv_socket c \<noteq> None" and "sync_idle c" and "cursor_of c conv = js_int k" and "0 \<le> k"
    and "serve_page st limit conv k = Some p" and "k \<le> sp_cursor p"
  shows "\<exists>c'. sync_turn st limit conv c = Some (sp_hasMore p, c') \<and> nv_socket c' = nv_socket c \<and> sync_idle c' \<and>
    cursor_of c' conv = js_int (sp_cursor p) \<and> inbox_ids c' = inbox_ids c \<union> message_ids (sp_events p)"
proof -
  have conv: "sp_conversationId p = conv"
    using assms(5) by (auto simp: serve_page_def Let_def split: if_splits)
  obtain w c1 where w: "waitFor ''sync.response'' c = (Inr w, c1)" "core c1 = core c"
    "map_get (nv_queues c1) ''sync.response'' \<in> {None, Some []}" "map_get (nv_waiters c1) ''sync.response'' = Some [w]"
    by (rule idle_wait [OF assms(2)])
  obtain c2 where c2: "on_any ''sync.response'' (Some (JObj (sync_response [p]))) c1 = (Some w, c2)" "core c2 = core c1" "sync_idle c2"
    by (rule woken_idle [OF w(3,4)])
  note frame = core_frame [OF c2(2) [unfolded w(2)]]
  have "cursor_of c2 (sp_conversationId p) = js_int k" using assms(3) frame conv by (simp add: cursor_of_def)
  from sync_finish_page [OF this assms(6)] obtain c' where
    "sync_again (sync_finish (Some (JObj (sync_response [p]))) c2) = Some (sp_hasMore p, c')" "nv_socket c' = nv_socket c2"
    "nv_queues c' = nv_queues c2" "nv_waiters c' = nv_waiters c2" "cursor_of c' conv = js_int (sp_cursor p)"
    "inbox_ids c' = inbox_ids c2 \<union> message_ids (sp_events p)"
    unfolding conv by blast
  moreover from this(1) have "sync_turn st limit conv c = Some (sp_hasMore p, c')"
    using assms(3-5) c2(1) by (simp add: sync_turn_def sync_request_packet [OF assms(1) w(1)])
  ultimately show ?thesis using frame c2(3) by (simp add: sync_idle_def)
qed

text \<open>
  One turn of a client that has a late response in its buffer: it takes that one in, and the
  fresh one stays in the buffer for the next.
\<close>

lemma sync_turn_late:
  assumes "nv_socket c \<noteq> None" and "map_get (nv_queues c) ''sync.response'' = Some [Some (JObj (sync_response [q]))]"
    and "map_get (nv_waiters c) ''sync.response'' \<in> {None, Some []}" and "sp_conversationId q = conv"
    and "cursor_of c conv = js_int k" and "0 \<le> k" and "k \<le> sp_cursor q" and "serve_page st limit conv k = Some p"
  shows "\<exists>c'. sync_turn st limit conv c = Some (sp_hasMore q, c') \<and> nv_socket c' = nv_socket c \<and>
    map_get (nv_queues c') ''sync.response'' = Some [Some (JObj (sync_response [p]))] \<and>
    map_get (nv_waiters c') ''sync.response'' \<in> {None, Some []} \<and>
    cursor_of c' conv = js_int (sp_cursor q) \<and> inbox_ids c' = inbox_ids c \<union> message_ids (sp_events q)"
proof -
  let ?c1 = "c\<lparr>nv_queues := map_set ''sync.response'' [] (nv_queues c)\<rparr>"
  let ?resp = "Some (JObj (sync_response [p]))"
  have w: "waitFor ''sync.response'' c = (Inl (Some (JObj (sync_response [q]))), ?c1)"
    using assms(2) by (simp add: waitFor_def)
  have "cursor_of ?c1 (sp_conversationId q) = js_int k" using assms(4,5) by (simp add: cursor_of_def)
  from sync_finish_page [OF this assms(7)] obtain c2 where c2:
    "sync_again (sync_finish (Some (JObj (sync_response [q]))) ?c1) = Some (sp_hasMore q, c2)" "nv_socket c2 = nv_socket c"
    "nv_queues c2 = map_set ''sync.response'' [] (nv_queues c)" "nv_waiters c2 = nv_waiters c"
    "cursor_of c2 conv = js_int (sp_cursor q)" "inbox_ids c2 = inbox_ids c \<union> message_ids (sp_events q)"
    unfolding assms(4) by auto
  let ?c' = "snd (on_any ''sync.response'' ?resp c2)"
  have turn: "sync_turn st limit conv c = Some (sp_hasMore q, ?c')"
    using assms(5,6,8) c2(1) by (simp add: sync_turn_def sync_request_packet [OF assms(1) w])
  have "map_get (nv_queues ?c') ''sync.response'' = Some [?resp]" "nv_waiters ?c' = nv_waiters c2"
    using assms(3) c2(3,4) by (auto simp: on_any_def enqueue_def observe_def Let_def)
  then show ?thesis
    using turn c2 core_frame [OF on_any_response [of ?resp c2]] assms(3) by (simp add: cursor_of_def)
qed

context event_log
begin

text \<open>A page's cursor lies between the one asked for and the end of the log.\<close>

lemma page_of_cursor:
  assumes "ok s" "0 \<le> k" "k \<le> latest s c" "0 < n" "page_of since latest s c n k = (es, k', again)"
  shows "k \<le> k'" "k' \<le> latest s c"
proof -
  have es: "es = since s c k n" and len: "nat k + length es \<le> length (log_of s c)"
    using assms by (auto simp: page_of_def Let_def since_rest latest_length)
  have "k' = k + n" if again
  proof -
    have full: "int (length (since s c k n)) = n" "k' = ev_logSeq (last (since s c k n))"
      using assms(5) that by (auto simp: page_of_def Let_def)
    with assms(4) have "since s c k n \<noteq> []" by auto
    from page_cursor [OF assms(1,2,4) this] full show ?thesis by simp
  qed
  moreover have "\<not> again \<Longrightarrow> k' = latest s c" "again \<Longrightarrow> int (length es) = n"
    using assms(5) by (auto simp: page_of_def Let_def)
  ultimately show "k \<le> k'" "k' \<le> latest s c"
    using assms(2,3,4) len latest_length [OF assms(1), of c] by (cases again; simp)+
qed

end

lemma sync_rounds_all:
  assumes "store_ok st" and "0 < limit"
  shows "nv_socket c \<noteq> None \<Longrightarrow> sync_idle c \<Longrightarrow> cursor_of c conv = js_int k \<Longrightarrow> 0 \<le> k \<Longrightarrow> k \<le> latestLogSeq st conv \<Longrightarrow>
    sync_all rounds st limit conv k = (es, k', again) \<Longrightarrow>
    \<exists>c'. sync_rounds rounds st limit conv c = Some c' \<and> nv_socket c' = nv_socket c \<and> sync_idle c' \<and>
      cursor_of c' conv = js_int k' \<and> inbox_ids c' = inbox_ids c \<union> message_ids es"
proof (induction rounds arbitrary: c k es k' again)
  case 0
  then show ?case by simp
next
  case (Suc rounds)
  obtain p where p: "serve_page st limit conv k = Some p"
    using serve_pages_all [OF assms(2), of st "[(conv, k)]" "[conv]"] by (auto split: option.splits)
  note range = memory_log.page_of_cursor [OF assms(1) Suc.prems(4,5) assms(2) serve_page_of [OF p]]
  from sync_turn_page [OF Suc.prems(1-4) p range(1)] obtain c1 where t:
    "sync_turn st limit conv c = Some (sp_hasMore p, c1)" "nv_socket c1 = nv_socket c" "sync_idle c1"
    "cursor_of c1 conv = js_int (sp_cursor p)" "inbox_ids c1 = inbox_ids c \<union> message_ids (sp_events p)" by blast
  show ?case
  proof (cases "sp_hasMore p")
    case True
    obtain rest k2 again2 where r: "sync_all rounds st limit conv (sp_cursor p) = (rest, k2, again2)"
      by (metis prod_cases3)
    have "0 \<le> sp_cursor p" using range(1) Suc.prems(4) by simp
    from Suc.IH [OF _ t(3,4) this range(2) r] t Suc.prems(1,6) True r p show ?thesis by auto
  next
    case False
    with t p Suc.prems(6) show ?thesis by auto
  qed
qed

section \<open>The handshake, end to end\<close>

text \<open>
  What the two sides' cryptography promises for one key pair: what the private key signs, once
  base64 encoded and decoded, is 64 bytes that verify under the registered public key.
\<close>

definition key_pair :: "node_crypto \<Rightarrow> client_crypto \<Rightarrow> byte list \<Rightarrow> byte list \<Rightarrow> bool" where
  "key_pair nc cc privateKey publicKey \<longleftrightarrow>
     length publicKey = 32 \<and>
     (\<forall>message. let signature = cc_sign cc privateKey message in
        length signature = 64 \<and> nc_fromBase64 nc (cc_toBase64 cc signature) = signature \<and>
        nc_verify nc (SPKI_PREFIX @ publicKey) message signature = Some True)"

lemma client_signs_server_message: "canonicalAuthMessage = canonicalMessage"
  by (rule ext) (simp add: canonicalAuthMessage_def canonicalMessage_def)

definition identity_claims :: "nova_identity \<Rightarrow> auth_challenge \<Rightarrow> auth_claims" where
  "identity_claims ident ch =
     \<lparr>cl_accountId = ni_accountId ident, cl_deviceId = ni_deviceId ident, cl_novaId = ni_novaId ident,
      cl_challengeId = ac_challengeId ch, cl_challengeBase64 = ac_challenge ch\<rparr>"

lemma built_response_accepted:
  assumes "key_pair nc cc (ni_privateKey ident) (dev_ed25519PublicKey device)"
    and "byDeviceId devices (ni_deviceId ident) = Some device" "dev_status device = Active"
      "dev_accountId device = ni_accountId ident" "dev_novaId device = ni_novaId ident"
    and "map_get (cs_challenges challenges) (ac_challengeId ch) = Some e" "now \<le> ch_expiresAtMs e"
      "ch_socketKey e = k" "ch_challengeBase64 e = ac_challenge ch"
      "ch_accountId e = WILDCARD" "ch_deviceId e = WILDCARD"
  shows "response_accepted nc devices challenges now k (buildAuthResponse cc ts ident ch no_overrides)
    (identity_claims ident ch)"
  using assms
  by (auto simp: response_accepted_def buildAuthResponse_def identity_claims_def no_overrides_def Let_def
      client_signs_server_message verifyAuthSignature_iff key_pair_def)

lemma complete_auth_accepted:
  assumes "response_accepted nc (sv_devices sv) (sv_challenges sv) (en_now e) k rec cl"
  shows "Emit k AuthSuccess
      [(''session_id'', JStr (en_sessionId e)), (''account_id'', JStr (cl_accountId cl)),
       (''device_id'', JStr (cl_deviceId cl)), (''nova_id'', JStr (cl_novaId cl)),
       (''expires_at_ms'', jint (en_now e + sr_sessionTtlMs (sv_sessions sv)))]
    \<in> set (fst (complete_auth nc sv e k d rec keys))"
proof -
  obtain r chs' sess' where h: "handleAuthResponse nc (sv_devices sv) (sv_challenges sv) (sv_sessions sv)
      (en_now e) (en_sessionId e) k rec True = (r, chs', sess')"
    by (metis prod_cases3)
  from h show ?thesis
  proof (cases rule: handshake_cases)
    case failed
    with assms show ?thesis by blast
  next
    case (success c ses evicted)
    have "cl_accountId c = cl_accountId cl" "cl_deviceId c = cl_deviceId cl" "cl_novaId c = cl_novaId cl"
      using assms success(2) by (simp_all add: response_accepted_def)
    then show ?thesis
      using create_fields(1) [OF success(3)]
      by (simp add: complete_auth_def h success(1) Let_def case_prod_beta grant_effects)
  qed
qed

text \<open>A response within the limits and with no scope locked reaches the engine, over the same stores.\<close>

lemma auth_let_through:
  assumes "sd_authAttempts d < cf_maxAuthAttemptsPerConnection (sv_config sv)"
    and "fst (consumeAuthRate (sd_limiters d) (en_now e))"
    and "\<not> fst (someLocked (sv_authFailures sv) (en_now e) (lockoutScopeKeys (sv_config sv) d rec))"
  obtains sv3 d2 keys where
    "fst (onAuthResponse nc sv e k d (Some (JObj rec))) = fst (complete_auth nc sv3 e k d2 rec keys)"
    "sv_devices sv3 = sv_devices sv" "sv_challenges sv3 = sv_challenges sv" "sv_sessions sv3 = sv_sessions sv"
proof -
  let ?d1 = "d\<lparr>sd_authAttempts := sd_authAttempts d + 1\<rparr>"
  obtain l where l: "consumeAuthRate (sd_limiters d) (en_now e) = (True, l)"
    using assms(2) by (cases "consumeAuthRate (sd_limiters d) (en_now e)") simp
  let ?d2 = "?d1\<lparr>sd_limiters := l\<rparr>"
  let ?sv2 = "put_data k ?d2 (put_data k ?d1 sv)"
  have ip: "sd_ip ?d2 = sd_ip d" by simp
  have keys: "lockoutScopeKeys (sv_config sv) ?d2 rec = lockoutScopeKeys (sv_config sv) d rec"
    unfolding lockoutScopeKeys_def ip ..
  obtain t where t: "someLocked (sv_authFailures sv) (en_now e) (lockoutScopeKeys (sv_config sv) d rec) = (False, t)"
    using assms(3) by (cases "someLocked (sv_authFailures sv) (en_now e) (lockoutScopeKeys (sv_config sv) d rec)") simp
  have attempts: "\<not> sd_authAttempts d + 1 > cf_maxAuthAttemptsPerConnection (sv_config sv)" using assms(1) by simp
  show thesis
    by (rule that [of "?sv2\<lparr>sv_authFailures := t\<rparr>" ?d2 "lockoutScopeKeys (sv_config sv) d rec"])
      (use attempts in \<open>simp_all add: onAuthResponse_def Let_def l t keys put_data_def\<close>)
qed

text \<open>The client takes the session of its own identity.\<close>

lemma verdict_own:
  assumes "own_session (nv_identity c) fs"
  shows "auth_verdict (''auth.success'', Some (JObj fs)) c =
    (Inr fs, c\<lparr>nv_session := Some fs, nv_state := StAuthenticated, nv_handshakes := nv_handshakes c + 1\<rparr>)"
  using assms by (simp add: auth_verdict_def own_session_def Let_def)

section \<open>What a replay can still bring\<close>

text \<open>A live message: filed under its id, and the cursor moves to its number.\<close>

lemma live_message_in:
  assumes "nv_socket c \<noteq> None" and "sync_idle c" and "map_get fs ''conversation_id'' = Some (JStr conv)"
    and "map_get fs ''log_seq'' = Some (jint n)" and "cursor_of c conv < js_int n"
  defines "c' \<equiv> snd (on_any ''message.new'' (Some (JObj fs)) c)"
  shows "nv_socket c' \<noteq> None" "sync_idle c'" "cursor_of c' conv = js_int n"
    "inbox_ids c' \<subseteq> inbox_ids c \<union> {i. map_get fs ''message_id'' = Some (JStr i)}"
proof -
  let ?c = "observe ''message.new'' (Some (JObj fs)) c"
  have "nv_socket ?c \<noteq> None" "cursor_of ?c conv = js_int n" "nv_queues ?c = nv_queues c" "nv_waiters ?c = nv_waiters c"
    "inbox_ids ?c \<subseteq> inbox_ids c \<union> {i. map_get fs ''message_id'' = Some (JStr i)}"
    using assms(1,3-5)
    by (auto simp: observe_def Let_def cursor_of_def advanceCursor_def apply_message_def split: option.splits if_splits)
  then show "nv_socket c' \<noteq> None" "sync_idle c'" "cursor_of c' conv = js_int n"
    "inbox_ids c' \<subseteq> inbox_ids c \<union> {i. map_get fs ''message_id'' = Some (JStr i)}"
    using assms(2)
    by (auto simp: c'_def on_any_def enqueue_def sync_idle_def cursor_of_def Let_def split: option.splits list.splits)
qed

context event_log
begin

lemma page_events:
  "ok s \<Longrightarrow> 0 \<le> k \<Longrightarrow> 0 < n \<Longrightarrow> set (since s c k n) \<subseteq> set (drop (nat k) (log_of s c))"
  by (auto simp: since_rest dest: in_set_takeD)

lemma fetched_after:
  assumes "ok s" "0 < n"
  shows "0 \<le> k \<Longrightarrow> k \<le> latest s c \<Longrightarrow> set (fst (fetch_pages since latest fuel s c n k)) \<subseteq> set (drop (nat k) (log_of s c))"
proof (induction fuel arbitrary: k)
  case (Suc fuel)
  obtain es k' again where p: "page_of since latest s c n k = (es, k', again)" by (metis prod_cases3)
  note range = page_of_cursor [OF assms(1) Suc.prems assms(2) p]
  have es: "set es \<subseteq> set (drop (nat k) (log_of s c))"
    using p page_events [OF assms(1) Suc.prems(1) assms(2)] by (auto simp: page_of_def Let_def)
  have "set (drop (nat k') (log_of s c)) \<subseteq> set (drop (nat k) (log_of s c))"
    using range(1) by (intro set_drop_subset_set_drop) simp
  with es Suc.IH [of k'] range Suc.prems(1) show ?case
    by (auto simp: p case_prod_beta split: if_splits dest: set_mp)
qed simp

end

lemma message_ids_mono: "set es \<subseteq> set es' \<Longrightarrow> message_ids es \<subseteq> message_ids es'"
  by (auto simp: message_ids_def)

end
