(* ===== verification/Client_Properties.thy ===== *)
theory Client_Properties
  imports Client_Server Demo_Run
begin

text \<open>
  The properties of the client, alone and against the server.
\<close>

section \<open>The client alone\<close>

definition alice_identity :: nova_identity where
  "alice_identity = \<lparr>ni_accountId = ''alice'', ni_deviceId = ''a1'', ni_novaId = ''NA'', ni_privateKey = [7],
     ni_publicKeyBase64 = replicate 32 (CHR ''k'')\<rparr>"

text \<open>
  C21: Whatever is called and whatever comes in, a client's state hangs together: every applied
  message is in the inbox once, under its id and in the order of application, a client that
  counts as authenticated has a session, and a session it holds is for its own account, device
  and Nova id.
\<close>

theorem client_state_consistent:
  "let c = client_run cc inputs (new_client ident) in
     nv_appliedOrder c = map_keys (nv_inbox c) \<and> distinct (nv_appliedOrder c) \<and>
     (case nv_session c of None \<Rightarrow> nv_state c \<noteq> StAuthenticated | Some s \<Rightarrow> own_session (nv_identity c) s)"
proof -
  have "client_ok (client_run cc inputs (new_client ident))" by (rule client_ok_run [OF client_ok_new])
  then show ?thesis by (auto simp: client_ok_def Let_def split: option.splits)
qed

text \<open>
  C22: Nothing is taken back. However a run goes on, cursors only move forward, the messages
  applied so far stay first and in their order, and no record in the inbox is replaced.
\<close>

theorem client_never_goes_back:
  "let c = client_run cc inputs (new_client ident); c' = client_run cc more_inputs c in
     (\<forall>conv. cursor_of c' conv = cursor_of c conv \<or> cursor_of c conv < cursor_of c' conv) \<and>
     prefix (nv_appliedOrder c) (nv_appliedOrder c') \<and> map_of (nv_inbox c) \<subseteq>\<^sub>m map_of (nv_inbox c')"
  using grows_run [OF client_ok_run [OF client_ok_new [of ident]] subset_refl, where inputs = more_inputs]
  by (simp add: client_grows_def Let_def)

text \<open>
  C20: An envelope is sent until it is acknowledged. If it is in the outbox without an ack and
  no ack for its id comes in, then however the run goes on (disconnects, new handshakes, other
  sends, forced resends of it), a flush on an open socket sends exactly the pending envelopes,
  in the order they were put in, this one among them, with the wire form it was built with.
\<close>

theorem outbox_retransmits:
  assumes "c = client_run cc inputs (new_client ident)" and "map_get (nv_outbox c) i = Some entry" and "\<not> ob_acked entry"
    and "i \<notin> set (concat (map acked_by more_inputs))" and "nv_socket (client_run cc more_inputs c) \<noteq> None"
  shows "\<exists>resent packets c'. flushOutbox (client_run cc more_inputs c) = (Inr resent, packets, c') \<and>
    resent = pending (client_run cc more_inputs c) \<and> length packets = length resent \<and> i \<in> set resent \<and>
    (''message.send'', Some (JObj (ob_wire entry))) \<in> set packets"
proof -
  let ?c = "client_run cc more_inputs c"
  have ok: "client_ok c" unfolding assms(1) by (rule client_ok_run [OF client_ok_new])
  note stays = unacked_stays [OF ok assms(2,3,4), of cc]
  have "i \<in> fst ` set (nv_outbox ?c)"
    using stays by (auto simp: unacked_def split: option.splits dest: map_of_SomeD intro: rev_image_eqI)
  then have "i \<in> set (pending ?c)"
    using stays pending_keys [OF client_ok_run [OF ok]] by simp
  moreover obtain c' where "flushOutbox ?c = (Inr (pending ?c), map (resend_packet ?c) (pending ?c), c')"
    using flush_emits [OF client_ok_run [OF ok] assms(5)] by blast
  ultimately show ?thesis using stays by (force simp: image_iff)
qed

definition no_crypto :: client_crypto where
  "no_crypto = \<lparr>cc_sign = (\<lambda>k m. replicate 64 0), cc_spki = (\<lambda>k. k), cc_toBase64 = (\<lambda>bs. replicate (length bs) (CHR ''A''))\<rparr>"

definition first_input :: send_input where
  "first_input = \<lparr>si_conversationId = ''room'', si_ciphertextBase64 = ''x'', si_headerType = None,
     si_messageId = Some ''m1'', si_extra = [], si_force = False\<rparr>"

lemma outbox_retransmits_witness:
  "\<exists>resent packets c'. flushOutbox (client_run no_crypto [SocketDisconnect ''gone'', DoReconnectBegin, SocketConnect]
      (client_run no_crypto [DoConnect, SocketConnect, DoSend ''u'' 5 first_input] (new_client alice_identity))) =
    (Inr resent, packets, c') \<and> ''m1'' \<in> set resent"
proof -
  let ?is = "[DoConnect, SocketConnect, DoSend ''u'' 5 first_input]"
  let ?more = "[SocketDisconnect ''gone'', DoReconnectBegin, SocketConnect]"
  let ?wire = "envelope_fields 5 ''m1'' alice_identity first_input"
  have entry: "map_get (nv_outbox (client_run no_crypto ?is (new_client alice_identity))) ''m1'' =
      Some \<lparr>ob_messageId = ''m1'', ob_wire = ?wire, ob_acked = False, ob_attempts = 1\<rparr>"
    by code_simp
  have "nv_socket (client_run no_crypto ?more (client_run no_crypto ?is (new_client alice_identity))) = Some True"
    by code_simp
  with outbox_retransmits [OF refl entry, of ?more] show ?thesis by auto
qed

section \<open>The client against the server\<close>

text \<open>
  C19: A genuine client gets in. If the two sides' cryptography matches for its key pair, its
  device is registered and active, and its socket has a live challenge, and the server's limits
  leave room (the socket has attempts left, the auth and aggregate buckets hold a token, none
  of the response's lockout scopes is locked), then the server answers the \<open>auth.response\<close>
  the client builds for that challenge by sending its socket a success that the client accepts:
  it is authenticated and holds the session.
\<close>

theorem genuine_client_gets_in:
  assumes "key_pair nc cc (ni_privateKey (nv_identity c)) (dev_ed25519PublicKey device)"
    and "byDeviceId (sv_devices sv) (ni_deviceId (nv_identity c)) = Some device" and "dev_status device = Active"
    and "dev_accountId device = ni_accountId (nv_identity c)" and "dev_novaId device = ni_novaId (nv_identity c)"
    and "map_get (cs_challenges (sv_challenges sv)) (ac_challengeId ch) = Some issued" and "en_now e \<le> ch_expiresAtMs issued"
    and "ch_socketKey issued = k" and "ch_challengeBase64 issued = ac_challenge ch"
    and "ch_accountId issued = WILDCARD" and "ch_deviceId issued = WILDCARD"
    and "sd_authAttempts d < cf_maxAuthAttemptsPerConnection (sv_config sv)"
    and "fst (consumeAuthRate (sd_limiters d) (en_now e))"
    and "\<not> fst (isLocked (sv_authFailures sv) (en_now e) (''device:'' @ ni_deviceId (nv_identity c)))"
    and "\<not> fst (isLocked (sv_authFailures sv) (en_now e) (''ip:'' @ sd_ip d))"
  shows "\<exists>fs c'. Emit k AuthSuccess fs \<in> set (fst (onAuthResponse nc sv e k d
        (Some (JObj (buildAuthResponse cc ts (nv_identity c) ch no_overrides))))) \<and>
    auth_verdict (''auth.success'', Some (JObj fs)) c = (Inr fs, c') \<and> authenticated c' \<and> nv_session c' = Some fs"
proof -
  let ?rec = "buildAuthResponse cc ts (nv_identity c) ch no_overrides"
  have "\<not> fst (someLocked (sv_authFailures sv) (en_now e) (lockoutScopeKeys (sv_config sv) d ?rec))"
    using assms(14,15) by (auto simp: someLocked_iff lockoutScopeKeys_def buildAuthResponse_def no_overrides_def Let_def
        split: lockout_scope.splits)
  from auth_let_through [OF assms(12,13) this] obtain sv3 d2 keys where let_in:
    "fst (onAuthResponse nc sv e k d (Some (JObj ?rec))) = fst (complete_auth nc sv3 e k d2 ?rec keys)"
    and same: "sv_devices sv3 = sv_devices sv" "sv_challenges sv3 = sv_challenges sv" "sv_sessions sv3 = sv_sessions sv" .
  note acc = built_response_accepted [OF assms(1-11), where ts = ts, folded same(1,2)]
  from complete_auth_accepted [OF acc] obtain fs where
    emit: "Emit k AuthSuccess fs \<in> set (fst (complete_auth nc sv3 e k d2 ?rec keys))"
    and own: "own_session (nv_identity c) fs"
    by (rule that) (simp add: own_session_def identity_claims_def)
  from emit verdict_own [OF own] show ?thesis by (auto simp: let_in authenticated_def)
qed

definition matching_crypto :: node_crypto where
  "matching_crypto = \<lparr>nc_fromBase64 = (\<lambda>s. replicate (length s) 0), nc_verify = (\<lambda>key message sig. Some True)\<rparr>"

lemma genuine_client_gets_in_witness:
  "\<exists>fs c'. Emit ''s1'' AuthSuccess fs \<in> set (fst (onAuthResponse matching_crypto connected_server (demo_env 2) ''s1'' anonymous_data
        (Some (JObj (buildAuthResponse no_crypto 2 alice_identity
          \<lparr>ac_challengeId = ''cA'', ac_challenge = ''bA'', ac_expiresAtMs = 60001\<rparr> no_overrides))))) \<and>
    auth_verdict (''auth.success'', Some (JObj fs)) (new_client alice_identity) = (Inr fs, c') \<and> authenticated c'"
proof -
  have pair: "key_pair matching_crypto no_crypto (ni_privateKey (nv_identity (new_client alice_identity))) (dev_ed25519PublicKey alice_device)"
    by (simp add: key_pair_def matching_crypto_def no_crypto_def alice_device_def Let_def)
  have device: "byDeviceId (sv_devices connected_server) (ni_deviceId (nv_identity (new_client alice_identity))) = Some alice_device"
    by (simp add: new_client_def alice_identity_def connected_server_def byDeviceId_def)
  have rate: "fst (consumeAuthRate (sd_limiters anonymous_data) (en_now (demo_env 2)))" by code_simp
  have unlocked: "\<not> fst (isLocked (sv_authFailures connected_server) now key)" for now key
    by (simp add: connected_server_def new_server_def isLocked_def new_tracker_def)
  have left: "sd_authAttempts anonymous_data < cf_maxAuthAttemptsPerConnection (sv_config connected_server)"
    by (simp add: anonymous_data_def connected_server_def new_server_def demo_config_def)
  show ?thesis
    using genuine_client_gets_in [OF pair device _ _ _ _ _ _ _ _ _ left rate unlocked unlocked, of
        "\<lparr>ac_challengeId = ''cA'', ac_challenge = ''bA'', ac_expiresAtMs = 60001\<rparr>"
        "\<lparr>ch_socketKey = ''s1'', ch_accountId = WILDCARD, ch_deviceId = WILDCARD, ch_challengeBase64 = ''bA'', ch_expiresAtMs = 60001\<rparr>"
        "''s1''" 2]
    by (auto simp: new_client_def alice_identity_def alice_device_def connected_server_def demo_env_def)
qed

text \<open>
  C38: A signature is good for one set of claims. A response that gets a session has a
  signature that verifies, under the registered key of the session's device, over the canonical
  message of claims that name the session's account, device and Nova id; and if that is the
  message a client signs for claims of its own without the separator, they are those claims, so
  that no signature of it makes a session for anybody else or over another challenge.
\<close>

theorem signature_is_for_its_claims:
  assumes "handleAuthResponse nc devices challenges sessions now i k rec True = (r, challenges', sessions')"
    and "hr_session r = Some ses" and "separator_free own"
  shows "\<exists>cl device signature. byDeviceId devices (ses_deviceId ses) = Some device \<and>
    nc_verify nc (SPKI_PREFIX @ dev_ed25519PublicKey device) (canonicalMessage cl) signature = Some True \<and>
    ses_accountId ses = cl_accountId cl \<and> ses_deviceId ses = cl_deviceId cl \<and> ses_novaId ses = cl_novaId cl \<and>
    map_get (cs_challenges challenges) (cl_challengeId cl) \<noteq> None \<and>
    (canonicalMessage cl = canonicalAuthMessage own \<longrightarrow> cl = own)"
  using assms(1)
proof (cases rule: handshake_cases)
  case failed
  with assms(2) show ?thesis by simp
next
  case (success cl s evicted)
  then have s: "s = ses" using assms(2) by simp
  have own: "canonicalMessage cl = canonicalAuthMessage own \<Longrightarrow> cl = own"
    using canonicalMessage_inject [OF assms(3)] by (simp add: client_signs_server_message)
  from success(2) obtain device signature where
    "byDeviceId devices (cl_deviceId cl) = Some device" "map_get (cs_challenges challenges) (cl_challengeId cl) \<noteq> None"
    "verifyAuthSignature nc cl signature (dev_ed25519PublicKey device)"
    by (auto simp: response_accepted_def)
  then show ?thesis
    using create_fields(1) [OF success(3)] own
    by (intro exI [of _ cl] exI [of _ device] exI [of _ "nc_fromBase64 nc signature"]) (simp add: s verifyAuthSignature_iff)
qed

lemma signature_is_for_its_claims_witness:
  "\<exists>cl. ses_accountId bob_session = cl_accountId cl \<and> (canonicalMessage cl = canonicalAuthMessage bob_claims \<longrightarrow> cl = bob_claims)"
proof -
  have "separator_free bob_claims" by (simp add: separator_free_def bob_claims_def)
  from signature_is_for_its_claims [OF bob_handshake _ this] show ?thesis by auto
qed


definition online_client :: nova_client where
  "online_client = (new_client alice_identity)\<lparr>nv_socket := Some True, nv_state := StAuthenticated\<rparr>"


text \<open>
  C23: A live message hides the ones missed before it. When a client that has missed messages
  and has no response of an earlier sync buffered or awaited gets a later live one before it
  has synced, its cursor jumps over them: however often it then syncs the conversation, every
  sync returns, and none brings a message whose events are all at or below the live message's
  log number.
\<close>

theorem live_message_hides_missed:
  assumes "store_ok st" and "0 < limit" and "nv_socket c \<noteq> None" and "sync_idle c"
    and "map_get fs ''conversation_id'' = Some (JStr conv)" and "map_get fs ''log_seq'' = Some (jint n)"
    and "cursor_of c conv < js_int n" and "0 \<le> n" and "n \<le> latestLogSeq st conv"
    and "map_get fs ''message_id'' \<noteq> Some (JStr i)" and "i \<notin> inbox_ids c"
    and "i \<notin> message_ids (drop (nat n) (log_of st conv))"
  shows "\<exists>c'. sync_rounds rounds st limit conv (snd (on_any ''message.new'' (Some (JObj fs)) c)) = Some c' \<and> i \<notin> inbox_ids c'"
proof -
  let ?c = "snd (on_any ''message.new'' (Some (JObj fs)) c)"
  obtain es k' again where all: "sync_all rounds st limit conv n = (es, k', again)" by (metis prod_cases3)
  note live = live_message_in [OF assms(3,4,5,6,7)]
  from sync_rounds_all [OF assms(1,2) live(1,2,3) assms(8,9) all] obtain c' where
    c': "sync_rounds rounds st limit conv ?c = Some c'" "inbox_ids c' = inbox_ids ?c \<union> message_ids es" by blast
  have "set es \<subseteq> set (drop (nat n) (log_of st conv))"
    using memory_log.fetched_after [OF assms(1,2,8,9), of rounds] all by (simp add: sync_all_fetch [OF assms(2)])
  moreover have "i \<notin> inbox_ids ?c" using live(4) assms(10,11) by auto
  ultimately show ?thesis using c' assms(12) message_ids_mono by blast
qed

definition logged_message :: "string \<Rightarrow> appendable_event" where
  "logged_message i = \<lparr>ev_conversationId = ''room'', ev_type = EvMessageNew, ev_serverSeq = 1, ev_atMs = 0,
     ev_payload = [(''message_id'', JStr i), (''conversation_id'', JStr ''room'')]\<rparr>"

definition two_messages :: memory_store where
  "two_messages = snd (appendEvent (snd (appendEvent new_store (logged_message ''m1''))) (logged_message ''m2''))"

lemma live_message_hides_missed_witness:
  "\<forall>rounds. \<exists>c'. sync_rounds rounds two_messages 10 ''room'' (snd (on_any ''message.new'' (Some (JObj
      [(''message_id'', JStr ''m2''), (''conversation_id'', JStr ''room''), (''log_seq'', jint 2)])) online_client)) = Some c' \<and>
    ''m1'' \<notin> inbox_ids c'"
proof
  fix rounds
  let ?fs = "[(''message_id'', JStr ''m2''), (''conversation_id'', JStr ''room''), (''log_seq'', jint 2)]"
  have ok: "store_ok two_messages" unfolding two_messages_def by (intro inv_intros)
  have "latestLogSeq two_messages ''room'' = 2" "drop (nat 2) (log_of two_messages ''room'') = []"
    by (simp_all add: two_messages_def appendEvent_get logged_message_def)
      (simp_all add: new_store_def latestLogSeq_def get_or_def)
  moreover have "nv_socket online_client \<noteq> None" "cursor_of online_client ''room'' < js_int 2"
    "sync_idle online_client" "''m1'' \<notin> inbox_ids online_client"
    by (simp_all add: cursor_of_def online_client_def new_client_def sync_idle_def)
  ultimately show "\<exists>c'. sync_rounds rounds two_messages 10 ''room'' (snd (on_any ''message.new'' (Some (JObj ?fs)) online_client)) = Some c' \<and>
      ''m1'' \<notin> inbox_ids c'"
    using live_message_hides_missed [OF ok, of 10 online_client ?fs "''room''" 2 "''m1''" rounds] by simp
qed

text \<open>
  C35: A late response shifts the syncs after it. A client syncs a conversation and the wait
  times out; the response \<open>q\<close> comes afterwards. Then the next sync returns at once with \<open>q\<close>:
  whatever the server's store holds by then, it brings exactly what \<open>q\<close> brings, and the page the
  server serves for it is left in the buffer, which is again what the sync after that finds.
\<close>

theorem late_response_shifts_syncs:
  assumes "0 < limit" and "nv_socket c \<noteq> None" and "sync_idle c" and "cursor_of c conv = js_int k" and "0 \<le> k"
    and "sp_conversationId q = conv" and "k \<le> sp_cursor q"
    and "sync_request (Some conv) c = (Inr (Inr waiter), packets, c1)"
    and "c2 = snd (on_any ''sync.response'' (Some (JObj (sync_response [q]))) (remove_waiter ''sync.response'' waiter c1))"
  shows "\<exists>p c'. serve_page st limit conv k = Some p \<and> sync_turn st limit conv c2 = Some (sp_hasMore q, c') \<and>
    inbox_ids c' = inbox_ids c \<union> message_ids (sp_events q) \<and> cursor_of c' conv = js_int (sp_cursor q) \<and>
    map_get (nv_queues c') ''sync.response'' = Some [Some (JObj (sync_response [p]))]"
proof -
  obtain w c1' where w: "waitFor ''sync.response'' c = (Inr w, c1')" "core c1' = core c"
    "map_get (nv_queues c1') ''sync.response'' \<in> {None, Some []}" "map_get (nv_waiters c1') ''sync.response'' = Some [w]"
    by (rule idle_wait [OF assms(3)])
  have "waiter = w" "c1 = c1'" using assms(8) by (simp_all add: sync_request_packet [OF assms(2) w(1)])
  with w have "map_get (nv_queues c2) ''sync.response'' = Some [Some (JObj (sync_response [q]))]"
    "map_get (nv_waiters c2) ''sync.response'' \<in> {None, Some []}" "core c2 = core c"
    by (auto simp: assms(9) remove_waiter_def on_any_def enqueue_def observe_def Let_def core_def)
  note c2 = this(1,2) core_frame [OF this(3)]
  have link: "nv_socket c2 \<noteq> None" "cursor_of c2 conv = js_int k"
    using assms(2,4) c2(3,4) by (simp_all add: cursor_of_def)
  obtain p where p: "serve_page st limit conv k = Some p"
    using serve_pages_all [OF assms(1), of st "[(conv, k)]" "[conv]"] by (auto split: option.splits)
  from sync_turn_late [OF link(1) c2(1,2) assms(6) link(2) assms(5,7) p] p c2(5) show ?thesis by auto
qed

text \<open>
  A sync of the empty room times out; two messages later the next sync, served from the full
  log, brings nothing.
\<close>

lemma late_response_shifts_syncs_witness:
  "\<exists>p c'. serve_page two_messages 10 ''room'' 0 = Some p \<and> length (sp_events p) = 2 \<and>
    sync_turn two_messages 10 ''room'' (snd (on_any ''sync.response'' (Some (JObj (sync_response
        [\<lparr>sp_conversationId = ''room'', sp_events = [], sp_cursor = 0, sp_hasMore = False\<rparr>])))
      (remove_waiter ''sync.response'' 0 (snd (snd (sync_request (Some ''room'') online_client)))))) = Some (False, c') \<and>
    inbox_ids c' = {}"
proof -
  let ?q = "\<lparr>sp_conversationId = ''room'', sp_events = [], sp_cursor = 0, sp_hasMore = False\<rparr>"
  have online: "nv_socket online_client \<noteq> None" "sync_idle online_client" "cursor_of online_client ''room'' = js_int 0"
    "inbox_ids online_client = {}"
    by (simp_all add: cursor_of_def online_client_def new_client_def sync_idle_def)
  obtain packets c1 where req: "sync_request (Some ''room'') online_client = (Inr (Inr 0), packets, c1)"
    by (simp add: sync_request_def emitRaw_def waitFor_def online_client_def new_client_def)
  have two: "length (sp_events p) = 2" if "serve_page two_messages 10 ''room'' 0 = Some p" for p
    using that by (auto simp: serve_page_def two_messages_def eventsSince_def appendEvent_def logged_message_def new_store_def
        get_or_def slice0_def Let_def)
  show ?thesis
    using late_response_shifts_syncs [OF _ online(1-3) order.refl _ _ req refl, of 10 ?q two_messages] two online(4)
    by (auto simp: req)
qed

section \<open>Defects on concrete runs\<close>

text \<open>
  Two \<open>waitForAck\<close> at once can each take the other's ack and drop it: both envelopes are
  acknowledged, and both waits are still waiting.
\<close>

definition ack_packet :: "string \<Rightarrow> payload" where
  "ack_packet i = Some (JObj [(''message_id'', JStr i)])"

definition crossed_acks :: "(client_error + ack_wait) list" where
  "crossed_acks =
     (let clock = (\<lambda>n. 0);
          (w1, c1) = ack_loop clock 0 5000 ''m1'' online_client;
          (w2, c2) = ack_loop clock 0 5000 ''m2'' c1;
          (woken1, c3) = on_any ''message.ack'' (ack_packet ''m2'') c2;
          (r1, c4) = ack_woken clock 5000 ''m1'' (ack_packet ''m2'') c3;
          (woken2, c5) = on_any ''message.ack'' (ack_packet ''m1'') c4;
          (r2, c6) = ack_woken clock 5000 ''m2'' (ack_packet ''m1'') c5 in
      if woken1 = Some 0 \<and> woken2 = Some 1 then [w1, w2, r1, r2] else [])"

lemma crossed_acks_lost:
  "crossed_acks = [Inr (AckPending 0), Inr (AckPending 1), Inr (AckPending 2), Inr (AckPending 3)]"
  by (simp add: crossed_acks_def online_client_def new_client_def ack_loop.simps ack_woken_def waitFor_def on_any_def
      enqueue_def observe_def ack_packet_def Let_def)

text \<open>A revoked client that authenticates again is no longer blocked: it may reconnect.\<close>

lemma blocked_client_unblocked:
  assumes "nv_state c = StBlocked"
  shows "fst (connect c) = Inl DeviceBlocked"
    and "fst (connect (dropConnection (snd (snd (authenticate_respond cc now ch no_overrides c))))) = Inr ()"
proof -
  have "nv_state (snd (snd (authenticate_respond cc now ch no_overrides c))) = StAuthenticating"
    using arg_cong [OF core_send_auth [of _ "c\<lparr>nv_state := StAuthenticating\<rparr>"], of nv_state]
    by (simp add: authenticate_respond_def core_def)
  then show "fst (connect (dropConnection (snd (snd (authenticate_respond cc now ch no_overrides c))))) = Inr ()"
    by (simp add: connect_def dropConnection_def)
qed (use assms in \<open>simp add: connect_def\<close>)

end
