(* ===== verification/Admin_Api.thy ===== *)
theory Admin_Api
  imports Demo_Run
begin

text \<open>
  \<^verbatim>\<open>server/src/admin_api.ts\<close>: the HTTP management surface. \<open>handler\<close> is one
  request: routing, the bearer token, the body, and the admin operation of the server.

  Parameters: the parsed URL (\<open>None\<close> when the \<open>URL\<close> constructor throws), \<open>parse\<close>, which is
  \<open>JSON.parse\<close> on the UTF-8 text of the body's bytes, and \<open>fraction_text\<close>, the text of a
  number that is not an integer below ten to the 21st.
\<close>

section \<open>String(v)\<close>

fun digit_char :: "nat \<Rightarrow> char" where
  "digit_char n = char_of (48 + n)"

fun nat_text :: "nat \<Rightarrow> string" where
  "nat_text n = (if n < 10 then [digit_char n] else nat_text (n div 10) @ [digit_char (n mod 10)])"

definition int_text :: "int \<Rightarrow> string" where
  "int_text i = (if i < 0 then ''-'' @ nat_text (nat (- i)) else nat_text (nat i))"

fun number_text :: "(rat \<Rightarrow> string) \<Rightarrow> js_number \<Rightarrow> string" where
  "number_text fraction_text (Finite x) =
     (if of_int \<lfloor>x\<rfloor> = x \<and> \<bar>\<lfloor>x\<rfloor>\<bar> < 10 ^ 21 then int_text \<lfloor>x\<rfloor> else fraction_text x)"
| "number_text fraction_text Infinity = ''Infinity''"
| "number_text fraction_text NegInfinity = ''-Infinity''"
| "number_text fraction_text NaN = ''NaN''"

text \<open>
  \<open>None\<close> is the \<open>TypeError\<close> of an object with a \<open>toString\<close> of its own. An array is its
  elements joined by commas, \<open>null\<close> giving the empty string.
\<close>

fun js_String :: "(rat \<Rightarrow> string) \<Rightarrow> json \<Rightarrow> string option" where
  "js_String ft JNull = Some ''null''"
| "js_String ft (JBool b) = Some (if b then ''true'' else ''false'')"
| "js_String ft (JNum n) = Some (number_text ft n)"
| "js_String ft (JStr s) = Some s"
| "js_String ft (JArr xs) =
     map_option (join_with '','') (those (map (\<lambda>x. if x = JNull then Some [] else js_String ft x) xs))"
| "js_String ft (JObj fs) = (if map_has fs ''toString'' then None else Some ''[object Object]'')"

section \<open>The request\<close>

datatype body_event = BodyData "byte list" | BodyEnd | BodyError

record http_request =
  rq_method :: string
  rq_pathname :: "string option"
  rq_authorization :: "string option"
  rq_body :: "body_event list"

datatype admin_failure = BadRequest string | ThrownTypeError

text \<open>
  \<open>readJsonBody\<close>: the first event that settles the promise decides; \<open>None\<close> when none does.
\<close>

fun readJsonBody :: "(byte list \<Rightarrow> json option) \<Rightarrow> byte list list \<Rightarrow> nat \<Rightarrow> body_event list \<Rightarrow> (admin_failure + json) option" where
  "readJsonBody parse chunks received [] = None"
| "readJsonBody parse chunks received (BodyData chunk # events) =
     (if received + length chunk > 1000000 then Some (Inl (BadRequest ''body too large''))
      else readJsonBody parse (chunks @ [chunk]) (received + length chunk) events)"
| "readJsonBody parse chunks received (BodyEnd # events) =
     (if chunks = [] then Some (Inr (JObj []))
      else (case parse (concat chunks) of
              None \<Rightarrow> Some (Inl (BadRequest ''invalid json''))
            | Some v \<Rightarrow> Some (Inr v)))"
| "readJsonBody parse chunks received (BodyError # events) = Some (Inl (BadRequest ''read error''))"

text \<open>\<open>body[field]\<close>: reading a property of \<open>null\<close> throws.\<close>

fun requireFields :: "(rat \<Rightarrow> string) \<Rightarrow> json \<Rightarrow> string list \<Rightarrow> admin_failure + unit" where
  "requireFields ft body [] = Inr ()"
| "requireFields ft body (field # names) =
     (if body = JNull then Inl ThrownTypeError
      else
        (case map_get (payloadObject (Some body)) field of
           None \<Rightarrow> Inl (BadRequest (''missing field: '' @ field))
         | Some JNull \<Rightarrow> Inl (BadRequest (''missing field: '' @ field))
         | Some v \<Rightarrow>
             (case js_String ft v of
                None \<Rightarrow> Inl ThrownTypeError
              | Some s \<Rightarrow>
                  if length s = 0 then Inl (BadRequest (''missing field: '' @ field))
                  else requireFields ft body names)))"

text \<open>\<open>String(body[field])\<close> once \<open>requireFields\<close> has passed.\<close>

definition field_text :: "(rat \<Rightarrow> string) \<Rightarrow> json \<Rightarrow> string \<Rightarrow> string" where
  "field_text ft body field =
     (case map_get (payloadObject (Some body)) field of
        None \<Rightarrow> ''undefined''
      | Some v \<Rightarrow> (case js_String ft v of None \<Rightarrow> [] | Some s \<Rightarrow> s))"

section \<open>The operations\<close>

definition ok_json :: json where
  "ok_json = JObj [(''ok'', JBool True)]"

definition error_json :: "string \<Rightarrow> json" where
  "error_json message = JObj [(''error'', JStr message)]"

type_synonym admin_answer = "(admin_failure + nat \<times> json) \<times> effect list \<times> server"

definition with_fields ::
  "(rat \<Rightarrow> string) \<Rightarrow> json \<Rightarrow> string list \<Rightarrow> server \<Rightarrow> admin_answer \<Rightarrow> admin_answer" where
  "with_fields ft body names sv reply =
     (case requireFields ft body names of Inl err \<Rightarrow> (Inl err, [], sv) | Inr _ \<Rightarrow> reply)"

text \<open>The members one after another; a member that cannot be converted stops the loop.\<close>

fun add_members :: "(rat \<Rightarrow> string) \<Rightarrow> string \<Rightarrow> json list \<Rightarrow> server \<Rightarrow> (admin_failure + unit) \<times> server" where
  "add_members ft conversationId [] sv = (Inr (), sv)"
| "add_members ft conversationId (member # members) sv =
     (case js_String ft member of
        None \<Rightarrow> (Inl ThrownTypeError, sv)
      | Some m \<Rightarrow> add_members ft conversationId members (adminAddConversationMember sv conversationId m))"

definition admin_route ::
  "node_crypto \<Rightarrow> (rat \<Rightarrow> string) \<Rightarrow> string \<Rightarrow> json \<Rightarrow> server \<Rightarrow> admin_answer" where
  "admin_route nc ft pathname body sv =
     (let text = field_text ft body in
      if pathname = ''/admin/devices'' then
        with_fields ft body [''account_id'', ''device_id'', ''nova_id'', ''public_key_base64''] sv
          (Inr (201, ok_json), [],
           adminRegisterDevice nc sv (text ''account_id'') (text ''device_id'') (text ''nova_id'') (text ''public_key_base64''))
      else if pathname = ''/admin/devices/revoke'' then
        with_fields ft body [''device_id''] sv
          (let ((revoked, sessionsKilled), effs, sv') = adminRevokeDevice sv (text ''device_id'') in
           (Inr (200, JObj [(''ok'', JBool True), (''revoked'', JBool revoked), (''sessionsKilled'', jnat sessionsKilled)]),
            effs, sv'))
      else if pathname = ''/admin/sessions/revoke'' then
        with_fields ft body [''session_id''] sv
          (let (ok, effs, sv') = adminRevokeSession sv (text ''session_id'') in
           (Inr (if ok then 200 else 404, JObj [(''ok'', JBool ok)]), effs, sv'))
      else if pathname = ''/admin/conversations'' then
        with_fields ft body [''conversation_id'', ''members''] sv
          (case map_get (payloadObject (Some body)) ''members'' of
             Some (JArr members) \<Rightarrow>
               (case add_members ft (text ''conversation_id'') members sv of
                  (Inl err, sv') \<Rightarrow> (Inl err, [], sv')
                | (Inr _, sv') \<Rightarrow> (Inr (201, ok_json), [], sv'))
           | _ \<Rightarrow> (Inl (BadRequest ''members must be an array''), [], sv))
      else if pathname = ''/admin/relationships'' then
        with_fields ft body [''account_a'', ''account_b''] sv
          (Inr (201, ok_json), [], adminAddRelationship sv (text ''account_a'') (text ''account_b''))
      else if pathname = ''/admin/presence-audience'' then
        with_fields ft body [''subject'', ''viewer''] sv
          (Inr (201, ok_json), [], adminAllowPresence sv (text ''subject'') (text ''viewer''))
      else (Inr (404, error_json ''not_found''), [], sv))"

section \<open>The handler\<close>

text \<open>\<open>None\<close>: no response is written, because the URL does not parse or the body never ends.\<close>

definition caught :: "admin_failure \<Rightarrow> nat \<times> json" where
  "caught err = (case err of
     BadRequest message \<Rightarrow> (400, error_json message)
   | ThrownTypeError \<Rightarrow> (500, error_json ''internal_error''))"

definition health :: "int \<Rightarrow> server \<Rightarrow> json" where
  "health uptime sv = JObj
     [(''status'', JStr ''ok''), (''uptime_s'', jint uptime), (''sockets'', jnat (length (sv_sockets sv))),
      (''sessions'', jnat (session_liveCount (sv_sessions sv))),
      (''challenges'', jnat (challenge_liveCount (sv_challenges sv))),
      (''store'', JStr (case cf_storeBackend (sv_config sv) of MemoryBackend \<Rightarrow> ''memory'' | SupabaseBackend \<Rightarrow> ''supabase''))]"

definition handler ::
  "node_crypto \<Rightarrow> (rat \<Rightarrow> string) \<Rightarrow> (byte list \<Rightarrow> json option) \<Rightarrow> int \<Rightarrow> http_request \<Rightarrow> server
   \<Rightarrow> (nat \<times> json) option \<times> effect list \<times> server" where
  "handler nc ft parse uptime req sv =
     (case rq_pathname req of
        None \<Rightarrow> (None, [], sv)
      | Some pathname \<Rightarrow>
          if rq_method req = ''GET'' \<and> pathname = ''/healthz'' then (Some (200, health uptime sv), [], sv)
          else if pathname = ''/healthz'' then (Some (405, error_json ''method_not_allowed''), [], sv)
          else if \<not> starts_with ''/admin/'' pathname then (Some (404, error_json ''not_found''), [], sv)
          else if rq_method req \<noteq> ''POST'' then (Some (405, error_json ''method_not_allowed''), [], sv)
          else if cf_adminToken (sv_config sv) \<noteq> [] \<and>
                  (case rq_authorization req of None \<Rightarrow> [] | Some a \<Rightarrow> a) \<noteq> ''Bearer '' @ cf_adminToken (sv_config sv)
          then (Some (401, error_json ''unauthorized''), [], sv)
          else
            (case readJsonBody parse [] 0 (rq_body req) of
               None \<Rightarrow> (None, [], sv)
             | Some (Inl err) \<Rightarrow> (Some (caught err), [], sv)
             | Some (Inr body) \<Rightarrow>
                 (case admin_route nc ft pathname body sv of
                    (Inl err, effs, sv') \<Rightarrow> (Some (caught err), effs, sv')
                  | (Inr reply, effs, sv') \<Rightarrow> (Some reply, effs, sv'))))"

section \<open>Lemmas\<close>

lemma with_fields_cases:
  "with_fields ft body names sv reply = out \<Longrightarrow>
   (\<exists>err. out = (Inl err, [], sv)) \<or> reply = out"
  by (auto simp: with_fields_def split: sum.splits)

text \<open>The text \<open>String\<close> gives is empty exactly when the wire model says so.\<close>

lemma join_nonempty: "join_with '','' xs = [] \<longleftrightarrow> xs = [] \<or> xs = [[]]"
  by (cases "('','', xs)" rule: join_with.cases) auto

lemma those_map_None: "those (map f xs) = None \<longleftrightarrow> (\<exists>x \<in> set xs. f x = None)"
  by (induction xs) (auto split: option.splits)

lemma those_map_Some: "those (map f xs) = Some ys \<Longrightarrow> ys = map (the \<circ> f) xs"
  by (induction xs arbitrary: ys) (auto split: option.splits)

lemma nat_text_nonempty [simp]: "nat_text n \<noteq> []"
  by (subst nat_text.simps) (simp del: nat_text.simps)

declare nat_text.simps [simp del]

lemma int_text_nonempty [simp]: "int_text i \<noteq> []"
  by (simp add: int_text_def)

lemma string_nonempty_String:
  assumes "\<And>x. ft x \<noteq> []"
  shows "string_nonempty v = map_option (\<lambda>s. s \<noteq> []) (js_String ft v)"
proof (induction v)
  case (JNum n)
  then show ?case using assms by (cases n) simp_all
next
  case (JArr xs)
  let ?g = "\<lambda>x. if x = JNull then Some [] else js_String ft x"
  have el: "x \<noteq> JNull \<and> string_nonempty x = None \<longleftrightarrow> ?g x = None" if "x \<in> set xs" for x
    using JArr [OF that] by auto
  show ?case
  proof (cases "those (map ?g xs)")
    case None
    then have "\<exists>x \<in> set xs. ?g x = None" by (simp only: those_map_None)
    with el have "list_ex (\<lambda>x. x \<noteq> JNull \<and> string_nonempty x = None) xs" by (auto simp: list_ex_iff)
    with None show ?thesis by simp
  next
    case (Some ys)
    then have all: "\<forall>x \<in> set xs. ?g x \<noteq> None" using those_map_None [of ?g xs] by auto
    with el have "\<not> list_ex (\<lambda>x. x \<noteq> JNull \<and> string_nonempty x = None) xs" by (auto simp: list_ex_iff)
    moreover have "x \<noteq> JNull \<and> string_nonempty x = Some True \<longleftrightarrow> the (?g x) \<noteq> []" if "x \<in> set xs" for x
      using JArr [OF that] all that by auto
    then have "list_ex (\<lambda>x. x \<noteq> JNull \<and> string_nonempty x = Some True) xs \<longleftrightarrow> (\<exists>x \<in> set xs. the (?g x) \<noteq> [])"
      by (auto simp: list_ex_iff)
    moreover have "join_with '','' ys \<noteq> [] \<longleftrightarrow> 2 \<le> length xs \<or> (\<exists>x \<in> set xs. the (?g x) \<noteq> [])"
    proof (cases xs)
      case (Cons x xs')
      then show ?thesis using those_map_Some [OF Some] by (cases xs') (auto simp: join_nonempty)
    qed (use those_map_Some [OF Some] in simp)
    ultimately show ?thesis using Some by simp
  qed
qed simp_all

section \<open>The surface only runs the server's admin operations\<close>

lemma admin_reach:
  assumes "reachable nc config sv" and "\<And>e. possible sv e i" and "\<And>e. snd (react nc sv e i) = sv'"
  shows "reachable nc config sv'"
proof -
  obtain effs where "react nc sv (demo_env 0) i = (effs, sv')" using assms(3) by (metis prod.collapse)
  with assms show ?thesis by (blast intro: reach step)
qed

lemma add_members_reachable:
  "reachable nc config sv \<Longrightarrow> reachable nc config (snd (add_members ft c ms sv))"
proof (induction ms arbitrary: sv)
  case (Cons m ms)
  have "reachable nc config (adminAddConversationMember sv c a)" for a
    using Cons.prems by (rule admin_reach [where i = "AddConversationMember c a"]) simp_all
  with Cons show ?case by (auto split: option.splits)
qed simp

lemma with_fields_server: "snd (snd (with_fields ft body names sv reply)) \<in> {sv, snd (snd reply)}"
  by (simp add: with_fields_def split: sum.split)

lemma route_reachable:
  assumes r: "reachable nc config sv"
  shows "reachable nc config (snd (snd (admin_route nc ft pathname body sv)))"
proof -
  have with_fields: "reachable nc config (snd (snd reply)) \<Longrightarrow>
      reachable nc config (snd (snd (with_fields ft body names sv reply)))" for names reply
    using r with_fields_server [of ft body names sv reply] by auto
  have "reachable nc config (adminRegisterDevice nc sv a d n pk)" for a d n pk
    using r by (rule admin_reach [where i = "RegisterDevice a d n pk"]) simp_all
  moreover have "reachable nc config (snd (snd (adminRevokeDevice sv d)))" for d
    using r by (rule admin_reach [where i = "RevokeDevice d"]) simp_all
  moreover have "reachable nc config (snd (snd (adminRevokeSession sv i)))" for i
    using r by (rule admin_reach [where i = "RevokeSession i"]) simp_all
  moreover have "reachable nc config (adminAddRelationship sv a b)" for a b
    using r by (rule admin_reach [where i = "AddRelationship a b"]) simp_all
  moreover have "reachable nc config (adminAllowPresence sv a b)" for a b
    using r by (rule admin_reach [where i = "AllowPresence a b"]) simp_all
  moreover have "reachable nc config (snd (snd (with_fields ft body names sv (case fst (add_members ft c ms sv) of
        Inl err \<Rightarrow> (Inl err, [], snd (add_members ft c ms sv)) | Inr _ \<Rightarrow> (Inr x, [], snd (add_members ft c ms sv))))))"
    for c ms x names
    using add_members_reachable [OF r, of ft c ms] by (intro with_fields) (auto split: sum.splits)
  ultimately show ?thesis
    using r by (simp add: admin_route_def Let_def case_prod_beta with_fields split: option.split json.split)
qed

lemma handler_reachable:
  "reachable nc config sv \<Longrightarrow> reachable nc config (snd (snd (handler nc ft parse uptime req sv)))"
  using route_reachable [of nc config sv ft]
  by (simp add: handler_def case_prod_beta split: option.split sum.split)

section \<open>Failures\<close>

definition failed :: "admin_failure + nat \<times> json \<Rightarrow> bool" where
  "failed r \<longleftrightarrow> (case r of Inl err \<Rightarrow> True | Inr (status, body) \<Rightarrow> 400 \<le> status)"

lemma failed_simps [simp]: "failed (Inl err)" "failed (Inr (status, body)) \<longleftrightarrow> 400 \<le> status"
  by (simp_all add: failed_def)

definition quiet :: "string \<Rightarrow> server \<Rightarrow> admin_answer \<Rightarrow> bool" where
  "quiet pathname sv out \<longleftrightarrow> (failed (fst out) \<longrightarrow> fst (snd out) = [] \<and>
     (snd (snd out) = sv \<or> (pathname = ''/admin/conversations'' \<and> fst out = Inl ThrownTypeError)))"

lemma quiet_with_fields: "quiet p sv reply \<Longrightarrow> quiet p sv (with_fields ft body names sv reply)"
  by (simp add: quiet_def with_fields_def split: sum.split)

lemma quiet_success: "status < 400 \<Longrightarrow> quiet p sv (Inr (status, body), rest)"
  by (simp add: quiet_def)

lemma quiet_unchanged: "quiet p sv (r, [], sv)"
  by (simp add: quiet_def)

lemma quiet_members:
  "quiet ''/admin/conversations'' sv (case add_members ft c ms sv of
     (Inl err, sv') \<Rightarrow> (Inl err, [], sv') | (Inr _, sv') \<Rightarrow> (Inr (201, ok_json), [], sv'))"
proof -
  have "fst (add_members ft c ms s) = Inl err \<Longrightarrow> err = ThrownTypeError" for s err
    by (induction ms arbitrary: s) (auto split: option.splits)
  then show ?thesis
    by (auto simp: quiet_def case_prod_beta split: sum.split)
qed

lemma quiet_session:
  assumes "\<not> fst (adminRevokeSession sv i)"
  shows "quiet p sv (Inr (404, body), snd (adminRevokeSession sv i))"
proof (cases "map_get (sr_sessions (sv_sessions sv)) i")
  case None
  then have "map_delete i (sr_sessions (sv_sessions sv)) = sr_sessions (sv_sessions sv)"
    by (intro delete_id) (simp add: map_of_eq_None_iff)
  with None have "adminRevokeSession sv i = (False, [], sv)"
    by (simp add: adminRevokeSession_def revoke_session_def)
  then show ?thesis by (simp add: quiet_unchanged)
next
  case (Some ses)
  with assms show ?thesis by (simp add: adminRevokeSession_def revoke_session_def Let_def)
qed

lemma route_quiet: "quiet pathname sv (admin_route nc ft pathname body sv)"
  by (simp add: admin_route_def Let_def case_prod_beta quiet_with_fields quiet_success quiet_unchanged
      quiet_members [unfolded case_prod_beta] quiet_session split: option.split json.split)

section \<open>Properties\<close>

text \<open>
  C28: With an admin token configured, nothing moves without it. If a request to the admin
  surface has any effect or changes the server, it was a POST to an admin path that carried
  exactly the configured bearer token; and no request takes the server out of its reachable
  states.
\<close>

theorem admin_requires_token:
  assumes "reachable nc config sv" and "handler nc ft parse uptime req sv = (resp, effs, sv')"
    and "cf_adminToken (sv_config sv) \<noteq> []" and "effs \<noteq> [] \<or> sv' \<noteq> sv"
  shows "rq_method req = ''POST'' \<and> rq_authorization req = Some (''Bearer '' @ cf_adminToken (sv_config sv)) \<and>
    (\<exists>rest. rq_pathname req = Some (''/admin/'' @ rest)) \<and> reachable nc config sv'"
proof -
  have "reachable nc config sv'"
    using handler_reachable [OF assms(1), of ft parse uptime req] assms(2) by simp
  then show ?thesis
    using assms(2-4)
    by (auto simp: handler_def starts_with_iff split: option.splits if_splits)
qed

definition admin_server :: server where
  "admin_server = new_server (demo_config\<lparr>cf_adminToken := ''t''\<rparr>)"

definition audience_request :: http_request where
  "audience_request = \<lparr>rq_method = ''POST'', rq_pathname = Some ''/admin/presence-audience'',
     rq_authorization = Some ''Bearer t'', rq_body = [BodyData [1], BodyEnd]\<rparr>"

definition audience_body :: "byte list \<Rightarrow> json option" where
  "audience_body bytes = Some (JObj [(''subject'', JStr ''alice''), (''viewer'', JStr ''bob'')])"

lemma audience_handled:
  "handler demo_crypto (\<lambda>x. ''0'') audience_body 0 audience_request admin_server =
    (Some (201, ok_json), [], adminAllowPresence admin_server ''alice'' ''bob'')"
  by (simp add: handler_def audience_request_def audience_body_def admin_server_def new_server_def demo_config_def
      starts_with_def admin_route_def with_fields_def field_text_def)

lemma admin_requires_token_witness:
  "rq_authorization audience_request = Some ''Bearer t'' \<and>
   reachable demo_crypto (demo_config\<lparr>cf_adminToken := ''t''\<rparr>) (adminAllowPresence admin_server ''alice'' ''bob'')"
proof -
  have reach: "reachable demo_crypto (demo_config\<lparr>cf_adminToken := ''t''\<rparr>) admin_server"
    unfolding admin_server_def by (rule start) (simp add: config_ok_def limits_ok_def demo_config_def)
  have token: "cf_adminToken (sv_config admin_server) = ''t''" by (simp add: admin_server_def new_server_def)
  have "presenceAudience (sv_directory (adminAllowPresence admin_server ''alice'' ''bob'')) ''alice'' = [''bob'']"
    "presenceAudience (sv_directory admin_server) ''alice'' = []"
    by code_simp+
  then have "adminAllowPresence admin_server ''alice'' ''bob'' \<noteq> admin_server" by auto
  with admin_requires_token [OF reach audience_handled] token show ?thesis by simp
qed

text \<open>
  C29: A request that fails changes nothing. When the status is 400 or more, nothing is emitted
  and the server is as it was; the one exception is a list of conversation members of which one
  cannot be converted to a string, where the members before it have been added and the answer
  is 500.
\<close>

theorem admin_failure_changes_nothing:
  assumes "handler nc ft parse uptime req sv = (Some (status, body), effs, sv')" and "400 \<le> status"
  shows "effs = [] \<and> (sv' = sv \<or> (rq_pathname req = Some ''/admin/conversations'' \<and> status = 500))"
proof (cases "rq_pathname req")
  case None
  with assms show ?thesis by (simp add: handler_def)
next
  case (Some pathname)
  have caught: "400 \<le> fst (caught err)" for err by (cases err) (simp_all add: caught_def)
  show ?thesis
  proof (cases "readJsonBody parse [] 0 (rq_body req)")
    case None
    with Some assms show ?thesis by (auto simp: handler_def split: if_splits)
  next
    case body: (Some r)
    show ?thesis
    proof (cases r)
      case (Inl err)
      with Some body assms show ?thesis by (auto simp: handler_def split: if_splits)
    next
      case (Inr v)
      have "quiet pathname sv (admin_route nc ft pathname v sv)" by (rule route_quiet)
      then show ?thesis
        using Some body Inr assms caught
        by (auto simp: handler_def quiet_def case_prod_beta caught_def split: if_splits sum.splits)
    qed
  qed
qed

lemma admin_failure_changes_nothing_witness:
  "snd (handler demo_crypto (\<lambda>x. ''0'') audience_body 0 (audience_request\<lparr>rq_authorization := None\<rparr>) admin_server) =
   ([], admin_server)"
proof -
  have "handler demo_crypto (\<lambda>x. ''0'') audience_body 0 (audience_request\<lparr>rq_authorization := None\<rparr>) admin_server =
      (Some (401, error_json ''unauthorized''), [], admin_server)"
    by (simp add: handler_def audience_request_def admin_server_def new_server_def demo_config_def starts_with_def)
  from admin_failure_changes_nothing [OF this] this show ?thesis by (simp add: audience_request_def)
qed

text \<open>A body that is the JSON value \<open>null\<close> is answered as a server error, not as a bad request.\<close>

lemma null_body_is_500:
  "handler demo_crypto (\<lambda>x. ''0'') (\<lambda>bytes. Some JNull) 0 audience_request admin_server =
    (Some (500, error_json ''internal_error''), [], admin_server)"
  by (simp add: handler_def audience_request_def admin_server_def new_server_def demo_config_def
      starts_with_def admin_route_def with_fields_def caught_def)

end
