(* ===== verification/Postgrest.thy ===== *)
theory Postgrest
  imports Wire
begin

text \<open>
  The database behind the Supabase backends, as \<^verbatim>\<open>store/supabase_store.ts\<close> and
  \<^verbatim>\<open>directory/supabase_directory.ts\<close> see it: HTTP requests to PostgREST.

  PostgREST and Postgres are the parameter \<open>fetch\<close>, a function of a request and the
  database. A request is kept by its parts; \<open>query_text\<close> is the text the code puts into
  the URL for them. What the code relies on is stated by \<open>postgrest_laws\<close>, over the rows of a
  table: the documented behaviour of a filtered read, of an insert without a \<open>resolution\<close>
  preference, and of the two counter functions, whose SQL is in
  \<^verbatim>\<open>supabase/novaapp_schema.sql\<close>.
\<close>

section \<open>JSON text\<close>

text \<open>
  What \<open>JSON.stringify\<close> writes, as the value the other side parses: a number that is not
  finite becomes \<open>null\<close>.
\<close>

fun stringified :: "json \<Rightarrow> json" where
  "stringified (JNum (Finite x)) = JNum (Finite x)"
| "stringified (JNum n) = JNull"
| "stringified (JArr vs) = JArr (map stringified vs)"
| "stringified (JObj fs) = JObj (map (\<lambda>(name, v). (name, stringified v)) fs)"
| "stringified v = v"

definition sent :: "fields \<Rightarrow> fields" where
  "sent fs = map (\<lambda>(name, v). (name, stringified v)) fs"

lemma stringified_JObj [simp]: "stringified (JObj fs) = JObj (sent fs)"
  by (simp add: sent_def)

declare stringified.simps(6) [simp del]

lemma sent_fields_simps [simp]: "sent [] = []" "sent ((name, v) # fs) = (name, stringified v) # sent fs"
  by (simp_all add: sent_def)

lemma sent_names [simp]: "map fst (sent fs) = map fst fs"
  by (induction fs) auto

section \<open>Requests\<close>

datatype column_filter = EqText string string | EqFlag string bool | GtNumber string int

record table_query =
  tq_table :: string
  tq_onConflict :: "string option"
  tq_filters :: "column_filter list"
  tq_select :: "string list option"
  tq_order :: "string option"
  tq_limit :: "int option"

datatype rest_target = Table table_query | Rpc string

datatype rest_method = Get | Post | Patch

primrec method_name :: "rest_method \<Rightarrow> string" where
  "method_name Get = ''GET''"
| "method_name Post = ''POST''"
| "method_name Patch = ''PATCH''"

record rest_request =
  rr_method :: rest_method
  rr_target :: rest_target
  rr_body :: "json option"
  rr_prefer :: string
  rr_key :: string

text \<open>The text of a response's body: none, JSON, or something that does not parse.\<close>

datatype rest_body = NoText | JsonText json | BadText

record rest_response =
  rs_status :: nat
  rs_body :: rest_body

type_synonym 'db rest_fetch = "rest_request \<Rightarrow> 'db \<Rightarrow> rest_response option \<times> 'db"

definition response_ok :: "rest_response \<Rightarrow> bool" where
  "response_ok r \<longleftrightarrow> 200 \<le> rs_status r \<and> rs_status r \<le> 299"

section \<open>The text of a query\<close>

text \<open>\<open>encodeURIComponent\<close> on Latin-1: the UTF-8 bytes of what is not unreserved, in hex.\<close>

definition hex_digit :: "nat \<Rightarrow> char" where
  "hex_digit n = ''0123456789ABCDEF'' ! n"

definition percent :: "nat \<Rightarrow> string" where
  "percent byte = [CHR ''%'', hex_digit (byte div 16), hex_digit (byte mod 16)]"

definition encode_char :: "char \<Rightarrow> string" where
  "encode_char ch =
     (let n = (of_char ch :: nat) in
      if ch \<in> set ''ABCDEFGHIJKLMNOPQRSTUVWXYZabcdefghijklmnopqrstuvwxyz0123456789-_.!~*'()'' then [ch]
      else if n < 128 then percent n
      else percent (192 + n div 64) @ percent (128 + n mod 64))"

definition encodeURIComponent :: "string \<Rightarrow> string" where
  "encodeURIComponent s = concat (map encode_char s)"

fun decimal :: "nat \<Rightarrow> string" where
  "decimal n = (if n < 10 then [char_of (48 + n)] else decimal (n div 10) @ [char_of (48 + n mod 10)])"

declare decimal.simps [simp del]

definition signed_decimal :: "int \<Rightarrow> string" where
  "signed_decimal i = (if i < 0 then ''-'' @ decimal (nat (- i)) else decimal (nat i))"

primrec filter_text :: "column_filter \<Rightarrow> string" where
  "filter_text (EqText col v) = col @ ''=eq.'' @ encodeURIComponent v"
| "filter_text (EqFlag col b) = col @ ''=eq.'' @ (if b then ''true'' else ''false'')"
| "filter_text (GtNumber col n) = col @ ''=gt.'' @ signed_decimal n"

definition query_text :: "table_query \<Rightarrow> string" where
  "query_text q =
     (let parts =
        (case tq_onConflict q of None \<Rightarrow> [] | Some c \<Rightarrow> [''on_conflict='' @ c]) @
        map filter_text (tq_filters q) @
        (case tq_select q of None \<Rightarrow> [] | Some cols \<Rightarrow> [''select='' @ join_with '','' cols]) @
        (case tq_order q of None \<Rightarrow> [] | Some col \<Rightarrow> [''order='' @ col @ ''.asc'']) @
        (case tq_limit q of None \<Rightarrow> [] | Some n \<Rightarrow> [''limit='' @ signed_decimal n]) in
      tq_table q @ (if parts = [] then [] else ''?'' @ join_with ''&'' parts))"

definition table_only :: "string \<Rightarrow> table_query" where
  "table_only t = \<lparr>tq_table = t, tq_onConflict = None, tq_filters = [], tq_select = None, tq_order = None, tq_limit = None\<rparr>"

definition insert_query :: "string \<Rightarrow> string \<Rightarrow> table_query" where
  "insert_query t onConflict = (table_only t)\<lparr>tq_onConflict := Some onConflict\<rparr>"

definition read_query :: "string \<Rightarrow> column_filter list \<Rightarrow> string list \<Rightarrow> int option \<Rightarrow> table_query" where
  "read_query t filters cols limit =
     (table_only t)\<lparr>tq_filters := filters, tq_select := Some cols, tq_limit := limit\<rparr>"

section \<open>Tables\<close>

text \<open>Columns of a row as JSON; a BIGINT is an integral number.\<close>

fun as_integer :: "json option \<Rightarrow> int option" where
  "as_integer (Some (JNum (Finite x))) = (if of_int \<lfloor>x\<rfloor> = x then Some \<lfloor>x\<rfloor> else None)"
| "as_integer _ = None"

lemma as_integer_int [simp]: "as_integer (Some (JNum (js_int i))) = Some i"
  by simp

primrec passes :: "column_filter \<Rightarrow> fields \<Rightarrow> bool" where
  "passes (EqText col v) row \<longleftrightarrow> map_get row col = Some (JStr v)"
| "passes (EqFlag col b) row \<longleftrightarrow> map_get row col = Some (JBool b)"
| "passes (GtNumber col n) row \<longleftrightarrow> (case as_integer (map_get row col) of None \<Rightarrow> False | Some m \<Rightarrow> n < m)"

definition chosen :: "string list option \<Rightarrow> fields \<Rightarrow> fields" where
  "chosen cols row =
     (case cols of None \<Rightarrow> row
      | Some cs \<Rightarrow> if cs = [''*''] then row else filter (\<lambda>(col, v). col \<in> set cs) row)"

definition sort_value :: "string \<Rightarrow> fields \<Rightarrow> int" where
  "sort_value col row = (case as_integer (map_get row col) of None \<Rightarrow> 0 | Some n \<Rightarrow> n)"

definition passing :: "table_query \<Rightarrow> fields list \<Rightarrow> fields list" where
  "passing q rows = filter (\<lambda>row. list_all (\<lambda>f. passes f row) (tq_filters q)) rows"

text \<open>
  What a read gives: the rows that pass, in the order asked for and otherwise in any, at most
  \<open>limit\<close> of them, cut to the columns.
\<close>

definition rows_read :: "table_query \<Rightarrow> fields list \<Rightarrow> fields list \<Rightarrow> bool" where
  "rows_read q rows out \<longleftrightarrow>
     (\<exists>ordered. mset ordered = mset (passing q rows) \<and>
        (case tq_order q of None \<Rightarrow> True | Some col \<Rightarrow> sorted (map (sort_value col) ordered)) \<and>
        out = map (chosen (tq_select q)) (case tq_limit q of None \<Rightarrow> ordered | Some n \<Rightarrow> take (nat n) ordered))"

datatype column_type = TextColumn | BigintColumn | BooleanColumn | JsonbColumn

text \<open>
  The columns and the conflict key of the tables, as the schema declares them: a column is
  \<open>NOT NULL\<close> without a default, or nullable, or \<open>NOT NULL\<close> with a default.
\<close>

datatype column_rule = Required | Nullable | Defaulted

record column =
  col_name :: string
  col_type :: column_type
  col_rule :: column_rule

abbreviation column :: "string \<Rightarrow> column_type \<Rightarrow> column_rule \<Rightarrow> column" where
  "column n t r \<equiv> \<lparr>col_name = n, col_type = t, col_rule = r\<rparr>"

definition device_columns :: "column list \<times> string list" where
  "device_columns =
     ([column ''nova_id'' TextColumn Required, column ''account_id'' TextColumn Nullable,
       column ''device_id'' TextColumn Required, column ''device_name'' TextColumn Required,
       column ''platform'' TextColumn Required, column ''public_key'' TextColumn Nullable,
       column ''status'' TextColumn Nullable], [''device_id''])"

definition table_columns :: "(string \<times> column list \<times> string list) list" where
  "table_columns =
     [(''realtime_conversation_members'',
        [column ''conversation_id'' TextColumn Required, column ''account_id'' TextColumn Required],
        [''conversation_id'', ''account_id'']),
      (''realtime_contacts'',
        [column ''account_id'' TextColumn Required, column ''peer_id'' TextColumn Required,
         column ''blocked'' BooleanColumn Defaulted],
        [''account_id'', ''peer_id'']),
      (''realtime_presence_audience'',
        [column ''subject_id'' TextColumn Required, column ''viewer_id'' TextColumn Required],
        [''subject_id'', ''viewer_id'']),
      (''realtime_messages'',
        [column ''message_id'' TextColumn Required, column ''conversation_id'' TextColumn Required,
         column ''sender_account_id'' TextColumn Required, column ''sender_device_id'' TextColumn Required,
         column ''ciphertext'' TextColumn Required, column ''header_type'' TextColumn Required,
         column ''server_seq'' BigintColumn Required, column ''received_at_ms'' BigintColumn Required,
         column ''client_ts_ms'' BigintColumn Nullable], [''message_id'']),
      (''realtime_events'',
        [column ''conversation_id'' TextColumn Required, column ''type'' TextColumn Required,
         column ''server_seq'' BigintColumn Required, column ''log_seq'' BigintColumn Required,
         column ''at_ms'' BigintColumn Required, column ''payload'' JsonbColumn Required],
        [''conversation_id'', ''log_seq'']),
      (''realtime_cursors'',
        [column ''conversation_id'' TextColumn Required, column ''last_seq'' BigintColumn Defaulted,
         column ''last_log_seq'' BigintColumn Defaulted], [''conversation_id'']),
      (''realtime_presence'',
        [column ''account_id'' TextColumn Required, column ''status'' TextColumn Required,
         column ''last_seen_ms'' BigintColumn Required], [''account_id'']),
      (''devices'', device_columns)]"

definition columns_of :: "string \<Rightarrow> column list" where
  "columns_of t = (case map_get table_columns t of None \<Rightarrow> [] | Some (cols, key) \<Rightarrow> cols)"

definition key_of :: "string \<Rightarrow> string list" where
  "key_of t = (case map_get table_columns t of None \<Rightarrow> [] | Some (cols, key) \<Rightarrow> key)"

definition known_table :: "string \<Rightarrow> bool" where
  "known_table t \<longleftrightarrow> t \<in> set (map fst table_columns)"

definition known_column :: "string \<Rightarrow> string \<Rightarrow> bool" where
  "known_column t col \<longleftrightarrow> list_ex (\<lambda>c. col_name c = col) (columns_of t)"

definition has_column :: "string \<Rightarrow> string \<Rightarrow> column_type \<Rightarrow> bool" where
  "has_column t col ty \<longleftrightarrow> list_ex (\<lambda>c. col_name c = col \<and> col_type c = ty) (columns_of t)"

text \<open>A TEXT holds no NUL, a BIGINT is a signed 64-bit integer, JSONB holds no NUL in any string.\<close>

definition sql_text :: "string \<Rightarrow> bool" where
  "sql_text s \<longleftrightarrow> CHR 0x00 \<notin> set s"

definition sql_bigint :: "int \<Rightarrow> bool" where
  "sql_bigint n \<longleftrightarrow> - (2 ^ 63) \<le> n \<and> n < 2 ^ 63"

fun sql_json :: "json \<Rightarrow> bool" where
  "sql_json (JStr s) = sql_text s"
| "sql_json (JArr vs) = list_all sql_json vs"
| "sql_json (JObj fs) = list_all (\<lambda>(name, v). sql_text name \<and> sql_json v) fs"
| "sql_json _ = True"

fun value_fits :: "column_type \<Rightarrow> json \<Rightarrow> bool" where
  "value_fits TextColumn (JStr s) = sql_text s"
| "value_fits BigintColumn (JNum n) = (case as_integer (Some (JNum n)) of None \<Rightarrow> False | Some i \<Rightarrow> sql_bigint i)"
| "value_fits BooleanColumn (JBool b) = True"
| "value_fits JsonbColumn v = sql_json v"
| "value_fits _ _ = False"

text \<open>A query over columns the table has, with values of their types.\<close>

primrec filter_fits :: "string \<Rightarrow> column_filter \<Rightarrow> bool" where
  "filter_fits t (EqText col v) \<longleftrightarrow> has_column t col TextColumn \<and> sql_text v"
| "filter_fits t (EqFlag col b) \<longleftrightarrow> has_column t col BooleanColumn"
| "filter_fits t (GtNumber col n) \<longleftrightarrow> has_column t col BigintColumn \<and> sql_bigint n"

definition query_fits :: "table_query \<Rightarrow> bool" where
  "query_fits q \<longleftrightarrow> list_all (filter_fits (tq_table q)) (tq_filters q) \<and>
     (case tq_select q of None \<Rightarrow> True
      | Some cols \<Rightarrow> cols = [''*''] \<or> list_all (known_column (tq_table q)) cols) \<and>
     (case tq_order q of None \<Rightarrow> True | Some col \<Rightarrow> has_column (tq_table q) col BigintColumn) \<and>
     known_table (tq_table q) \<and> tq_onConflict q = None \<and>
     (case tq_limit q of None \<Rightarrow> True | Some n \<Rightarrow> 0 \<le> n)"

text \<open>Supabase answers with at most 1000 rows.\<close>

definition max_rows :: nat where
  "max_rows = 1000"

definition within_max_rows :: "table_query \<Rightarrow> fields list \<Rightarrow> bool" where
  "within_max_rows q rows \<longleftrightarrow>
     (case tq_limit q of None \<Rightarrow> length (passing q rows) \<le> max_rows | Some n \<Rightarrow> nat n \<le> max_rows)"

definition column_fits :: "fields \<Rightarrow> column \<Rightarrow> bool" where
  "column_fits row col =
     (case map_get row (col_name col) of
        None \<Rightarrow> col_rule col \<noteq> Required
      | Some JNull \<Rightarrow> col_rule col = Nullable
      | Some v \<Rightarrow> value_fits (col_type col) v)"

definition row_fits :: "string \<Rightarrow> fields \<Rightarrow> bool" where
  "row_fits t row \<longleftrightarrow> list_all (column_fits row) (columns_of t)"

text \<open>The rows the code sends: distinct columns of the table, no default left to the database.\<close>

definition plain_row :: "string \<Rightarrow> fields \<Rightarrow> bool" where
  "plain_row t row \<longleftrightarrow> distinct (map fst row) \<and> set (map fst row) \<subseteq> set (map col_name (columns_of t)) \<and>
     list_all (\<lambda>col. col_rule col = Required \<or> map_has row (col_name col)) (columns_of t)"

definition same_key :: "string \<Rightarrow> fields \<Rightarrow> fields \<Rightarrow> bool" where
  "same_key t a b \<longleftrightarrow> list_all (\<lambda>col. map_get a col = map_get b col) (key_of t)"

text \<open>
  \<open>jsonb\<close> is what Postgres makes of the members of a JSONB object: the same names, the same
  scalar values, in an order of its own.
\<close>

fun scalar :: "json \<Rightarrow> bool" where
  "scalar (JArr vs) = False"
| "scalar (JObj fs) = False"
| "scalar v = True"

definition jsonb_law :: "(fields \<Rightarrow> fields) \<Rightarrow> bool" where
  "jsonb_law jsonb \<longleftrightarrow>
     (\<forall>fs. distinct (map fst fs) \<longrightarrow>
        (\<forall>name. map_has (jsonb fs) name = map_has fs name \<and>
           (\<forall>v. map_get fs name = Some v \<longrightarrow> scalar v \<longrightarrow> map_get (jsonb fs) name = Some v)))"

definition stored_row :: "(fields \<Rightarrow> fields) \<Rightarrow> fields \<Rightarrow> fields" where
  "stored_row jsonb row =
     map (\<lambda>(col, v). (col, if col = ''payload'' then (case v of JObj fs \<Rightarrow> JObj (jsonb fs) | _ \<Rightarrow> v) else v)) row"

text \<open>The rows after an insert of one or several; \<open>None\<close> when one does not fit or its key is taken.\<close>

primrec insert_rows :: "(fields \<Rightarrow> fields) \<Rightarrow> string \<Rightarrow> fields list \<Rightarrow> fields list \<Rightarrow> fields list option" where
  "insert_rows jsonb t [] rows = Some rows"
| "insert_rows jsonb t (row # new) rows =
     (if row_fits t row \<and> \<not> list_ex (same_key t row) rows
      then insert_rows jsonb t new (rows @ [stored_row jsonb row]) else None)"

text \<open>
  \<open>nova_next_seq\<close> and \<open>nova_next_log_seq\<close>: insert the conversation's row with the counter at
  1 and the other at its default 0, or on conflict add 1; return the counter.
\<close>

fun bump :: "string \<Rightarrow> string \<Rightarrow> string \<Rightarrow> fields list \<Rightarrow> int \<times> fields list" where
  "bump col other c [] = (1, [[(''conversation_id'', JStr c), (col, jint 1), (other, jint 0)]])"
| "bump col other c (row # rows) =
     (if map_get row ''conversation_id'' = Some (JStr c)
      then (let n = sort_value col row + 1 in (n, map_set col (jint n) row # rows))
      else (let (n, rows') = bump col other c rows in (n, row # rows')))"

section \<open>What the code relies on\<close>

definition only_table :: "('db \<Rightarrow> string \<Rightarrow> fields list) \<Rightarrow> 'db \<Rightarrow> 'db \<Rightarrow> string \<Rightarrow> fields list \<Rightarrow> bool" where
  "only_table rows db db' t new \<longleftrightarrow> rows db' = (rows db)(t := new)"

abbreviation read_request :: "table_query \<Rightarrow> string \<Rightarrow> rest_request" where
  "read_request q key \<equiv>
     \<lparr>rr_method = Get, rr_target = Table q, rr_body = None, rr_prefer = ''return=representation'', rr_key = key\<rparr>"

abbreviation insert_request :: "table_query \<Rightarrow> json \<Rightarrow> string \<Rightarrow> rest_request" where
  "insert_request q body key \<equiv>
     \<lparr>rr_method = Post, rr_target = Table q, rr_body = Some body, rr_prefer = ''return=minimal'', rr_key = key\<rparr>"

abbreviation counter_request :: "string \<Rightarrow> string \<Rightarrow> string \<Rightarrow> rest_request" where
  "counter_request fn c key \<equiv>
     \<lparr>rr_method = Post, rr_target = Rpc fn, rr_body = Some (JObj [(''p_conversation_id'', JStr c)]),
      rr_prefer = ''return=representation'', rr_key = key\<rparr>"

abbreviation update_request :: "table_query \<Rightarrow> json \<Rightarrow> string \<Rightarrow> rest_request" where
  "update_request q body key \<equiv>
     \<lparr>rr_method = Patch, rr_target = Table q, rr_body = Some body, rr_prefer = ''return=representation'', rr_key = key\<rparr>"

text \<open>
  With the service key \<open>key\<close>, no other writer and no failure of the network. \<open>return=minimal\<close>
  names no \<open>resolution\<close>, so a conflict on an insert is an error, whatever \<open>on_conflict\<close>
  says. Inserts into \<open>devices\<close> depend on \<open>accounts\<close> as well: only their refusals are stated.
\<close>

definition read_law :: "'db rest_fetch \<Rightarrow> string \<Rightarrow> ('db \<Rightarrow> string \<Rightarrow> fields list) \<Rightarrow> bool" where
  "read_law fetch key rows \<longleftrightarrow>
     (\<forall>q db. query_fits q \<longrightarrow> within_max_rows q (rows db (tq_table q)) \<longrightarrow>
        (\<exists>out. rows_read q (rows db (tq_table q)) out \<and>
           fetch (read_request q key) db = (Some \<lparr>rs_status = 200, rs_body = JsonText (JArr (map JObj out))\<rparr>, db)))"

definition insert_law ::
  "'db rest_fetch \<Rightarrow> string \<Rightarrow> ('db \<Rightarrow> string \<Rightarrow> fields list) \<Rightarrow> (fields \<Rightarrow> fields) \<Rightarrow> bool" where
  "insert_law fetch key rows jsonb \<longleftrightarrow>
     (\<forall>q new body db. known_table (tq_table q) \<longrightarrow> list_all (plain_row (tq_table q)) new \<longrightarrow>
        new \<noteq> [] \<longrightarrow> body = JArr (map JObj new) \<or> [body] = map JObj new \<longrightarrow>
        (case insert_rows jsonb (tq_table q) new (rows db (tq_table q)) of
           None \<Rightarrow> \<exists>status answer. status \<in> {400, 409} \<and>
             fetch (insert_request q body key) db = (Some \<lparr>rs_status = status, rs_body = answer\<rparr>, db)
         | Some new_rows \<Rightarrow> tq_table q \<noteq> ''devices'' \<longrightarrow>
             (\<exists>db'. only_table rows db db' (tq_table q) new_rows \<and>
                fetch (insert_request q body key) db = (Some \<lparr>rs_status = 201, rs_body = NoText\<rparr>, db'))))"

text \<open>The counters, up to the largest value \<open>JSON.parse\<close> reads without rounding.\<close>

definition counter_law :: "'db rest_fetch \<Rightarrow> string \<Rightarrow> ('db \<Rightarrow> string \<Rightarrow> fields list) \<Rightarrow> bool" where
  "counter_law fetch key rows \<longleftrightarrow>
     (\<forall>fn col other c db n new.
        (fn, col, other) \<in> {(''nova_next_seq'', ''last_seq'', ''last_log_seq''), (''nova_next_log_seq'', ''last_log_seq'', ''last_seq'')} \<longrightarrow>
        bump col other c (rows db ''realtime_cursors'') = (n, new) \<longrightarrow> sql_text c \<longrightarrow> n \<le> 2 ^ 53 \<longrightarrow>
        (\<exists>db'. only_table rows db db' ''realtime_cursors'' new \<and>
           fetch (counter_request fn c key) db = (Some \<lparr>rs_status = 200, rs_body = JsonText (jint n)\<rparr>, db')))"

text \<open>An update of one column of the rows of a table with a given key.\<close>

definition updated :: "column_filter \<Rightarrow> string \<Rightarrow> json \<Rightarrow> fields list \<Rightarrow> fields list" where
  "updated f col v rows = map (\<lambda>row. if passes f row then map_set col v row else row) rows"

definition update_law :: "'db rest_fetch \<Rightarrow> string \<Rightarrow> ('db \<Rightarrow> string \<Rightarrow> fields list) \<Rightarrow> bool" where
  "update_law fetch key rows \<longleftrightarrow>
     (\<forall>deviceId st db. sql_text deviceId \<longrightarrow> sql_text st \<longrightarrow>
        (\<exists>db' out. only_table rows db db' ''devices'' (updated (EqText ''device_id'' deviceId) ''status'' (JStr st) (rows db ''devices'')) \<and>
           fetch (update_request ((table_only ''devices'')\<lparr>tq_filters := [EqText ''device_id'' deviceId]\<rparr>)
             (JObj [(''status'', JStr st)]) key) db = (Some \<lparr>rs_status = 200, rs_body = JsonText (JArr out)\<rparr>, db')))"

definition postgrest_laws ::
  "'db rest_fetch \<Rightarrow> string \<Rightarrow> ('db \<Rightarrow> string \<Rightarrow> fields list) \<Rightarrow> (fields \<Rightarrow> fields) \<Rightarrow> bool" where
  "postgrest_laws fetch key rows jsonb \<longleftrightarrow> jsonb_law jsonb \<and>
     read_law fetch key rows \<and> insert_law fetch key rows jsonb \<and> counter_law fetch key rows \<and> update_law fetch key rows"

end
