(* ===== verification/Supabase_Store.thy ===== *)
theory Supabase_Store
  imports Realtime_Store Postgrest
begin

text \<open>
  \<^verbatim>\<open>server/src/store/supabase_store.ts\<close>: the store kept in Postgres. The store itself
  holds only the URL and the service key; its state is the database, which every operation
  passes through \<open>fetch\<close>. A thrown error is an \<open>Inl\<close>. Rows are read by the row interfaces of
  the code: \<open>OffSchema\<close> stands for a row without the columns they declare, which TypeScript's
  cast does not check and the schema rules out.

  Under \<open>postgrest_laws\<close> the operations refine those of \<open>MemoryRealtimeStore\<close>, but for one
  thing: writing a message or a presence whose key is already there fails.
\<close>

section \<open>Requests\<close>

text \<open>The errors of both Supabase backends; the last three are the directory's.\<close>

datatype store_error =
    NetworkError
  | RestFailed string nat
  | RpcFailed string nat
  | InvalidSequence string
  | BadJsonText
  | RowTypeError
  | OffSchema
  | TableFailed string string nat
  | KeyTypeError
  | NullAccount

definition new_supabase_store :: "string \<Rightarrow> string \<Rightarrow> (string \<times> string) option" where
  "new_supabase_store supabaseUrl serviceRoleKey =
     (if supabaseUrl = [] \<or> serviceRoleKey = [] then None else Some (supabaseUrl, serviceRoleKey))"

text \<open>\<open>rest\<close>: the parsed body; an empty text is no rows.\<close>

definition sb_rest ::
  "'db rest_fetch \<Rightarrow> string \<Rightarrow> rest_method \<Rightarrow> table_query \<Rightarrow> json option \<Rightarrow> string \<Rightarrow> 'db \<Rightarrow> (store_error + json) \<times> 'db" where
  "sb_rest fetch key m q body prefer db =
     (case fetch \<lparr>rr_method = m, rr_target = Table q, rr_body = map_option stringified body, rr_prefer = prefer, rr_key = key\<rparr> db of
        (None, db') \<Rightarrow> (Inl NetworkError, db')
      | (Some response, db') \<Rightarrow>
          (if \<not> response_ok response then Inl (RestFailed (method_name m) (rs_status response))
           else (case rs_body response of
                   NoText \<Rightarrow> Inr (JArr [])
                 | BadText \<Rightarrow> Inl BadJsonText
                 | JsonText v \<Rightarrow> Inr v), db'))"

text \<open>\<open>Number(v)\<close> of a parsed value: of a string or a structure it is left out.\<close>

fun number_of :: "json option \<Rightarrow> js_number option" where
  "number_of None = Some NaN"
| "number_of (Some (JNum n)) = Some n"
| "number_of (Some JNull) = Some (js_int 0)"
| "number_of (Some (JBool b)) = Some (js_int (if b then 1 else 0))"
| "number_of (Some _) = None"

text \<open>
  \<open>rpcCounter\<close>: the value is a number or an object with \<open>seq\<close>, and must be finite and
  positive; a sequence that is not an integer is off the schema.
\<close>

definition rpc_value :: "string \<Rightarrow> json \<Rightarrow> store_error + int" where
  "rpc_value fn value =
     (case (case value of JNum n \<Rightarrow> Some n | v \<Rightarrow> number_of (map_get (payloadObject (Some v)) ''seq'')) of
        None \<Rightarrow> Inl OffSchema
      | Some (Finite x) \<Rightarrow>
          if x \<le> 0 then Inl (InvalidSequence fn)
          else if of_int \<lfloor>x\<rfloor> = x then Inr \<lfloor>x\<rfloor>
          else Inl OffSchema
      | Some _ \<Rightarrow> Inl (InvalidSequence fn))"

definition sb_rpcCounter :: "'db rest_fetch \<Rightarrow> string \<Rightarrow> string \<Rightarrow> string \<Rightarrow> 'db \<Rightarrow> (store_error + int) \<times> 'db" where
  "sb_rpcCounter fetch key fn conversationId db =
     (case fetch \<lparr>rr_method = Post, rr_target = Rpc fn,
            rr_body = Some (JObj [(''p_conversation_id'', JStr conversationId)]),
            rr_prefer = ''return=representation'', rr_key = key\<rparr> db of
        (None, db') \<Rightarrow> (Inl NetworkError, db')
      | (Some response, db') \<Rightarrow>
          (if \<not> response_ok response then Inl (RpcFailed fn (rs_status response))
           else (case rs_body response of
                   JsonText v \<Rightarrow> rpc_value fn v
                 | _ \<Rightarrow> Inl BadJsonText), db'))"

text \<open>\<open>rows[0]\<close>: the first row of an array, and what else has an element 0.\<close>

fun first_row :: "json \<Rightarrow> store_error + json option" where
  "first_row JNull = Inl RowTypeError"
| "first_row (JArr (v # vs)) = Inr (Some v)"
| "first_row (JStr (ch # s)) = Inr (Some (JStr [ch]))"
| "first_row (JObj fs) = Inr (map_get fs ''0'')"
| "first_row _ = Inr None"

text \<open>\<open>rows[0]?.col ?? 0\<close> for a BIGINT column.\<close>

definition counter_value :: "string \<Rightarrow> json \<Rightarrow> store_error + int" where
  "counter_value col rows =
     (case first_row rows of
        Inl err \<Rightarrow> Inl err
      | Inr row \<Rightarrow>
          (case map_get (payloadObject row) col of
             None \<Rightarrow> Inr 0
           | Some JNull \<Rightarrow> Inr 0
           | Some v \<Rightarrow> (case as_integer (Some v) of None \<Rightarrow> Inl OffSchema | Some n \<Rightarrow> Inr n)))"

section \<open>Operations\<close>

definition sb_nextSeq :: "'db rest_fetch \<Rightarrow> string \<Rightarrow> string \<Rightarrow> 'db \<Rightarrow> (store_error + int) \<times> 'db" where
  "sb_nextSeq fetch key conversationId db = sb_rpcCounter fetch key ''nova_next_seq'' conversationId db"

definition sb_counter ::
  "'db rest_fetch \<Rightarrow> string \<Rightarrow> string \<Rightarrow> string \<Rightarrow> 'db \<Rightarrow> (store_error + int) \<times> 'db" where
  "sb_counter fetch key col conversationId db =
     (case sb_rest fetch key Get
        (read_query ''realtime_cursors'' [EqText ''conversation_id'' conversationId] [col] (Some 1))
        None ''return=representation'' db of
        (Inl err, db') \<Rightarrow> (Inl err, db')
      | (Inr rows, db') \<Rightarrow> (counter_value col rows, db'))"

definition sb_latestSeq :: "'db rest_fetch \<Rightarrow> string \<Rightarrow> string \<Rightarrow> 'db \<Rightarrow> (store_error + int) \<times> 'db" where
  "sb_latestSeq fetch key conversationId db = sb_counter fetch key ''last_seq'' conversationId db"

definition sb_latestLogSeq :: "'db rest_fetch \<Rightarrow> string \<Rightarrow> string \<Rightarrow> 'db \<Rightarrow> (store_error + int) \<times> 'db" where
  "sb_latestLogSeq fetch key conversationId db = sb_counter fetch key ''last_log_seq'' conversationId db"

definition message_row :: "stored_message \<Rightarrow> fields" where
  "message_row m =
     [(''message_id'', JStr (sm_messageId m)),
      (''conversation_id'', JStr (sm_conversationId m)),
      (''sender_account_id'', JStr (sm_senderAccountId m)),
      (''sender_device_id'', JStr (sm_senderDeviceId m)),
      (''ciphertext'', JStr (sm_ciphertextBase64 m)),
      (''header_type'', JStr (sm_headerType m)),
      (''server_seq'', jint (sm_serverSeq m)),
      (''received_at_ms'', jint (sm_receivedAtMs m)),
      (''client_ts_ms'', case sm_clientTimestampMs m of None \<Rightarrow> JNull | Some n \<Rightarrow> JNum n)]"

text \<open>A write: the rows of the response are not looked at.\<close>

definition sb_write :: "'db rest_fetch \<Rightarrow> string \<Rightarrow> table_query \<Rightarrow> fields \<Rightarrow> 'db \<Rightarrow> (store_error + unit) \<times> 'db" where
  "sb_write fetch key q row db =
     (case sb_rest fetch key Post q (Some (JObj row)) ''return=minimal'' db of
        (Inl err, db') \<Rightarrow> (Inl err, db')
      | (Inr rows, db') \<Rightarrow> (Inr (), db'))"

definition sb_persistMessage :: "'db rest_fetch \<Rightarrow> string \<Rightarrow> stored_message \<Rightarrow> 'db \<Rightarrow> (store_error + unit) \<times> 'db" where
  "sb_persistMessage fetch key message db =
     sb_write fetch key (insert_query ''realtime_messages'' ''message_id'') (message_row message) db"

definition message_of_row :: "fields \<Rightarrow> store_error + stored_message" where
  "message_of_row row =
     (case (as_string (map_get row ''message_id''), as_string (map_get row ''conversation_id''),
            as_string (map_get row ''sender_account_id''), as_string (map_get row ''sender_device_id''),
            as_string (map_get row ''ciphertext''), as_string (map_get row ''header_type''),
            as_integer (map_get row ''server_seq''), as_integer (map_get row ''received_at_ms''),
            (if map_get row ''client_ts_ms'' = Some JNull then Some None
             else map_option Some (number_of (map_get row ''client_ts_ms'')))) of
        (Some i, Some c, Some a, Some d, Some ct, Some h, Some s, Some t, Some cts) \<Rightarrow>
          Inr \<lparr>sm_messageId = i, sm_conversationId = c, sm_senderAccountId = a, sm_senderDeviceId = d,
            sm_ciphertextBase64 = ct, sm_headerType = h, sm_serverSeq = s, sm_receivedAtMs = t,
            sm_clientTimestampMs = cts\<rparr>
      | _ \<Rightarrow> Inl OffSchema)"

text \<open>\<open>if (!row) return null\<close>: the falsy values.\<close>

fun falsy :: "json \<Rightarrow> bool" where
  "falsy JNull = True"
| "falsy (JBool b) = (\<not> b)"
| "falsy (JNum n) = (n = js_int 0 \<or> n = NaN)"
| "falsy (JStr s) = (s = [])"
| "falsy _ = False"

definition read_one :: "(fields \<Rightarrow> store_error + 'a) \<Rightarrow> json \<Rightarrow> store_error + 'a option" where
  "read_one decode rows =
     (case first_row rows of
        Inl err \<Rightarrow> Inl err
      | Inr None \<Rightarrow> Inr None
      | Inr (Some row) \<Rightarrow>
          if falsy row then Inr None
          else (case decode (payloadObject (Some row)) of Inl err \<Rightarrow> Inl err | Inr v \<Rightarrow> Inr (Some v)))"

definition sb_findMessage ::
  "'db rest_fetch \<Rightarrow> string \<Rightarrow> string \<Rightarrow> 'db \<Rightarrow> (store_error + stored_message option) \<times> 'db" where
  "sb_findMessage fetch key messageId db =
     (case sb_rest fetch key Get (read_query ''realtime_messages'' [EqText ''message_id'' messageId] [''*''] (Some 1))
        None ''return=representation'' db of
        (Inl err, db') \<Rightarrow> (Inl err, db')
      | (Inr rows, db') \<Rightarrow> (read_one message_of_row rows, db'))"

definition event_row :: "appendable_event \<Rightarrow> int \<Rightarrow> fields" where
  "event_row event logSeq =
     [(''conversation_id'', JStr (ev_conversationId event)),
      (''type'', JStr (event_type_name (ev_type event))),
      (''server_seq'', jint (ev_serverSeq event)),
      (''log_seq'', jint logSeq),
      (''at_ms'', jint (ev_atMs event)),
      (''payload'', JObj (ev_payload event))]"

definition sb_appendEvent ::
  "'db rest_fetch \<Rightarrow> string \<Rightarrow> appendable_event \<Rightarrow> 'db \<Rightarrow> (store_error + int) \<times> 'db" where
  "sb_appendEvent fetch key event db =
     (case sb_rpcCounter fetch key ''nova_next_log_seq'' (ev_conversationId event) db of
        (Inl err, db1) \<Rightarrow> (Inl err, db1)
      | (Inr logSeq, db1) \<Rightarrow>
          (case sb_write fetch key (table_only ''realtime_events'') (event_row event logSeq) db1 of
             (Inl err, db2) \<Rightarrow> (Inl err, db2)
           | (Inr _, db2) \<Rightarrow> (Inr logSeq, db2)))"

definition event_type_of :: "string \<Rightarrow> event_type option" where
  "event_type_of s =
     (if s = ''message.new'' then Some EvMessageNew
      else if s = ''message.delivered'' then Some EvMessageDelivered
      else if s = ''message.read'' then Some EvMessageRead
      else None)"

definition event_of_row :: "json \<Rightarrow> store_error + stored_event" where
  "event_of_row v =
     (let row = payloadObject (Some v) in
      if v = JNull then Inl RowTypeError
      else
        (case (as_string (map_get row ''conversation_id''),
               Option.bind (as_string (map_get row ''type'')) event_type_of,
               as_integer (map_get row ''server_seq''), as_integer (map_get row ''log_seq''),
               as_integer (map_get row ''at_ms''),
               (case map_get row ''payload'' of
                  None \<Rightarrow> Some [] | Some JNull \<Rightarrow> Some [] | Some (JObj fs) \<Rightarrow> Some fs | _ \<Rightarrow> None)) of
           (Some c, Some ty, Some s, Some l, Some t, Some p) \<Rightarrow>
             Inr \<lparr>ev_conversationId = c, ev_type = ty, ev_serverSeq = s, ev_atMs = t, ev_payload = p, ev_logSeq = l\<rparr>
         | _ \<Rightarrow> Inl OffSchema))"

text \<open>\<open>rows.map\<close>, which only an array has.\<close>

fun map_rows :: "(json \<Rightarrow> store_error + 'a) \<Rightarrow> json list \<Rightarrow> store_error + 'a list" where
  "map_rows decode [] = Inr []"
| "map_rows decode (v # vs) =
     (case decode v of
        Inl err \<Rightarrow> Inl err
      | Inr x \<Rightarrow> (case map_rows decode vs of Inl err \<Rightarrow> Inl err | Inr xs \<Rightarrow> Inr (x # xs)))"

definition read_all :: "(json \<Rightarrow> store_error + 'a) \<Rightarrow> json \<Rightarrow> store_error + 'a list" where
  "read_all decode rows = (case rows of JArr vs \<Rightarrow> map_rows decode vs | _ \<Rightarrow> Inl RowTypeError)"

definition events_query :: "string \<Rightarrow> int \<Rightarrow> int \<Rightarrow> table_query" where
  "events_query conversationId lastLogSeq limit =
     (read_query ''realtime_events'' [EqText ''conversation_id'' conversationId, GtNumber ''log_seq'' lastLogSeq]
        [''*''] (Some limit))\<lparr>tq_order := Some ''log_seq''\<rparr>"

definition sb_eventsSince ::
  "'db rest_fetch \<Rightarrow> string \<Rightarrow> string \<Rightarrow> int \<Rightarrow> int \<Rightarrow> 'db \<Rightarrow> (store_error + stored_event list) \<times> 'db" where
  "sb_eventsSince fetch key conversationId lastLogSeq limit db =
     (case sb_rest fetch key Get (events_query conversationId lastLogSeq limit) None ''return=representation'' db of
        (Inl err, db') \<Rightarrow> (Inl err, db')
      | (Inr rows, db') \<Rightarrow> (read_all event_of_row rows, db'))"

definition status_text :: "presence_status \<Rightarrow> string" where
  "status_text st = (case st of Online \<Rightarrow> ''online'' | Offline \<Rightarrow> ''offline'')"

definition presence_row :: "presence_record \<Rightarrow> fields" where
  "presence_row r =
     [(''account_id'', JStr (pr_accountId r)), (''status'', JStr (status_text (pr_status r))),
      (''last_seen_ms'', JNum (pr_lastSeenMs r))]"

definition presence_of_row :: "fields \<Rightarrow> store_error + presence_record" where
  "presence_of_row row =
     (case (as_string (map_get row ''account_id''), number_of (map_get row ''last_seen_ms'')) of
        (Some a, Some t) \<Rightarrow>
          Inr \<lparr>pr_accountId = a,
            pr_status = (if map_get row ''status'' = Some (JStr ''online'') then Online else Offline),
            pr_lastSeenMs = t\<rparr>
      | _ \<Rightarrow> Inl OffSchema)"

definition sb_getPresence ::
  "'db rest_fetch \<Rightarrow> string \<Rightarrow> string \<Rightarrow> 'db \<Rightarrow> (store_error + presence_record option) \<times> 'db" where
  "sb_getPresence fetch key accountId db =
     (case sb_rest fetch key Get (read_query ''realtime_presence'' [EqText ''account_id'' accountId] [''*''] (Some 1))
        None ''return=representation'' db of
        (Inl err, db') \<Rightarrow> (Inl err, db')
      | (Inr rows, db') \<Rightarrow> (read_one presence_of_row rows, db'))"

definition sb_setPresence :: "'db rest_fetch \<Rightarrow> string \<Rightarrow> presence_record \<Rightarrow> 'db \<Rightarrow> (store_error + unit) \<times> 'db" where
  "sb_setPresence fetch key record db =
     sb_write fetch key (insert_query ''realtime_presence'' ''account_id'') (presence_row record) db"

text \<open>The texts of the queries, as the code writes them.\<close>

lemma decimal_one: "decimal (Suc 0) = ''1''"
  by code_simp

lemma query_texts:
  "query_text (read_query ''realtime_cursors'' [EqText ''conversation_id'' c] [''last_seq''] (Some 1)) =
     ''realtime_cursors?conversation_id=eq.'' @ encodeURIComponent c @ ''&select=last_seq&limit=1''"
  "query_text (insert_query ''realtime_messages'' ''message_id'') = ''realtime_messages?on_conflict=message_id''"
  "query_text (read_query ''realtime_messages'' [EqText ''message_id'' m] [''*''] (Some 1)) =
     ''realtime_messages?message_id=eq.'' @ encodeURIComponent m @ ''&select=*&limit=1''"
  "query_text (table_only ''realtime_events'') = ''realtime_events''"
  "query_text (events_query c k n) = ''realtime_events?conversation_id=eq.'' @ encodeURIComponent c @
     ''&log_seq=gt.'' @ signed_decimal k @ ''&select=*&order=log_seq.asc&limit='' @ signed_decimal n"
  "query_text (insert_query ''realtime_presence'' ''account_id'') = ''realtime_presence?on_conflict=account_id''"
  by (simp_all add: query_text_def read_query_def insert_query_def table_only_def events_query_def Let_def
      signed_decimal_def decimal_one)

end
