(* ===== verification/Supabase_Refinement.thy ===== *)
theory Supabase_Refinement
  imports Supabase_Store
begin

text \<open>
  The Supabase store refines the memory store, under \<open>postgrest_laws\<close>: related states give
  the same answers and stay related. A write whose key is taken is refused and changes nothing.
\<close>

section \<open>Related states\<close>

definition has_text :: "string \<Rightarrow> string \<Rightarrow> fields \<Rightarrow> bool" where
  "has_text col v row \<longleftrightarrow> map_get row col = Some (JStr v)"

abbreviation option_list :: "'a option \<Rightarrow> 'a list" where
  "option_list v \<equiv> (case v of None \<Rightarrow> [] | Some x \<Rightarrow> [x])"

fun cursor_holds :: "memory_store \<Rightarrow> string \<Rightarrow> fields list \<Rightarrow> bool" where
  "cursor_holds st c [] \<longleftrightarrow> latestSeq st c = 0 \<and> latestLogSeq st c = 0"
| "cursor_holds st c [row] \<longleftrightarrow> map_get row ''last_seq'' = Some (jint (latestSeq st c)) \<and>
     map_get row ''last_log_seq'' = Some (jint (latestLogSeq st c))"
| "cursor_holds st c _ \<longleftrightarrow> False"

text \<open>The row of an event, and the event a replay makes of it.\<close>

definition stored_event_row :: "(fields \<Rightarrow> fields) \<Rightarrow> stored_event \<Rightarrow> fields" where
  "stored_event_row jsonb ev =
     [(''conversation_id'', JStr (ev_conversationId ev)), (''type'', JStr (event_type_name (ev_type ev))),
      (''server_seq'', jint (ev_serverSeq ev)), (''log_seq'', jint (ev_logSeq ev)), (''at_ms'', jint (ev_atMs ev)),
      (''payload'', JObj (jsonb (sent (ev_payload ev))))]"

definition replayed :: "(fields \<Rightarrow> fields) \<Rightarrow> stored_event \<Rightarrow> stored_event" where
  "replayed jsonb ev = ev\<lparr>ev_payload := jsonb (sent (ev_payload ev))\<rparr>"

text \<open>A message as it is read back: a timestamp that is not finite is gone.\<close>

definition kept :: "stored_message \<Rightarrow> stored_message" where
  "kept m = m\<lparr>sm_clientTimestampMs :=
     (case sm_clientTimestampMs m of Some (Finite x) \<Rightarrow> Some (Finite x) | _ \<Rightarrow> None)\<rparr>"

definition store_represents ::
  "('db \<Rightarrow> string \<Rightarrow> fields list) \<Rightarrow> (fields \<Rightarrow> fields) \<Rightarrow> 'db \<Rightarrow> memory_store \<Rightarrow> bool" where
  "store_represents rows jsonb db st \<longleftrightarrow> store_ok st \<and>
     (\<forall>c. cursor_holds st c (filter (has_text ''conversation_id'' c) (rows db ''realtime_cursors''))) \<and>
     (\<forall>i. filter (has_text ''message_id'' i) (rows db ''realtime_messages'') =
        map (\<lambda>m. sent (message_row m)) (option_list (findMessage st i))) \<and>
     (\<forall>c. filter (has_text ''conversation_id'' c) (rows db ''realtime_events'') = map (stored_event_row jsonb) (log_of st c)) \<and>
     (\<forall>a. filter (has_text ''account_id'' a) (rows db ''realtime_presence'') = map presence_row (option_list (getPresence st a)))"

lemma representsD:
  assumes "store_represents rows jsonb db st"
  shows "store_ok st" "cursor_holds st c (filter (has_text ''conversation_id'' c) (rows db ''realtime_cursors''))"
    "filter (has_text ''message_id'' i) (rows db ''realtime_messages'') =
       map (\<lambda>m. sent (message_row m)) (option_list (findMessage st i))"
    "filter (has_text ''conversation_id'' c) (rows db ''realtime_events'') = map (stored_event_row jsonb) (log_of st c)"
    "filter (has_text ''account_id'' a) (rows db ''realtime_presence'') = map presence_row (option_list (getPresence st a))"
  using assms by (simp_all add: store_represents_def)

section \<open>The laws, over the store's requests\<close>

lemma lawsD:
  assumes "postgrest_laws fetch key rows jsonb"
  shows "read_law fetch key rows" "insert_law fetch key rows jsonb" "counter_law fetch key rows"
  using assms by (simp_all add: postgrest_laws_def)

lemma rest_read:
  assumes "postgrest_laws fetch key rows jsonb" and "query_fits q" and "within_max_rows q (rows db (tq_table q))"
  shows "\<exists>out. rows_read q (rows db (tq_table q)) out \<and>
    sb_rest fetch key Get q None ''return=representation'' db = (Inr (JArr (map JObj out)), db)"
proof -
  obtain out where "rows_read q (rows db (tq_table q)) out"
    "fetch (read_request q key) db = (Some \<lparr>rs_status = 200, rs_body = JsonText (JArr (map JObj out))\<rparr>, db)"
    using lawsD(1) [OF assms(1), unfolded read_law_def, rule_format, OF assms(2,3)] by blast
  then show ?thesis by (auto simp: sb_rest_def response_ok_def)
qed

lemma read_query_table [simp]: "tq_table (read_query t fs cols n) = t"
  by (simp add: read_query_def table_only_def)

text \<open>A read by one key, at most one row.\<close>

lemma rows_read_one:
  assumes "length (filter (has_text col v) rows) \<le> 1"
  shows "rows_read (read_query t [EqText col v] cols (Some 1)) rows out \<longleftrightarrow>
    out = map (chosen (Some cols)) (filter (has_text col v) rows)"
proof -
  have "filter (has_text col v) rows = [] \<or> (\<exists>row. filter (has_text col v) rows = [row])"
    using assms by (cases "filter (has_text col v) rows") auto
  then show ?thesis
    by (elim disjE exE) (simp_all add: rows_read_def passing_def read_query_def table_only_def flip: has_text_def)
qed

lemma fits_read:
  assumes "sql_text v" and "has_column t col TextColumn" and "known_table t"
    and "cols = [''*''] \<or> list_all (known_column t) cols"
  shows "query_fits (read_query t [EqText col v] cols (Some 1))"
    "within_max_rows (read_query t [EqText col v] cols (Some 1)) rows"
  using assms by (auto simp: query_fits_def read_query_def table_only_def within_max_rows_def max_rows_def)

lemma read_one_key:
  assumes laws: "postgrest_laws fetch key rows jsonb" and "sql_text v" and "has_column t col TextColumn"
    and "known_table t"
    and "cols = [''*''] \<or> list_all (known_column t) cols"
    and one: "length (filter (has_text col v) (rows db t)) \<le> 1"
  shows "sb_rest fetch key Get (read_query t [EqText col v] cols (Some 1)) None ''return=representation'' db =
    (Inr (JArr (map JObj (map (chosen (Some cols)) (filter (has_text col v) (rows db t))))), db)"
proof -
  obtain out where "rows_read (read_query t [EqText col v] cols (Some 1)) (rows db t) out"
    "sb_rest fetch key Get (read_query t [EqText col v] cols (Some 1)) None ''return=representation'' db =
      (Inr (JArr (map JObj out)), db)"
    using rest_read [OF laws fits_read [OF assms(2-5)], of db] by auto
  then show ?thesis unfolding rows_read_one [OF one] by simp
qed

text \<open>An insert of one row.\<close>

lemma write_row:
  assumes "postgrest_laws fetch key rows jsonb" and "known_table (tq_table q)"
    and "plain_row (tq_table q) (sent row)" and "tq_table q \<noteq> ''devices''"
    and "row_fits (tq_table q) (sent row)" and "\<not> list_ex (same_key (tq_table q) (sent row)) (rows db (tq_table q))"
  shows "\<exists>db'. sb_write fetch key q row db = (Inr (), db') \<and>
    rows db' = (rows db)(tq_table q := rows db (tq_table q) @ [stored_row jsonb (sent row)])"
proof -
  have "insert_rows jsonb (tq_table q) [sent row] (rows db (tq_table q)) =
      Some (rows db (tq_table q) @ [stored_row jsonb (sent row)])"
    using assms(5,6) by simp
  then obtain db' where "rows db' = (rows db)(tq_table q := rows db (tq_table q) @ [stored_row jsonb (sent row)])"
    "fetch (insert_request q (JObj (sent row)) key) db = (Some \<lparr>rs_status = 201, rs_body = NoText\<rparr>, db')"
    using lawsD(2) [OF assms(1), unfolded insert_law_def, rule_format, OF assms(2), of "[sent row]" "JObj (sent row)" db] assms(3,4)
    by (auto simp: only_table_def)
  then show ?thesis by (simp add: sb_write_def sb_rest_def response_ok_def)
qed

lemma write_refused:
  assumes "postgrest_laws fetch key rows jsonb" and "known_table (tq_table q)"
    and "plain_row (tq_table q) (sent row)"
    and "\<not> row_fits (tq_table q) (sent row) \<or> list_ex (same_key (tq_table q) (sent row)) (rows db (tq_table q))"
  shows "\<exists>status \<in> {400, 409}. sb_write fetch key q row db = (Inl (RestFailed ''POST'' status), db)"
proof -
  have "insert_rows jsonb (tq_table q) [sent row] (rows db (tq_table q)) = None" using assms(4) by auto
  then obtain status answer where "status \<in> {400, 409}"
    "fetch (insert_request q (JObj (sent row)) key) db = (Some \<lparr>rs_status = status, rs_body = answer\<rparr>, db)"
    using lawsD(2) [OF assms(1), unfolded insert_law_def, rule_format, OF assms(2), of "[sent row]" "JObj (sent row)" db] assms(3)
    by (auto simp: only_table_def)
  then show ?thesis by (auto simp: sb_write_def sb_rest_def response_ok_def)
qed

section \<open>Counters\<close>

lemma bump_rows:
  assumes "col \<noteq> ''conversation_id''"
  shows "filter (has_text ''conversation_id'' c') (snd (bump col other c rows)) =
    (if c' = c
     then (case filter (has_text ''conversation_id'' c) rows of
         [] \<Rightarrow> [[(''conversation_id'', JStr c), (col, jint 1), (other, jint 0)]]
       | row # rest \<Rightarrow> map_set col (jint (sort_value col row + 1)) row # rest)
     else filter (has_text ''conversation_id'' c') rows)"
    and "fst (bump col other c rows) =
      (case filter (has_text ''conversation_id'' c) rows of [] \<Rightarrow> 1 | row # rest \<Rightarrow> sort_value col row + 1)"
  using assms by (induction rows) (auto simp: has_text_def Let_def case_prod_beta split: list.splits)

lemma rpc_int: "0 < n \<Longrightarrow> rpc_value fn (jint n) = Inr n"
  by (simp add: rpc_value_def)

lemma counter_step:
  assumes laws: "postgrest_laws fetch key rows jsonb"
    and fn: "(fn, col, other) \<in> {(''nova_next_seq'', ''last_seq'', ''last_log_seq''), (''nova_next_log_seq'', ''last_log_seq'', ''last_seq'')}"
    and c: "sql_text c" and n: "n = fst (bump col other c (rows db ''realtime_cursors''))" "0 < n" "n \<le> 2 ^ 53"
  shows "\<exists>db'. sb_rpcCounter fetch key fn c db = (Inr n, db') \<and>
    rows db' = (rows db)(''realtime_cursors'' := snd (bump col other c (rows db ''realtime_cursors'')))"
proof -
  have "bump col other c (rows db ''realtime_cursors'') = (n, snd (bump col other c (rows db ''realtime_cursors'')))"
    using n(1) by simp
  with lawsD(3) [OF laws, unfolded counter_law_def, rule_format, OF fn _ c n(3)] obtain db' where
    "rows db' = (rows db)(''realtime_cursors'' := snd (bump col other c (rows db ''realtime_cursors'')))"
    "fetch (counter_request fn c key) db = (Some \<lparr>rs_status = 200, rs_body = JsonText (jint n)\<rparr>, db')"
    by (auto simp: only_table_def)
  then show ?thesis using n(2) by (simp add: sb_rpcCounter_def response_ok_def rpc_int)
qed

lemmas message_step = counter_step [where fn = "''nova_next_seq''" and col = "''last_seq''" and other = "''last_log_seq''",
  OF _ insertI1]
lemmas log_step = counter_step [where fn = "''nova_next_log_seq''" and col = "''last_log_seq''" and other = "''last_seq''",
  OF _ insertI2 [OF singletonI]]

lemma counters_nonneg:
  assumes "store_ok st"
  shows "0 \<le> latestSeq st c" "0 \<le> latestLogSeq st c"
  using assms memory_log.latest_nonneg by (simp_all add: store_ok_def)

lemma cursor_cases:
  assumes "cursor_holds st c rs"
  obtains "rs = []" "latestSeq st c = 0" "latestLogSeq st c = 0"
  | row where "rs = [row]" "map_get row ''last_seq'' = Some (jint (latestSeq st c))"
      "map_get row ''last_log_seq'' = Some (jint (latestLogSeq st c))"
  using assms by (cases "(st, c, rs)" rule: cursor_holds.cases) auto

lemma counter_next:
  assumes "store_represents rows jsonb db st"
  shows "fst (bump ''last_seq'' ''last_log_seq'' c (rows db ''realtime_cursors'')) = latestSeq st c + 1"
    "fst (bump ''last_log_seq'' ''last_seq'' c (rows db ''realtime_cursors'')) = latestLogSeq st c + 1"
proof -
  from representsD(2) [OF assms, of c]
  have "fst (bump ''last_seq'' ''last_log_seq'' c (rows db ''realtime_cursors'')) = latestSeq st c + 1 \<and>
    fst (bump ''last_log_seq'' ''last_seq'' c (rows db ''realtime_cursors'')) = latestLogSeq st c + 1"
    by (cases rule: cursor_cases) (simp_all add: bump_rows sort_value_def)
  then show "fst (bump ''last_seq'' ''last_log_seq'' c (rows db ''realtime_cursors'')) = latestSeq st c + 1"
    "fst (bump ''last_log_seq'' ''last_seq'' c (rows db ''realtime_cursors'')) = latestLogSeq st c + 1" by simp_all
qed

lemma cursors_next:
  assumes "store_represents rows jsonb db st"
  shows "cursor_holds (snd (nextSeq st c)) c'
      (filter (has_text ''conversation_id'' c') (snd (bump ''last_seq'' ''last_log_seq'' c (rows db ''realtime_cursors''))))"
    and "cursor_holds (snd (appendEvent st ev)) c'
      (filter (has_text ''conversation_id'' c') (snd (bump ''last_log_seq'' ''last_seq'' (ev_conversationId ev) (rows db ''realtime_cursors''))))"
proof -
  have keep: "cursor_holds st' c' rs" if "cursor_holds st c' rs" "latestSeq st' c' = latestSeq st c'"
    "latestLogSeq st' c' = latestLogSeq st c'" for st' rs
    using that by (cases "(st, c', rs)" rule: cursor_holds.cases) auto
  show "cursor_holds (snd (nextSeq st c)) c'
      (filter (has_text ''conversation_id'' c') (snd (bump ''last_seq'' ''last_log_seq'' c (rows db ''realtime_cursors''))))"
  proof (cases "c' = c")
    case True
    from representsD(2) [OF assms, of c] show ?thesis
      by (cases rule: cursor_cases) (simp_all add: True bump_rows sort_value_def message_seq.nxt_latest nextSeq_def Let_def latestLogSeq_def latestSeq_def)
  next
    case False
    then show ?thesis
      using representsD(2) [OF assms, of c']
      by (auto simp: bump_rows nextSeq_def Let_def latestLogSeq_def latestSeq_def intro!: keep)
  qed
  show "cursor_holds (snd (appendEvent st ev)) c'
      (filter (has_text ''conversation_id'' c') (snd (bump ''last_log_seq'' ''last_seq'' (ev_conversationId ev) (rows db ''realtime_cursors''))))"
  proof (cases "c' = ev_conversationId ev")
    case True
    from representsD(2) [OF assms, of "ev_conversationId ev"] show ?thesis
      by (cases rule: cursor_cases) (simp_all add: True bump_rows sort_value_def appendEvent_get)
  next
    case False
    then show ?thesis
      using representsD(2) [OF assms, of c'] by (auto simp: bump_rows appendEvent_get intro!: keep)
  qed
qed

section \<open>Each operation\<close>

lemma sb_nextSeq_refines:
  assumes "postgrest_laws fetch key rows jsonb" and rep: "store_represents rows jsonb db st"
    and "sql_text c" and "latestSeq st c < 2 ^ 53"
  shows "\<exists>db'. sb_nextSeq fetch key c db = (Inr (fst (nextSeq st c)), db') \<and>
    store_represents rows jsonb db' (snd (nextSeq st c))"
proof -
  have n: "0 < latestSeq st c + 1" "latestSeq st c + 1 \<le> 2 ^ 53"
    using counters_nonneg [OF representsD(1) [OF rep]] assms(4) by (simp_all add: add_nonneg_pos)
  obtain db' where db': "sb_rpcCounter fetch key ''nova_next_seq'' c db = (Inr (latestSeq st c + 1), db')"
    "rows db' = (rows db)(''realtime_cursors'' := snd (bump ''last_seq'' ''last_log_seq'' c (rows db ''realtime_cursors'')))"
    using message_step [where rows = rows and db = db and n = "latestSeq st c + 1", OF assms(1,3) counter_next(1) [OF rep, symmetric] n]
    by (elim exE conjE) (rule that)
  have "store_represents rows jsonb db' (snd (nextSeq st c))"
    using rep cursors_next(1) [OF rep, of c]
    by (simp add: store_represents_def db'(2) store_ok_nextSeq getPresence_def) (simp add: nextSeq_def Let_def)
  then show ?thesis using db'(1) by (simp add: sb_nextSeq_def message_seq.nxt_value)
qed

lemmas schema = columns_of_def key_of_def table_columns_def device_columns_def has_column_def

lemma in_schema:
  "has_column ''realtime_cursors'' ''conversation_id'' TextColumn" "has_column ''realtime_events'' ''conversation_id'' TextColumn"
  "has_column ''realtime_messages'' ''message_id'' TextColumn" "has_column ''realtime_presence'' ''account_id'' TextColumn"
  "has_column ''realtime_events'' ''log_seq'' BigintColumn"
  "known_table ''realtime_cursors''" "known_table ''realtime_events''"
  "known_table ''realtime_messages''" "known_table ''realtime_presence''"
  "known_column ''realtime_cursors'' ''last_seq''"
  "known_column ''realtime_cursors'' ''last_log_seq''"
  by code_simp+

lemma stored_event: "stored_row jsonb (sent (event_row ev n)) = stored_event_row jsonb (with_logSeq ev n)"
  by (simp add: stored_row_def event_row_def stored_event_row_def)

lemma event_key_free:
  assumes "store_represents rows jsonb db st"
  shows "\<not> list_ex (same_key ''realtime_events'' (sent (event_row ev (latestLogSeq st (ev_conversationId ev) + 1)))) (rows db ''realtime_events'')"
proof -
  let ?c = "ev_conversationId ev"
  have "\<not> same_key ''realtime_events'' (sent (event_row ev (latestLogSeq st ?c + 1))) row"
    if "row \<in> set (rows db ''realtime_events'')" for row
  proof (cases "has_text ''conversation_id'' ?c row")
    case True
    with that have "row \<in> set (filter (has_text ''conversation_id'' ?c) (rows db ''realtime_events''))" by simp
    then obtain e where e: "e \<in> set (log_of st ?c)" "row = stored_event_row jsonb e"
      by (auto simp: representsD(4) [OF assms])
    have "ev_logSeq e \<in> set (map ev_logSeq (log_of st ?c))" using e(1) by simp
    then have "ev_logSeq e \<le> latestLogSeq st ?c"
      unfolding memory_log.log_numbered [OF representsD(1) [OF assms]] by simp
    with e(2) show ?thesis
      by (auto simp: same_key_def schema event_row_def stored_event_row_def simp flip: of_int_add)
  next
    case False
    then show ?thesis by (auto simp: same_key_def schema event_row_def has_text_def)
  qed
  then show ?thesis by (simp add: list_ex_iff)
qed

text \<open>An event the table takes: its texts hold no NUL, its numbers are in range.\<close>

definition event_storable :: "appendable_event \<Rightarrow> bool" where
  "event_storable ev \<longleftrightarrow> sql_text (ev_conversationId ev) \<and> sql_bigint (ev_serverSeq ev) \<and> sql_bigint (ev_atMs ev) \<and>
     sql_json (JObj (sent (ev_payload ev)))"

lemma event_fits:
  assumes "event_storable ev" and "sql_bigint n"
  shows "row_fits ''realtime_events'' (sent (event_row ev n))"
  using assms
  by (cases "ev_type ev") (simp_all add: event_storable_def row_fits_def schema column_fits_def event_row_def sql_text_def)

lemma event_plain: "plain_row ''realtime_events'' (sent (event_row ev n))"
  by (simp add: plain_row_def schema event_row_def)

lemma append_requests:
  assumes "postgrest_laws fetch key rows jsonb" and rep: "store_represents rows jsonb db st"
    and fits: "event_storable ev" and bound: "latestLogSeq st (ev_conversationId ev) < 2 ^ 53"
  shows "\<exists>db1 db2.
    sb_rpcCounter fetch key ''nova_next_log_seq'' (ev_conversationId ev) db = (Inr (latestLogSeq st (ev_conversationId ev) + 1), db1) \<and>
    rows db1 ''realtime_events'' = rows db ''realtime_events'' \<and> rows db1 ''realtime_cursors'' = rows db2 ''realtime_cursors'' \<and>
    sb_write fetch key (table_only ''realtime_events'') (event_row ev (latestLogSeq st (ev_conversationId ev) + 1)) db1 = (Inr (), db2) \<and>
    store_represents rows jsonb db2 (snd (appendEvent st ev))"
proof -
  let ?c = "ev_conversationId ev" and ?n = "latestLogSeq st (ev_conversationId ev) + 1"
  let ?row = "event_row ev ?n"
  have c: "sql_text ?c" using fits by (simp add: event_storable_def)
  have n: "0 < ?n" "?n \<le> 2 ^ 53" "sql_bigint ?n"
    using counters_nonneg [OF representsD(1) [OF rep], of ?c] bound by (simp_all add: sql_bigint_def)
  obtain db1 where db1: "sb_rpcCounter fetch key ''nova_next_log_seq'' ?c db = (Inr ?n, db1)"
    "rows db1 = (rows db)(''realtime_cursors'' := snd (bump ''last_log_seq'' ''last_seq'' ?c (rows db ''realtime_cursors'')))"
    using log_step [where rows = rows and db = db and n = ?n, OF assms(1) c counter_next(2) [OF rep, symmetric] n(1,2)]
    by (elim exE conjE) (rule that)
  have events: "rows db1 ''realtime_events'' = rows db ''realtime_events''" by (simp add: db1(2))
  have t: "tq_table (table_only ''realtime_events'') = ''realtime_events''" by (simp add: table_only_def)
  have "\<exists>db'. sb_write fetch key (table_only ''realtime_events'') ?row db1 = (Inr (), db') \<and>
      rows db' = (rows db1)(''realtime_events'' := rows db1 ''realtime_events'' @ [stored_row jsonb (sent ?row)])"
    using write_row [where q = "table_only ''realtime_events''" and db = db1 and row = ?row, unfolded t, OF assms(1) in_schema(7) event_plain _ event_fits [OF fits n(3)]]
      event_key_free [OF rep] by (simp add: events)
  then obtain db2 where db2: "sb_write fetch key (table_only ''realtime_events'') ?row db1 = (Inr (), db2)"
    "rows db2 = (rows db1)(''realtime_events'' := rows db ''realtime_events'' @ [stored_row jsonb (sent ?row)])"
    unfolding events by blast
  have "store_represents rows jsonb db2 (snd (appendEvent st ev))"
    using rep cursors_next(2) [OF rep, of ev]
    by (auto simp: store_represents_def db2(2) db1(2) store_ok_append appendEvent_get stored_event getPresence_def
        stored_event_row_def has_text_def)
  moreover have "rows db1 ''realtime_cursors'' = rows db2 ''realtime_cursors''" by (simp add: db2(2))
  ultimately show ?thesis using db1(1) db2(1) events by blast
qed

lemma sb_appendEvent_refines:
  assumes "postgrest_laws fetch key rows jsonb" and rep: "store_represents rows jsonb db st"
    and "event_storable ev" and "latestLogSeq st (ev_conversationId ev) < 2 ^ 53"
  shows "\<exists>db'. sb_appendEvent fetch key ev db = (Inr (fst (appendEvent st ev)), db') \<and>
    store_represents rows jsonb db' (snd (appendEvent st ev))"
  using append_requests [OF assms]
  by (auto simp: sb_appendEvent_def memory_log.append_value [OF representsD(1) [OF rep]])

text \<open>Reads.\<close>

lemma map_of_column: "map_of (filter (\<lambda>(k, v). k = other) row) other = map_of row other"
  by (induction row) auto

lemma sb_counter_reads:
  assumes laws: "postgrest_laws fetch key rows jsonb" and c: "sql_text c"
    and held: "cursor_holds st c (filter (has_text ''conversation_id'' c) (rows db ''realtime_cursors''))"
  shows "sb_latestSeq fetch key c db = (Inr (latestSeq st c), db)"
    and "sb_latestLogSeq fetch key c db = (Inr (latestLogSeq st c), db)"
proof -
  have one: "length (filter (has_text ''conversation_id'' c) (rows db ''realtime_cursors'')) \<le> 1"
    by (rule cursor_cases [OF held]) simp_all
  have read: "sb_rest fetch key Get (read_query ''realtime_cursors'' [EqText ''conversation_id'' c] [col] (Some 1))
      None ''return=representation'' db =
    (Inr (JArr (map JObj (map (chosen (Some [col])) (filter (has_text ''conversation_id'' c) (rows db ''realtime_cursors''))))), db)"
    if "known_column ''realtime_cursors'' col" for col
  proof -
    have "[col] = [''*''] \<or> list_all (known_column ''realtime_cursors'') [col]" using that by simp
    then show ?thesis by (intro read_one_key [where rows = rows and db = db, OF laws c in_schema(1,6) _ one])
  qed
  have col: "map_of (chosen (Some [col]) row) col = map_of row col" if "col \<noteq> ''*''" for col row
    using that by (simp add: chosen_def map_of_column)
  from held have "sb_latestSeq fetch key c db = (Inr (latestSeq st c), db) \<and> sb_latestLogSeq fetch key c db = (Inr (latestLogSeq st c), db)"
    by (cases rule: cursor_cases)
      (simp_all add: sb_latestSeq_def sb_latestLogSeq_def sb_counter_def read in_schema counter_value_def col)
  then show "sb_latestSeq fetch key c db = (Inr (latestSeq st c), db)"
    and "sb_latestLogSeq fetch key c db = (Inr (latestLogSeq st c), db)" by simp_all
qed

lemma sb_counter_refines:
  assumes "postgrest_laws fetch key rows jsonb" and "store_represents rows jsonb db st" and "sql_text c"
  shows "sb_latestSeq fetch key c db = (Inr (latestSeq st c), db)"
    and "sb_latestLogSeq fetch key c db = (Inr (latestLogSeq st c), db)"
  using sb_counter_reads [where rows = rows and db = db and st = st, OF assms(1,3) representsD(2) [OF assms(2)]] by simp_all

lemma message_row_back: "message_of_row (sent (message_row m)) = Inr (kept m)"
  by (cases "sm_clientTimestampMs m"; cases "the (sm_clientTimestampMs m)")
    (simp_all add: message_of_row_def message_row_def kept_def)

lemma presence_row_back: "presence_of_row (presence_row r) = Inr r"
  by (cases "pr_status r") (simp_all add: presence_of_row_def presence_row_def status_text_def)

lemma event_type_back [simp]: "event_type_of (event_type_name ty) = Some ty"
  by (cases ty) (simp_all add: event_type_of_def)

lemma event_row_back: "event_of_row (JObj (stored_event_row jsonb ev)) = Inr (replayed jsonb ev)"
  by (cases ev) (simp add: event_of_row_def stored_event_row_def replayed_def Let_def)

lemma chosen_all: "map (chosen (Some [''*''])) rows = rows"
  by (induction rows) (simp_all add: chosen_def)

lemma sb_findMessage_refines:
  assumes laws: "postgrest_laws fetch key rows jsonb" and rep: "store_represents rows jsonb db st" and i: "sql_text i"
  shows "sb_findMessage fetch key i db = (Inr (map_option kept (findMessage st i)), db)"
proof -
  have "length (filter (has_text ''message_id'' i) (rows db ''realtime_messages'')) \<le> 1"
    by (simp add: representsD(3) [OF rep] split: option.splits)
  then have "sb_rest fetch key Get (read_query ''realtime_messages'' [EqText ''message_id'' i] [''*''] (Some 1))
      None ''return=representation'' db =
    (Inr (JArr (map JObj (map (chosen (Some [''*''])) (filter (has_text ''message_id'' i) (rows db ''realtime_messages''))))), db)"
    by (intro read_one_key [OF laws i]) (simp_all add: in_schema)
  then show ?thesis
    unfolding chosen_all representsD(3) [OF rep]
    by (cases "findMessage st i") (simp_all add: sb_findMessage_def read_one_def message_row_back)
qed

lemma sb_getPresence_refines:
  assumes laws: "postgrest_laws fetch key rows jsonb" and rep: "store_represents rows jsonb db st" and a: "sql_text a"
  shows "sb_getPresence fetch key a db = (Inr (getPresence st a), db)"
proof -
  have "length (filter (has_text ''account_id'' a) (rows db ''realtime_presence'')) \<le> 1"
    by (simp add: representsD(5) [OF rep] split: option.splits)
  then have "sb_rest fetch key Get (read_query ''realtime_presence'' [EqText ''account_id'' a] [''*''] (Some 1))
      None ''return=representation'' db =
    (Inr (JArr (map JObj (map (chosen (Some [''*''])) (filter (has_text ''account_id'' a) (rows db ''realtime_presence''))))), db)"
    by (intro read_one_key [OF laws a]) (simp_all add: in_schema)
  then show ?thesis
    unfolding chosen_all representsD(5) [OF rep]
    by (cases "getPresence st a") (simp_all add: sb_getPresence_def read_one_def presence_row_back)
qed

text \<open>A sorted permutation of a log with distinct numbers is the sorted log.\<close>

lemma sorted_unique:
  assumes "mset ys = mset xs" and "sorted (map f ys)" and "distinct (map f xs)"
  shows "ys = sort_key f xs"
proof -
  have "sort (map f xs) = map f (sort_key f xs)" and "sort (map f xs) = map f ys"
    by (rule properties_for_sort, use assms in simp_all)+
  then have "map f (sort_key f xs) = map f ys" by simp
  moreover have "inj_on f (set (sort_key f xs) \<union> set ys)"
    using assms(3) mset_eq_setD [OF assms(1)] by (simp add: distinct_map)
  ultimately show ?thesis by (metis inj_on_map_eq_map)
qed

lemma map_rows_map: "(\<And>x. decode (enc x) = Inr (dec x)) \<Longrightarrow> map_rows decode (map enc xs) = Inr (map dec xs)"
  by (induction xs) simp_all

lemma insort_key_map: "insort_key f (g x) (map g xs) = map g (insort_key (\<lambda>a. f (g a)) x xs)"
  by (induction xs) simp_all

lemma sort_key_map: "sort_key f (map g xs) = map g (sort_key (\<lambda>a. f (g a)) xs)"
  by (induction xs) (simp_all add: insort_key_map)

lemma sort_value_event: "sort_value ''log_seq'' (stored_event_row jsonb ev) = ev_logSeq ev"
  by (simp add: sort_value_def stored_event_row_def)

lemma events_passing:
  assumes "store_represents rows jsonb db st" and same: "rows db' ''realtime_events'' = rows db ''realtime_events''"
  shows "passing (events_query c k n) (rows db' ''realtime_events'') =
    map (stored_event_row jsonb) (filter (\<lambda>ev. k < ev_logSeq ev) (log_of st c))"
proof -
  have "passing (events_query c k n) rs = filter (passes (GtNumber ''log_seq'' k)) (filter (has_text ''conversation_id'' c) rs)" for rs
    by (simp add: passing_def events_query_def read_query_def table_only_def has_text_def conj_commute)
  then have "passing (events_query c k n) (rows db' ''realtime_events'') =
      filter (passes (GtNumber ''log_seq'' k)) (map (stored_event_row jsonb) (log_of st c))"
    unfolding same representsD(4) [OF assms(1), symmetric] .
  moreover have "filter (passes (GtNumber ''log_seq'' k)) (map (stored_event_row jsonb) evs) =
      map (stored_event_row jsonb) (filter (\<lambda>ev. k < ev_logSeq ev) evs)" for evs
    by (induction evs) (simp_all add: stored_event_row_def)
  ultimately show ?thesis by (rule trans)
qed

lemma events_read:
  assumes rep: "store_represents rows jsonb db st" and "0 \<le> limit"
    and same: "rows db' ''realtime_events'' = rows db ''realtime_events''"
    and out: "rows_read (events_query c k limit) (rows db' ''realtime_events'') out"
  shows "out = map (stored_event_row jsonb) (eventsSince st c k limit)"
proof -
  let ?new = "filter (\<lambda>ev. k < ev_logSeq ev) (log_of st c)"
  have q: "tq_select (events_query c k limit) = Some [''*'']" "tq_order (events_query c k limit) = Some ''log_seq''"
    "tq_limit (events_query c k limit) = Some limit"
    by (simp_all add: events_query_def read_query_def table_only_def)
  from out obtain ordered where ordered: "mset ordered = mset (map (stored_event_row jsonb) ?new)"
    "sorted (map (sort_value ''log_seq'') ordered)" "out = take (nat limit) ordered"
    unfolding rows_read_def events_passing [where rows = rows, OF rep same] q chosen_all option.case by blast
  have "distinct (map ev_logSeq (log_of st c))"
    unfolding memory_log.log_numbered [OF representsD(1) [OF rep]] by simp
  then have "distinct (map (sort_value ''log_seq'') (map (stored_event_row jsonb) ?new))"
    by (simp add: o_def sort_value_event distinct_map_filter)
  from sorted_unique [OF ordered(1,2) this] show ?thesis
    using assms(2) by (simp add: ordered(3) sort_key_map sort_value_event eventsSince_def slice0_def take_map)
qed

lemma sb_eventsSince_reads:
  assumes laws: "postgrest_laws fetch key rows jsonb" and rep: "store_represents rows jsonb db st"
    and "sql_text c" and "sql_bigint k" and "0 \<le> limit" "limit \<le> 1000"
    and same: "rows db' ''realtime_events'' = rows db ''realtime_events''"
  shows "sb_eventsSince fetch key c k limit db' = (Inr (map (replayed jsonb) (eventsSince st c k limit)), db')"
proof -
  have q: "query_fits (events_query c k limit)" "tq_table (events_query c k limit) = ''realtime_events''"
    "within_max_rows (events_query c k limit) rs" for rs
    using assms(3-6)
    by (simp_all add: query_fits_def events_query_def read_query_def table_only_def in_schema within_max_rows_def max_rows_def nat_le_iff)
  obtain out where out: "rows_read (events_query c k limit) (rows db' ''realtime_events'') out"
    "sb_rest fetch key Get (events_query c k limit) None ''return=representation'' db' = (Inr (JArr (map JObj out)), db')"
    using rest_read [OF laws q(1,3), of db'] unfolding q(2) by blast
  have "map_rows event_of_row (map (\<lambda>ev. JObj (stored_event_row jsonb ev)) evs) = Inr (map (replayed jsonb) evs)" for evs
    by (rule map_rows_map) (rule event_row_back)
  then have "read_all event_of_row (JArr (map JObj out)) = Inr (map (replayed jsonb) (eventsSince st c k limit))"
    unfolding events_read [where rows = rows and db = db and db' = db', OF rep assms(5) same out(1)] by (simp add: read_all_def o_def)
  then show ?thesis unfolding sb_eventsSince_def out(2) by simp
qed

lemma sb_eventsSince_refines:
  assumes "postgrest_laws fetch key rows jsonb" and "store_represents rows jsonb db st"
    and "sql_text c" and "sql_bigint k" and "0 \<le> limit" "limit \<le> 1000"
  shows "sb_eventsSince fetch key c k limit db = (Inr (map (replayed jsonb) (eventsSince st c k limit)), db)"
  using sb_eventsSince_reads [where rows = rows and db = db and db' = db, OF assms refl] .

text \<open>Writing a message or a presence: once.\<close>

lemma cursor_same:
  assumes "latestSeq st' = latestSeq st" and "latestLogSeq st' = latestLogSeq st"
  shows "cursor_holds st' c rs = cursor_holds st c rs"
  by (cases "(st, c, rs)" rule: cursor_holds.cases) (simp_all add: assms)

lemma persist_seqs:
  "latestSeq (persistMessage st m) = latestSeq st" "latestLogSeq (persistMessage st m) = latestLogSeq st"
  by (simp_all add: fun_eq_iff)

lemma presence_seqs:
  "latestSeq (setPresence st r) = latestSeq st" "latestLogSeq (setPresence st r) = latestLogSeq st"
  by (simp_all add: fun_eq_iff)

lemma presence_persist: "getPresence (persistMessage st m) a = getPresence st a"
  by (simp add: getPresence_def persistMessage_def)

lemma presence_set: "getPresence (setPresence st r) a = (if a = pr_accountId r then Some r else getPresence st a)"
  by (simp add: getPresence_def setPresence_def)

lemma fresh_key:
  assumes "key_of t = [col]" and "map_get row col = Some (JStr v)"
  shows "list_ex (same_key t row) rs \<longleftrightarrow> filter (has_text col v) rs \<noteq> []"
  using assms by (induction rs) (auto simp: same_key_def has_text_def)

lemma keys: "key_of ''realtime_messages'' = [''message_id'']" "key_of ''realtime_presence'' = [''account_id'']"
  by code_simp+

lemma message_plain: "plain_row ''realtime_messages'' (sent (message_row m))"
  by (simp add: plain_row_def schema message_row_def)

lemma presence_plain: "plain_row ''realtime_presence'' (sent (presence_row r))"
  by (simp add: plain_row_def schema presence_row_def)

lemma insert_table [simp]: "tq_table (insert_query t c) = t"
  by (simp add: insert_query_def table_only_def)

lemma message_free:
  assumes "store_represents rows jsonb db st"
  shows "list_ex (same_key ''realtime_messages'' (sent (message_row m))) (rows db ''realtime_messages'') \<longleftrightarrow>
    findMessage st (sm_messageId m) \<noteq> None"
  by (subst fresh_key [OF keys(1), where v = "sm_messageId m"])
    (simp_all add: message_row_def representsD(3) [OF assms] split: option.splits)

lemma presence_free:
  assumes "store_represents rows jsonb db st"
  shows "list_ex (same_key ''realtime_presence'' (sent (presence_row r))) (rows db ''realtime_presence'') \<longleftrightarrow>
    getPresence st (pr_accountId r) \<noteq> None"
  by (subst fresh_key [OF keys(2), where v = "pr_accountId r"])
    (simp_all add: presence_row_def representsD(5) [OF assms] split: option.splits)

lemma message_stored: "stored_row jsonb (sent (message_row m)) = sent (message_row m)"
  by (simp add: stored_row_def message_row_def)

lemma presence_stored:
  assumes "row_fits ''realtime_presence'' (sent (presence_row r))"
  shows "stored_row jsonb (sent (presence_row r)) = presence_row r"
  using assms by (cases "pr_lastSeenMs r")
    (simp_all add: stored_row_def presence_row_def row_fits_def schema column_fits_def)

lemma sb_persistMessage_refines:
  assumes laws: "postgrest_laws fetch key rows jsonb" and rep: "store_represents rows jsonb db st"
    and fits: "row_fits ''realtime_messages'' (sent (message_row m))" and new: "findMessage st (sm_messageId m) = None"
  shows "\<exists>db'. sb_persistMessage fetch key m db = (Inr (), db') \<and> store_represents rows jsonb db' (persistMessage st m)"
proof -
  have "\<exists>db'. sb_persistMessage fetch key m db = (Inr (), db') \<and>
      rows db' = (rows db)(''realtime_messages'' := rows db ''realtime_messages'' @ [sent (message_row m)])"
    using write_row [where q = "insert_query ''realtime_messages'' ''message_id''" and row = "message_row m" and rows = rows and db = db,
        unfolded insert_table message_stored, OF laws in_schema(8) message_plain _ fits] new
    by (simp add: message_free [OF rep] sb_persistMessage_def)
  then obtain db' where db': "sb_persistMessage fetch key m db = (Inr (), db')"
    "rows db' = (rows db)(''realtime_messages'' := rows db ''realtime_messages'' @ [sent (message_row m)])" by blast
  have "has_text ''message_id'' i (sent (message_row m)) \<longleftrightarrow> i = sm_messageId m" for i
    by (auto simp: has_text_def message_row_def)
  then have "store_represents rows jsonb db' (persistMessage st m)"
    using rep new
    by (auto simp: store_represents_def db'(2) store_ok_persist find_persist presence_persist cursor_same [OF persist_seqs])
  with db'(1) show ?thesis by blast
qed

lemma setPresence_tables:
  assumes laws: "postgrest_laws fetch key rows jsonb" and rep: "store_represents rows jsonb db st"
    and fits: "row_fits ''realtime_presence'' (sent (presence_row r))" and new: "getPresence st (pr_accountId r) = None"
  shows "\<exists>db'. sb_setPresence fetch key r db = (Inr (), db') \<and> store_represents rows jsonb db' (setPresence st r) \<and>
    (\<forall>t. t \<noteq> ''realtime_presence'' \<longrightarrow> rows db' t = rows db t)"
proof -
  have "\<exists>db'. sb_setPresence fetch key r db = (Inr (), db') \<and>
      rows db' = (rows db)(''realtime_presence'' := rows db ''realtime_presence'' @ [presence_row r])"
    using write_row [where q = "insert_query ''realtime_presence'' ''account_id''" and row = "presence_row r" and rows = rows and db = db,
        unfolded insert_table presence_stored [OF fits], OF laws in_schema(9) presence_plain _ fits] new
    by (simp add: presence_free [OF rep] sb_setPresence_def)
  then obtain db' where db': "sb_setPresence fetch key r db = (Inr (), db')"
    "rows db' = (rows db)(''realtime_presence'' := rows db ''realtime_presence'' @ [presence_row r])" by blast
  have "has_text ''account_id'' a (presence_row r) \<longleftrightarrow> a = pr_accountId r" for a
    by (auto simp: has_text_def presence_row_def)
  then have "store_represents rows jsonb db' (setPresence st r)"
    using rep new
    by (auto simp: store_represents_def db'(2) store_ok_setPresence presence_set cursor_same [OF presence_seqs])
  with db' show ?thesis by auto
qed

lemma sb_setPresence_refines:
  assumes "postgrest_laws fetch key rows jsonb" and "store_represents rows jsonb db st"
    and "row_fits ''realtime_presence'' (sent (presence_row r))" and "getPresence st (pr_accountId r) = None"
  shows "\<exists>db'. sb_setPresence fetch key r db = (Inr (), db') \<and> store_represents rows jsonb db' (setPresence st r)"
  using setPresence_tables [OF assms] by blast

lemma sb_persistMessage_refused:
  assumes "postgrest_laws fetch key rows jsonb" and rep: "store_represents rows jsonb db st"
    and "findMessage st (sm_messageId m) \<noteq> None \<or> \<not> row_fits ''realtime_messages'' (sent (message_row m))"
  shows "\<exists>status \<in> {400, 409}. sb_persistMessage fetch key m db = (Inl (RestFailed ''POST'' status), db)"
  unfolding sb_persistMessage_def
  by (rule write_refused [where rows = rows and db = db and row = "message_row m"
        and q = "insert_query ''realtime_messages'' ''message_id''", unfolded insert_table, OF assms(1) in_schema(8) message_plain])
    (use assms(3) message_free [OF rep] in auto)

lemma sb_setPresence_refused:
  assumes "postgrest_laws fetch key rows jsonb" and rep: "store_represents rows jsonb db st"
    and "getPresence st (pr_accountId r) \<noteq> None \<or> \<not> row_fits ''realtime_presence'' (sent (presence_row r))"
  shows "\<exists>status \<in> {400, 409}. sb_setPresence fetch key r db = (Inl (RestFailed ''POST'' status), db)"
  unfolding sb_setPresence_def
  by (rule write_refused [where rows = rows and db = db and row = "presence_row r"
        and q = "insert_query ''realtime_presence'' ''account_id''", unfolded insert_table, OF assms(1) in_schema(9) presence_plain])
    (use assms(3) presence_free [OF rep] in auto)

end
