(* ===== verification/Supabase_Properties.thy ===== *)
theory Supabase_Properties
  imports Supabase_Refinement
begin

text \<open>
  What the Supabase store promises: runs of
  operations give the same answers. \<open>sample_fetch\<close> is a small database that keeps the laws.
\<close>

section \<open>Runs of store operations\<close>

datatype store_op =
    NextSeq string
  | LatestSeq string
  | PersistMessage stored_message
  | FindMessage string
  | AppendEvent appendable_event
  | EventsSince string int int
  | LatestLogSeq string
  | GetPresence string
  | SetPresence presence_record

datatype store_answer =
    Number int
  | Done
  | Message "stored_message option"
  | Events "stored_event list"
  | Presence "presence_record option"

fun memory_op :: "store_op \<Rightarrow> memory_store \<Rightarrow> store_answer \<times> memory_store" where
  "memory_op (NextSeq c) st = (let (n, st') = nextSeq st c in (Number n, st'))"
| "memory_op (LatestSeq c) st = (Number (latestSeq st c), st)"
| "memory_op (PersistMessage m) st = (Done, persistMessage st m)"
| "memory_op (FindMessage i) st = (Message (findMessage st i), st)"
| "memory_op (AppendEvent ev) st = (let (n, st') = appendEvent st ev in (Number n, st'))"
| "memory_op (EventsSince c k n) st = (Events (eventsSince st c k n), st)"
| "memory_op (LatestLogSeq c) st = (Number (latestLogSeq st c), st)"
| "memory_op (GetPresence a) st = (Presence (getPresence st a), st)"
| "memory_op (SetPresence r) st = (Done, setPresence st r)"

definition answer_of :: "('a \<Rightarrow> store_answer) \<Rightarrow> (store_error + 'a) \<times> 'db \<Rightarrow> (store_error + store_answer) \<times> 'db" where
  "answer_of f r = (case r of (Inl err, db) \<Rightarrow> (Inl err, db) | (Inr v, db) \<Rightarrow> (Inr (f v), db))"

lemma answer_of_simps [simp]: "answer_of f (Inr v, db) = (Inr (f v), db)" "answer_of f (Inl err, db) = (Inl err, db)"
  by (simp_all add: answer_of_def)

fun sb_op :: "'db rest_fetch \<Rightarrow> string \<Rightarrow> store_op \<Rightarrow> 'db \<Rightarrow> (store_error + store_answer) \<times> 'db" where
  "sb_op fetch key (NextSeq c) db = answer_of Number (sb_nextSeq fetch key c db)"
| "sb_op fetch key (LatestSeq c) db = answer_of Number (sb_latestSeq fetch key c db)"
| "sb_op fetch key (PersistMessage m) db = answer_of (\<lambda>_. Done) (sb_persistMessage fetch key m db)"
| "sb_op fetch key (FindMessage i) db = answer_of Message (sb_findMessage fetch key i db)"
| "sb_op fetch key (AppendEvent ev) db = answer_of Number (sb_appendEvent fetch key ev db)"
| "sb_op fetch key (EventsSince c k n) db = answer_of Events (sb_eventsSince fetch key c k n db)"
| "sb_op fetch key (LatestLogSeq c) db = answer_of Number (sb_latestLogSeq fetch key c db)"
| "sb_op fetch key (GetPresence a) db = answer_of Presence (sb_getPresence fetch key a db)"
| "sb_op fetch key (SetPresence r) db = answer_of (\<lambda>_. Done) (sb_setPresence fetch key r db)"

fun memory_ops :: "store_op list \<Rightarrow> memory_store \<Rightarrow> store_answer list \<times> memory_store" where
  "memory_ops [] st = ([], st)"
| "memory_ops (op # ops) st =
     (let (v, st1) = memory_op op st; (vs, st2) = memory_ops ops st1 in (v # vs, st2))"

fun sb_ops :: "'db rest_fetch \<Rightarrow> string \<Rightarrow> store_op list \<Rightarrow> 'db \<Rightarrow> (store_error + store_answer) list \<times> 'db" where
  "sb_ops fetch key [] db = ([], db)"
| "sb_ops fetch key (op # ops) db =
     (let (v, db1) = sb_op fetch key op db; (vs, db2) = sb_ops fetch key ops db1 in (v # vs, db2))"

text \<open>
  What the tables take: texts without NUL, counters below \<open>2 ^ 53\<close>, rows of the column types, a
  page of at most \<open>max_rows\<close>; and a message or presence that is not there yet.
\<close>

fun op_ok :: "memory_store \<Rightarrow> store_op \<Rightarrow> bool" where
  "op_ok st (NextSeq c) \<longleftrightarrow> sql_text c \<and> latestSeq st c < 2 ^ 53"
| "op_ok st (LatestSeq c) \<longleftrightarrow> sql_text c"
| "op_ok st (PersistMessage m) \<longleftrightarrow>
     row_fits ''realtime_messages'' (sent (message_row m)) \<and> findMessage st (sm_messageId m) = None"
| "op_ok st (FindMessage i) \<longleftrightarrow> sql_text i"
| "op_ok st (AppendEvent ev) \<longleftrightarrow> event_storable ev \<and> latestLogSeq st (ev_conversationId ev) < 2 ^ 53"
| "op_ok st (EventsSince c k n) \<longleftrightarrow> sql_text c \<and> sql_bigint k \<and> 0 \<le> n \<and> n \<le> 1000"
| "op_ok st (LatestLogSeq c) \<longleftrightarrow> sql_text c"
| "op_ok st (GetPresence a) \<longleftrightarrow> sql_text a"
| "op_ok st (SetPresence r) \<longleftrightarrow>
     row_fits ''realtime_presence'' (sent (presence_row r)) \<and> getPresence st (pr_accountId r) = None"

fun ops_ok :: "memory_store \<Rightarrow> store_op list \<Rightarrow> bool" where
  "ops_ok st [] \<longleftrightarrow> True"
| "ops_ok st (op # ops) \<longleftrightarrow> op_ok st op \<and> ops_ok (snd (memory_op op st)) ops"

text \<open>An answer as the database gives it back: JSONB's member order, no infinite timestamp.\<close>

fun read_back :: "(fields \<Rightarrow> fields) \<Rightarrow> store_answer \<Rightarrow> store_answer" where
  "read_back jsonb (Message m) = Message (map_option kept m)"
| "read_back jsonb (Events evs) = Events (map (replayed jsonb) evs)"
| "read_back jsonb v = v"

lemma sb_op_refines:
  assumes laws: "postgrest_laws fetch key rows jsonb" and rep: "store_represents rows jsonb db st" and "op_ok st op"
  shows "\<exists>db'. sb_op fetch key op db = (Inr (read_back jsonb (fst (memory_op op st))), db') \<and>
    store_represents rows jsonb db' (snd (memory_op op st))"
proof (cases op)
  case (NextSeq c)
  then show ?thesis
    using assms(3) sb_nextSeq_refines [OF laws rep, of c] by (auto simp: case_prod_beta)
next
  case (LatestSeq c)
  then show ?thesis using assms(3) sb_counter_refines(1) [OF laws rep, of c] rep by auto
next
  case (PersistMessage m)
  then show ?thesis using assms(3) sb_persistMessage_refines [OF laws rep, of m] by auto
next
  case (FindMessage i)
  then show ?thesis using assms(3) sb_findMessage_refines [OF laws rep, of i] rep by auto
next
  case (AppendEvent ev)
  then show ?thesis
    using assms(3) sb_appendEvent_refines [OF laws rep, of ev] by (auto simp: case_prod_beta)
next
  case (EventsSince c k n)
  then show ?thesis using assms(3) sb_eventsSince_refines [OF laws rep, of c k n] rep by auto
next
  case (LatestLogSeq c)
  then show ?thesis using assms(3) sb_counter_refines(2) [OF laws rep, of c] rep by auto
next
  case (GetPresence a)
  then show ?thesis using assms(3) sb_getPresence_refines [OF laws rep, of a] rep by auto
next
  case (SetPresence r)
  then show ?thesis using assms(3) sb_setPresence_refines [OF laws rep, of r] by auto
qed

lemma represents_empty: "(\<And>t. rows db t = []) \<Longrightarrow> store_represents rows jsonb db new_store"
  by (simp add: store_represents_def store_ok_new) (simp add: new_store_def latestSeq_def latestLogSeq_def findMessage_def getPresence_def)

section \<open>A database that keeps the laws\<close>

fun body_rows :: "json \<Rightarrow> fields list" where
  "body_rows (JArr vs) = map (\<lambda>v. case v of JObj fs \<Rightarrow> fs | _ \<Rightarrow> []) vs"
| "body_rows (JObj fs) = [fs]"
| "body_rows _ = []"

definition sample_read :: "table_query \<Rightarrow> fields list \<Rightarrow> fields list" where
  "sample_read q rows =
     (let ordered = (case tq_order q of None \<Rightarrow> passing q rows | Some col \<Rightarrow> sort_key (sort_value col) (passing q rows)) in
      map (chosen (tq_select q)) (case tq_limit q of None \<Rightarrow> ordered | Some n \<Rightarrow> take (nat n) ordered))"

definition ok_response :: "rest_body \<Rightarrow> rest_response option" where
  "ok_response body = Some \<lparr>rs_status = 200, rs_body = body\<rparr>"

definition sample_insert :: "string \<Rightarrow> fields list \<Rightarrow> (string \<Rightarrow> fields list) \<Rightarrow> rest_response option \<times> (string \<Rightarrow> fields list)" where
  "sample_insert t new db =
     (case insert_rows (\<lambda>fs. fs) t new (db t) of
        None \<Rightarrow> (Some \<lparr>rs_status = 409, rs_body = BadText\<rparr>, db)
      | Some rows \<Rightarrow> (Some \<lparr>rs_status = 201, rs_body = NoText\<rparr>, db(t := rows)))"

definition sample_counter :: "string \<Rightarrow> string \<Rightarrow> (string \<Rightarrow> fields list) \<Rightarrow> rest_response option \<times> (string \<Rightarrow> fields list)" where
  "sample_counter fn c db =
     (let (col, other) = (if fn = ''nova_next_seq'' then (''last_seq'', ''last_log_seq'') else (''last_log_seq'', ''last_seq''));
          (n, new) = bump col other c (db ''realtime_cursors'') in
      (ok_response (JsonText (jint n)), db(''realtime_cursors'' := new)))"

definition sample_fetch :: "(string \<Rightarrow> fields list) rest_fetch" where
  "sample_fetch r db =
     (case (rr_method r, rr_target r, rr_body r) of
        (Get, Table q, _) \<Rightarrow> (ok_response (JsonText (JArr (map JObj (sample_read q (db (tq_table q)))))), db)
      | (Post, Table q, Some body) \<Rightarrow> sample_insert (tq_table q) (body_rows body) db
      | (Patch, Table q, Some (JObj [(col, v)])) \<Rightarrow>
          (ok_response (JsonText (JArr [])), db(tq_table q := updated (hd (tq_filters q)) col v (db (tq_table q))))
      | (Post, Rpc fn, Some (JObj [(_, JStr c)])) \<Rightarrow> sample_counter fn c db
      | _ \<Rightarrow> (None, db))"

lemma sample_reads: "rows_read q rows (sample_read q rows)"
  unfolding rows_read_def sample_read_def Let_def
  by (intro exI [where x = "case tq_order q of None \<Rightarrow> passing q rows | Some col \<Rightarrow> sort_key (sort_value col) (passing q rows)"])
    (auto split: option.split)

lemma body_rows_sent: "body = JArr (map JObj new) \<or> [body] = map JObj new \<Longrightarrow> body_rows body = new"
  by (auto simp: map_eq_Cons_conv o_def)

lemma sample_postgrest_laws: "postgrest_laws sample_fetch key (\<lambda>db. db) (\<lambda>fs. fs)"
proof -
  have "read_law sample_fetch key (\<lambda>db. db)"
    unfolding read_law_def using sample_reads by (auto simp: sample_fetch_def ok_response_def)
  moreover have "insert_law sample_fetch key (\<lambda>db. db) (\<lambda>fs. fs)"
    unfolding insert_law_def
  proof (intro allI impI)
    fix q :: table_query and new body and db :: "string \<Rightarrow> fields list"
    assume "body = JArr (map JObj new) \<or> [body] = map JObj new"
    then have "sample_fetch (insert_request q body key) db = sample_insert (tq_table q) new db"
      by (simp add: sample_fetch_def body_rows_sent)
    then show "case insert_rows (\<lambda>fs. fs) (tq_table q) new (db (tq_table q)) of
           None \<Rightarrow> \<exists>status answer. status \<in> {400, 409} \<and>
             sample_fetch (insert_request q body key) db = (Some \<lparr>rs_status = status, rs_body = answer\<rparr>, db)
         | Some new_rows \<Rightarrow> tq_table q \<noteq> ''devices'' \<longrightarrow>
             (\<exists>db'. only_table (\<lambda>db. db) db db' (tq_table q) new_rows \<and>
                sample_fetch (insert_request q body key) db = (Some \<lparr>rs_status = 201, rs_body = NoText\<rparr>, db'))"
      by (simp add: sample_insert_def only_table_def split: option.split)
  qed
  moreover have "counter_law sample_fetch key (\<lambda>db. db)"
    unfolding counter_law_def
    by (auto simp: sample_fetch_def sample_counter_def ok_response_def only_table_def)
  moreover have "update_law sample_fetch key (\<lambda>db. db)"
    unfolding update_law_def by (auto simp: sample_fetch_def ok_response_def only_table_def table_only_def)
  ultimately show ?thesis by (simp add: postgrest_laws_def jsonb_law_def)
qed


section \<open>Properties\<close>

text \<open>
  C24: the Supabase store refines the memory store. From a database that represents a memory
  store, any run of operations that the tables can take and that writes no message or
  presence twice gives, over PostgREST, the answers of \<open>MemoryRealtimeStore\<close> (an event's payload
  as JSONB gives it back), fails nowhere, and ends in a database that represents the end of
  the memory run.
\<close>

theorem supabase_store_refines:
  assumes "postgrest_laws fetch key rows jsonb" and "store_represents rows jsonb db st" and "ops_ok st ops"
  shows "fst (sb_ops fetch key ops db) = map (\<lambda>v. Inr (read_back jsonb v)) (fst (memory_ops ops st)) \<and>
    store_represents rows jsonb (snd (sb_ops fetch key ops db)) (snd (memory_ops ops st))"
  using assms(2,3)
proof (induction ops arbitrary: db st)
  case Nil
  then show ?case by simp
next
  case (Cons op ops)
  obtain v st1 where st1: "memory_op op st = (v, st1)" by fastforce
  obtain db1 where db1: "sb_op fetch key op db = (Inr (read_back jsonb v), db1)" "store_represents rows jsonb db1 st1"
    using sb_op_refines [OF assms(1) Cons.prems(1), of op] Cons.prems(2) st1 by auto
  show ?case
    using Cons.IH [OF db1(2)] Cons.prems(2) st1 by (simp add: db1(1) case_prod_beta)
qed

definition sample_message :: stored_message where
  "sample_message = \<lparr>sm_messageId = ''m1'', sm_conversationId = ''c'', sm_senderAccountId = ''alice'',
     sm_senderDeviceId = ''d1'', sm_ciphertextBase64 = ''AAAA'', sm_headerType = ''dr.v1'', sm_serverSeq = 1,
     sm_receivedAtMs = 1000, sm_clientTimestampMs = Some (js_int 900)\<rparr>"

definition sample_event :: appendable_event where
  "sample_event = \<lparr>ev_conversationId = ''c'', ev_type = EvMessageNew, ev_serverSeq = 1, ev_atMs = 1000,
     ev_payload = [(''message_id'', JStr ''m1'')]\<rparr>"

definition sample_presence :: presence_record where
  "sample_presence = \<lparr>pr_accountId = ''alice'', pr_status = Online, pr_lastSeenMs = js_int 1000\<rparr>"

definition sample_ops :: "store_op list" where
  "sample_ops = [NextSeq ''c'', PersistMessage sample_message, AppendEvent sample_event, EventsSince ''c'' 0 10,
     LatestSeq ''c'', LatestLogSeq ''c'', FindMessage ''m1'', SetPresence sample_presence, GetPresence ''alice'']"

lemma sample_fits:
  "row_fits ''realtime_messages'' (sent (message_row sample_message))"
  "row_fits ''realtime_presence'' (sent (presence_row sample_presence))"
  "event_storable sample_event"
  by (simp_all add: row_fits_def schema column_fits_def message_row_def presence_row_def sample_message_def
      sample_presence_def sample_event_def event_storable_def status_text_def sql_text_def sql_bigint_def)

lemma sample_ops_ok: "ops_ok new_store sample_ops"
  by (simp add: sample_ops_def sample_fits sql_text_def sql_bigint_def case_prod_beta find_persist presence_persist)
    (simp add: new_store_def latestSeq_def latestLogSeq_def nextSeq_def findMessage_def getPresence_def appendEvent_def
      persistMessage_def sample_event_def sql_text_def)

theorem supabase_store_refines_witness:
  "fst (sb_ops sample_fetch ''key'' sample_ops (\<lambda>t. [])) =
     map (\<lambda>v. Inr (read_back (\<lambda>fs. fs) v)) (fst (memory_ops sample_ops new_store))"
proof -
  have "store_represents (\<lambda>db. db) (\<lambda>fs. fs) (\<lambda>t. []) new_store" by (rule represents_empty) simp
  from supabase_store_refines [OF sample_postgrest_laws this sample_ops_ok] show ?thesis by blast
qed

end
