(* ===== verification/Supabase_Sync.thy ===== *)
theory Supabase_Sync
  imports Server_Sync Supabase_Properties
begin

text \<open>
  The page of \<open>onSyncRequest\<close> (\<^verbatim>\<open>server/src/realtime_server.ts\<close>) over the Supabase store: the
  two reads of the loop are two requests. Without another writer it is the page of the memory
  store; between the two requests of an append it skips the event.
\<close>

section \<open>A page over the Supabase store\<close>

definition sb_serve_page ::
  "'db rest_fetch \<Rightarrow> string \<Rightarrow> int \<Rightarrow> string \<Rightarrow> int \<Rightarrow> 'db \<Rightarrow> (store_error + sync_page option) \<times> 'db" where
  "sb_serve_page fetch key limit target cursor0 db =
     (case sb_eventsSince fetch key target cursor0 limit db of
        (Inl err, db1) \<Rightarrow> (Inl err, db1)
      | (Inr events, db1) \<Rightarrow>
          (case sb_latestLogSeq fetch key target db1 of
             (Inl err, db2) \<Rightarrow> (Inl err, db2)
           | (Inr latest, db2) \<Rightarrow>
               (let pageIsFull = (int (length events) = limit) in
                (Inr (if pageIsFull \<and> events = [] then None
                      else Some
                        \<lparr>sp_conversationId = target, sp_events = events,
                         sp_cursor = (if pageIsFull then ev_logSeq (last events) else latest),
                         sp_hasMore = pageIsFull\<rparr>), db2))))"

text \<open>Nobody writing, the page is that of the memory store, its events as JSONB gives them back.\<close>

definition replayed_page :: "(fields \<Rightarrow> fields) \<Rightarrow> sync_page \<Rightarrow> sync_page" where
  "replayed_page jsonb page = page\<lparr>sp_events := map (replayed jsonb) (sp_events page)\<rparr>"

lemma replayed_logSeq [simp]: "ev_logSeq (replayed jsonb ev) = ev_logSeq ev"
  by (simp add: replayed_def)

lemma sb_serve_page_refines:
  assumes laws: "postgrest_laws fetch key rows jsonb" and rep: "store_represents rows jsonb db st"
    and "sql_text c" and "sql_bigint k" and "0 \<le> limit" "limit \<le> 1000"
  shows "sb_serve_page fetch key limit c k db = (Inr (map_option (replayed_page jsonb) (serve_page st limit c k)), db)"
  using sb_eventsSince_refines [OF laws rep assms(3-6)] sb_counter_refines(2) [OF laws rep assms(3)]
  by (auto simp: sb_serve_page_def serve_page_def replayed_page_def Let_def last_map)

section \<open>An append under way\<close>

text \<open>
  C26: an append that is under way is lost to a sync. \<open>appendEvent\<close> of the Supabase store takes
  its number with one request and writes the row with a second. A client at the head of the log
  that syncs in between gets a page without events and without \<open>has_more\<close>, whose cursor,
  \<open>latestLogSeq\<close>, already counts the event; after the row is written, the page from that cursor
  does not hold it either.
\<close>

theorem supabase_append_in_flight_is_skipped:
  assumes laws: "postgrest_laws fetch key rows jsonb" and rep: "store_represents rows jsonb db st"
    and ev: "event_storable ev" and bound: "latestLogSeq st (ev_conversationId ev) < 2 ^ 53"
    and limit: "1 \<le> limit" "limit \<le> 1000"
  shows "\<exists>db1 db2 n.
    sb_rpcCounter fetch key ''nova_next_log_seq'' (ev_conversationId ev) db = (Inr n, db1) \<and>
    sb_write fetch key (table_only ''realtime_events'') (event_row ev n) db1 = (Inr (), db2) \<and>
    sb_appendEvent fetch key ev db = (Inr n, db2) \<and>
    sb_serve_page fetch key limit (ev_conversationId ev) (latestLogSeq st (ev_conversationId ev)) db1 =
      (Inr (Some \<lparr>sp_conversationId = ev_conversationId ev, sp_events = [], sp_cursor = n, sp_hasMore = False\<rparr>), db1) \<and>
    sb_serve_page fetch key limit (ev_conversationId ev) n db2 =
      (Inr (Some \<lparr>sp_conversationId = ev_conversationId ev, sp_events = [], sp_cursor = n, sp_hasMore = False\<rparr>), db2)"
proof -
  let ?c = "ev_conversationId ev" and ?n = "latestLogSeq st (ev_conversationId ev) + 1"
  let ?st2 = "snd (appendEvent st ev)"
  from append_requests [OF laws rep ev bound] obtain db1 db2 where
    db1: "sb_rpcCounter fetch key ''nova_next_log_seq'' ?c db = (Inr ?n, db1)"
      "rows db1 ''realtime_events'' = rows db ''realtime_events''"
      "rows db1 ''realtime_cursors'' = rows db2 ''realtime_cursors''" and
    db2: "sb_write fetch key (table_only ''realtime_events'') (event_row ev ?n) db1 = (Inr (), db2)"
      "store_represents rows jsonb db2 ?st2"
    by blast
  have c: "sql_text ?c" "sql_bigint (latestLogSeq st ?c)" "sql_bigint ?n"
    using ev bound counters_nonneg [OF representsD(1) [OF rep], of ?c] by (simp_all add: event_storable_def sql_bigint_def)
  have nonneg: "0 \<le> limit" using limit(1) by simp
  have head: "eventsSince st' ?c (latestLogSeq st' ?c) limit = []" if "store_ok st'" for st'
    using memory_log.since_rest [OF that memory_log.latest_nonneg [OF that] nonneg] memory_log.latest_length [OF that] by simp
  have n: "latestLogSeq ?st2 ?c = ?n" by (simp add: appendEvent_get)
  have "sb_eventsSince fetch key ?c (latestLogSeq st ?c) limit db1 = (Inr [], db1)"
    using sb_eventsSince_reads [where rows = rows and db = db and db' = db1, OF laws rep c(1,2) nonneg limit(2) db1(2)]
      head [OF representsD(1) [OF rep]] by simp
  moreover have "sb_latestLogSeq fetch key ?c db1 = (Inr ?n, db1)"
    using sb_counter_reads(2) [where rows = rows and db = db1 and st = ?st2, OF laws c(1)] representsD(2) [OF db2(2), of ?c]
    by (simp add: db1(3) n)
  ultimately have "sb_serve_page fetch key limit ?c (latestLogSeq st ?c) db1 =
      (Inr (Some \<lparr>sp_conversationId = ?c, sp_events = [], sp_cursor = ?n, sp_hasMore = False\<rparr>), db1)"
    using limit(1) by (simp add: sb_serve_page_def)
  moreover have "sb_serve_page fetch key limit ?c ?n db2 =
      (Inr (Some \<lparr>sp_conversationId = ?c, sp_events = [], sp_cursor = ?n, sp_hasMore = False\<rparr>), db2)"
    using sb_serve_page_refines [OF laws db2(2) c(1,3) nonneg limit(2)] head [OF representsD(1) [OF db2(2)]] limit(1)
    by (simp add: serve_page_def n replayed_page_def Let_def)
  moreover have "sb_appendEvent fetch key ev db = (Inr ?n, db2)"
    by (simp add: sb_appendEvent_def db1(1) db2(1))
  ultimately show ?thesis using db1(1) db2(1) by blast
qed

theorem supabase_append_in_flight_is_skipped_witness:
  "\<exists>db1 db2 page. sb_rpcCounter sample_fetch ''key'' ''nova_next_log_seq'' ''c'' (\<lambda>t. []) = (Inr 1, db1) \<and>
     sb_serve_page sample_fetch ''key'' 10 ''c'' 0 db1 = (Inr (Some page), db1) \<and> sp_events page = [] \<and> sp_cursor page = 1 \<and>
     sb_write sample_fetch ''key'' (table_only ''realtime_events'') (event_row sample_event 1) db1 = (Inr (), db2) \<and>
     sb_serve_page sample_fetch ''key'' 10 ''c'' 1 db2 = (Inr (Some page), db2)"
proof -
  have rep: "store_represents (\<lambda>db. db) (\<lambda>fs. fs) (\<lambda>t. []) new_store" by (rule represents_empty) simp
  have c: "ev_conversationId sample_event = ''c''" "latestLogSeq new_store ''c'' = 0"
    by (simp_all add: sample_event_def new_store_def latestLogSeq_def)
  have one: "cursor = 1" if "sb_rpcCounter sample_fetch ''key'' ''nova_next_log_seq'' ''c'' (\<lambda>t. []) = (Inr cursor, db1)" for cursor db1
    using that by (simp add: sb_rpcCounter_def sample_fetch_def sample_counter_def ok_response_def response_ok_def rpc_value_def)
  obtain db1 db2 n where got: "sb_rpcCounter sample_fetch ''key'' ''nova_next_log_seq'' ''c'' (\<lambda>t. []) = (Inr n, db1)"
    "sb_write sample_fetch ''key'' (table_only ''realtime_events'') (event_row sample_event n) db1 = (Inr (), db2)"
    "sb_serve_page sample_fetch ''key'' 10 ''c'' 0 db1 =
      (Inr (Some \<lparr>sp_conversationId = ''c'', sp_events = [], sp_cursor = n, sp_hasMore = False\<rparr>), db1)"
    "sb_serve_page sample_fetch ''key'' 10 ''c'' n db2 =
      (Inr (Some \<lparr>sp_conversationId = ''c'', sp_events = [], sp_cursor = n, sp_hasMore = False\<rparr>), db2)"
    using supabase_append_in_flight_is_skipped [where key = "''key''" and limit = 10, OF sample_postgrest_laws rep sample_fits(3)]
    by (auto simp: c)
  then show ?thesis by (auto simp: one [OF got(1)])
qed

end
