(* ===== verification/Supabase_Directory.thy ===== *)
theory Supabase_Directory
  imports Directory_Model Supabase_Store
begin

text \<open>
  \<^verbatim>\<open>server/src/directory/supabase_directory.ts\<close>: the directory kept in Postgres.
  As in \<open>Supabase_Store\<close> the state is the database behind \<open>fetch\<close> and a thrown error is an
  \<open>Inl\<close>. \<open>fromBase64\<close> and \<open>toBase64\<close> are Node's \<open>Buffer\<close> conversions. \<open>NullAccount\<close> stands
  for a device row whose \<open>account_id\<close> is NULL, which the code hands on as a \<open>null\<close> that
  \<open>DeviceRecord\<close> does not allow for.
\<close>

definition new_supabase_directory :: "string \<Rightarrow> string \<Rightarrow> (string \<times> string) option" where
  "new_supabase_directory supabaseUrl serviceRoleKey =
     (if supabaseUrl = [] \<or> serviceRoleKey = [] then None else Some (supabaseUrl, serviceRoleKey))"

text \<open>\<open>rest\<close>: a POST asks for no rows and reads none; any other answer must be JSON.\<close>

definition sd_rest ::
  "'db rest_fetch \<Rightarrow> string \<Rightarrow> rest_method \<Rightarrow> table_query \<Rightarrow> json option \<Rightarrow> 'db \<Rightarrow> (store_error + json) \<times> 'db" where
  "sd_rest fetch key m q body db =
     (case fetch \<lparr>rr_method = m, rr_target = Table q, rr_body = map_option stringified body,
            rr_prefer = (if m = Post then ''return=minimal'' else ''return=representation''), rr_key = key\<rparr> db of
        (None, db') \<Rightarrow> (Inl NetworkError, db')
      | (Some response, db') \<Rightarrow>
          (if \<not> response_ok response then Inl (TableFailed (tq_table q) (method_name m) (rs_status response))
           else if m = Post then Inr (JArr [])
           else (case rs_body response of JsonText v \<Rightarrow> Inr v | _ \<Rightarrow> Inl BadJsonText), db'))"

definition normalizeStatus :: "json option \<Rightarrow> device_status" where
  "normalizeStatus raw =
     (if raw = Some (JStr ''active'') then Active
      else if raw = Some (JStr ''revoked'') then Revoked
      else Pending)"

definition device_of_row :: "(string \<Rightarrow> byte list) \<Rightarrow> fields \<Rightarrow> store_error + device_record" where
  "device_of_row fromBase64 row =
     (case map_get row ''public_key'' of
        Some (JStr publicKey) \<Rightarrow>
          (case (map_get row ''account_id'', as_string (map_get row ''device_id''), as_string (map_get row ''nova_id'')) of
             (Some (JStr a), Some d, Some n) \<Rightarrow>
               Inr \<lparr>dev_accountId = a, dev_deviceId = d, dev_novaId = n, dev_ed25519PublicKey = fromBase64 publicKey,
                 dev_status = normalizeStatus (map_get row ''status'')\<rparr>
           | (Some JNull, _, _) \<Rightarrow> Inl NullAccount
           | _ \<Rightarrow> Inl OffSchema)
      | None \<Rightarrow> Inl KeyTypeError
      | Some JNull \<Rightarrow> Inl KeyTypeError
      | _ \<Rightarrow> Inl OffSchema)"

definition sd_getDevice ::
  "(string \<Rightarrow> byte list) \<Rightarrow> 'db rest_fetch \<Rightarrow> string \<Rightarrow> string \<Rightarrow> 'db \<Rightarrow> (store_error + device_record option) \<times> 'db" where
  "sd_getDevice fromBase64 fetch key deviceId db =
     (case sd_rest fetch key Get
        (read_query ''devices'' [EqText ''device_id'' deviceId]
           [''account_id'', ''device_id'', ''nova_id'', ''public_key'', ''status''] (Some 1)) None db of
        (Inl err, db') \<Rightarrow> (Inl err, db')
      | (Inr rows, db') \<Rightarrow> (read_one (device_of_row fromBase64) rows, db'))"

text \<open>A call whose rows are not looked at.\<close>

definition sd_write :: "'db rest_fetch \<Rightarrow> string \<Rightarrow> rest_method \<Rightarrow> table_query \<Rightarrow> json \<Rightarrow> 'db \<Rightarrow> (store_error + unit) \<times> 'db" where
  "sd_write fetch key m q body db =
     (case sd_rest fetch key m q (Some body) db of
        (Inl err, db') \<Rightarrow> (Inl err, db')
      | (Inr rows, db') \<Rightarrow> (Inr (), db'))"

definition device_status_text :: "device_status \<Rightarrow> string" where
  "device_status_text st = (case st of Pending \<Rightarrow> ''pending'' | Active \<Rightarrow> ''active'' | Revoked \<Rightarrow> ''revoked'')"

definition sd_device_row :: "(byte list \<Rightarrow> string) \<Rightarrow> device_record \<Rightarrow> fields" where
  "sd_device_row toBase64 record =
     [(''account_id'', JStr (dev_accountId record)),
      (''device_id'', JStr (dev_deviceId record)),
      (''nova_id'', JStr (dev_novaId record)),
      (''public_key'', JStr (toBase64 (dev_ed25519PublicKey record))),
      (''status'', JStr (device_status_text (dev_status record)))]"

definition sd_upsertDevice ::
  "(byte list \<Rightarrow> string) \<Rightarrow> 'db rest_fetch \<Rightarrow> string \<Rightarrow> device_record \<Rightarrow> 'db \<Rightarrow> (store_error + unit) \<times> 'db" where
  "sd_upsertDevice toBase64 fetch key record db =
     sd_write fetch key Post (insert_query ''devices'' ''device_id'') (JObj (sd_device_row toBase64 record)) db"

definition sd_revokeDevice :: "'db rest_fetch \<Rightarrow> string \<Rightarrow> string \<Rightarrow> 'db \<Rightarrow> (store_error + bool) \<times> 'db" where
  "sd_revokeDevice fetch key deviceId db =
     (case sd_write fetch key Patch ((table_only ''devices'')\<lparr>tq_filters := [EqText ''device_id'' deviceId]\<rparr>)
        (JObj [(''status'', JStr ''revoked'')]) db of
        (Inl err, db') \<Rightarrow> (Inl err, db')
      | (Inr _, db') \<Rightarrow> (Inr True, db'))"

text \<open>\<open>rows.length > 0\<close> of a parsed body.\<close>

fun has_rows :: "json \<Rightarrow> store_error + bool" where
  "has_rows JNull = Inl RowTypeError"
| "has_rows (JArr vs) = Inr (vs \<noteq> [])"
| "has_rows (JStr s) = Inr (s \<noteq> [])"
| "has_rows (JObj fs) = (case number_of (map_get fs ''length'') of None \<Rightarrow> Inl OffSchema | Some n \<Rightarrow> Inr (js_int 0 < n))"
| "has_rows _ = Inr False"

definition sd_exists :: "'db rest_fetch \<Rightarrow> string \<Rightarrow> table_query \<Rightarrow> 'db \<Rightarrow> (store_error + bool) \<times> 'db" where
  "sd_exists fetch key q db =
     (case sd_rest fetch key Get q None db of
        (Inl err, db') \<Rightarrow> (Inl err, db')
      | (Inr rows, db') \<Rightarrow> (has_rows rows, db'))"

text \<open>\<open>rows.map((row) => row.col)\<close> for a text column.\<close>

definition text_of_row :: "string \<Rightarrow> json \<Rightarrow> store_error + string" where
  "text_of_row col v =
     (if v = JNull then Inl RowTypeError
      else (case as_string (map_get (payloadObject (Some v)) col) of None \<Rightarrow> Inl OffSchema | Some s \<Rightarrow> Inr s))"

definition sd_column ::
  "'db rest_fetch \<Rightarrow> string \<Rightarrow> table_query \<Rightarrow> string \<Rightarrow> 'db \<Rightarrow> (store_error + string list) \<times> 'db" where
  "sd_column fetch key q col db =
     (case sd_rest fetch key Get q None db of
        (Inl err, db') \<Rightarrow> (Inl err, db')
      | (Inr rows, db') \<Rightarrow> (read_all (text_of_row col) rows, db'))"

definition sd_isConversationMember ::
  "'db rest_fetch \<Rightarrow> string \<Rightarrow> string \<Rightarrow> string \<Rightarrow> 'db \<Rightarrow> (store_error + bool) \<times> 'db" where
  "sd_isConversationMember fetch key conversationId accountId db =
     sd_exists fetch key
       (read_query ''realtime_conversation_members''
          [EqText ''conversation_id'' conversationId, EqText ''account_id'' accountId] [''conversation_id''] (Some 1)) db"

definition sd_addConversationMember ::
  "'db rest_fetch \<Rightarrow> string \<Rightarrow> string \<Rightarrow> string \<Rightarrow> 'db \<Rightarrow> (store_error + unit) \<times> 'db" where
  "sd_addConversationMember fetch key conversationId accountId db =
     sd_write fetch key Post (insert_query ''realtime_conversation_members'' ''conversation_id,account_id'')
       (JObj [(''conversation_id'', JStr conversationId), (''account_id'', JStr accountId)]) db"

definition sd_listConversationsForAccount ::
  "'db rest_fetch \<Rightarrow> string \<Rightarrow> string \<Rightarrow> 'db \<Rightarrow> (store_error + string list) \<times> 'db" where
  "sd_listConversationsForAccount fetch key accountId db =
     sd_column fetch key
       (read_query ''realtime_conversation_members'' [EqText ''account_id'' accountId] [''conversation_id''] None)
       ''conversation_id'' db"

definition sd_hasRelationship :: "'db rest_fetch \<Rightarrow> string \<Rightarrow> string \<Rightarrow> string \<Rightarrow> 'db \<Rightarrow> (store_error + bool) \<times> 'db" where
  "sd_hasRelationship fetch key a b db =
     sd_exists fetch key
       (read_query ''realtime_contacts'' [EqText ''account_id'' a, EqText ''peer_id'' b, EqFlag ''blocked'' False]
          [''peer_id''] (Some 1)) db"

definition sd_addRelationship :: "'db rest_fetch \<Rightarrow> string \<Rightarrow> string \<Rightarrow> string \<Rightarrow> 'db \<Rightarrow> (store_error + unit) \<times> 'db" where
  "sd_addRelationship fetch key a b db =
     sd_write fetch key Post (insert_query ''realtime_contacts'' ''account_id,peer_id'')
       (JArr [JObj [(''account_id'', JStr a), (''peer_id'', JStr b), (''blocked'', JBool False)],
              JObj [(''account_id'', JStr b), (''peer_id'', JStr a), (''blocked'', JBool False)]]) db"

definition sd_presenceAudience :: "'db rest_fetch \<Rightarrow> string \<Rightarrow> string \<Rightarrow> 'db \<Rightarrow> (store_error + string list) \<times> 'db" where
  "sd_presenceAudience fetch key subjectAccountId db =
     sd_column fetch key
       (read_query ''realtime_presence_audience'' [EqText ''subject_id'' subjectAccountId] [''viewer_id''] None)
       ''viewer_id'' db"

definition sd_allowPresence :: "'db rest_fetch \<Rightarrow> string \<Rightarrow> string \<Rightarrow> string \<Rightarrow> 'db \<Rightarrow> (store_error + unit) \<times> 'db" where
  "sd_allowPresence fetch key subjectAccountId viewerAccountId db =
     sd_write fetch key Post (insert_query ''realtime_presence_audience'' ''subject_id,viewer_id'')
       (JObj [(''subject_id'', JStr subjectAccountId), (''viewer_id'', JStr viewerAccountId)]) db"

text \<open>The texts of the queries, as the code writes them.\<close>

lemma directory_query_texts:
  "query_text (read_query ''realtime_conversation_members'' [EqText ''conversation_id'' c, EqText ''account_id'' a]
       [''conversation_id''] (Some 1)) =
     ''realtime_conversation_members?conversation_id=eq.'' @ encodeURIComponent c @ ''&account_id=eq.'' @
       encodeURIComponent a @ ''&select=conversation_id&limit=1''"
  "query_text (read_query ''realtime_contacts'' [EqText ''account_id'' a, EqText ''peer_id'' b, EqFlag ''blocked'' False]
       [''peer_id''] (Some 1)) =
     ''realtime_contacts?account_id=eq.'' @ encodeURIComponent a @ ''&peer_id=eq.'' @ encodeURIComponent b @
       ''&blocked=eq.false&select=peer_id&limit=1''"
  "query_text (read_query ''realtime_presence_audience'' [EqText ''subject_id'' a] [''viewer_id''] None) =
     ''realtime_presence_audience?subject_id=eq.'' @ encodeURIComponent a @ ''&select=viewer_id''"
  "query_text ((table_only ''devices'')\<lparr>tq_filters := [EqText ''device_id'' d]\<rparr>) =
     ''devices?device_id=eq.'' @ encodeURIComponent d"
  "query_text (insert_query ''realtime_contacts'' ''account_id,peer_id'') = ''realtime_contacts?on_conflict=account_id,peer_id''"
  by (simp_all add: query_text_def read_query_def insert_query_def table_only_def Let_def signed_decimal_def decimal_one)

end
