(* ===== verification/Directory_Refinement.thy ===== *)
theory Directory_Refinement
  imports Supabase_Directory Supabase_Refinement
begin

text \<open>
  The Supabase directory against the memory directory, under \<open>postgrest_laws\<close>. Memberships,
  contacts and presence audiences are three tables of links, each keyed by its pair of columns:
  the locale \<open>link_table\<close> states what the schema gives for one of them and proves reads and
  inserts once; the three tables interpret it.
\<close>

section \<open>A table of links\<close>

definition link_row :: "string \<Rightarrow> string \<Rightarrow> fields \<Rightarrow> string \<Rightarrow> string \<Rightarrow> fields" where
  "link_row k1 k2 extra x y = (k1, JStr x) # (k2, JStr y) # extra"

text \<open>The rows are the pairs of a relation, each once.\<close>

definition links :: "(string \<Rightarrow> string \<Rightarrow> fields) \<Rightarrow> fields list \<Rightarrow> (string \<Rightarrow> string \<Rightarrow> bool) \<Rightarrow> bool" where
  "links row rs R \<longleftrightarrow> distinct rs \<and> set rs = {r. \<exists>x y. r = row x y \<and> R x y}"

text \<open>An insert through the directory's \<open>rest\<close>.\<close>

lemma sd_insert:
  assumes laws: "postgrest_laws fetch key rows jsonb" and "known_table t" and "list_all (plain_row t) new" and "new \<noteq> []"
    and "stringified body = JArr (map JObj new) \<or> [stringified body] = map JObj new"
  shows "insert_rows jsonb t new (rows db t) = None \<Longrightarrow>
      \<exists>status \<in> {400, 409}. sd_write fetch key Post (insert_query t conflict) body db = (Inl (TableFailed t ''POST'' status), db)"
    and "insert_rows jsonb t new (rows db t) = Some rs \<Longrightarrow> t \<noteq> ''devices'' \<Longrightarrow>
      \<exists>db'. sd_write fetch key Post (insert_query t conflict) body db = (Inr (), db') \<and> rows db' = (rows db)(t := rs)"
proof -
  note law = lawsD(2) [OF laws, unfolded insert_law_def, rule_format, of "insert_query t conflict" new "stringified body" db, unfolded insert_table,
    OF assms(2-5)]
  show "\<exists>status \<in> {400, 409}. sd_write fetch key Post (insert_query t conflict) body db = (Inl (TableFailed t ''POST'' status), db)"
    if "insert_rows jsonb t new (rows db t) = None"
    using law that by (auto simp: sd_write_def sd_rest_def response_ok_def)
  show "\<exists>db'. sd_write fetch key Post (insert_query t conflict) body db = (Inr (), db') \<and> rows db' = (rows db)(t := rs)"
    if "insert_rows jsonb t new (rows db t) = Some rs" "t \<noteq> ''devices''"
    using law that by (auto simp: sd_write_def sd_rest_def response_ok_def only_table_def)
qed

locale link_table =
  fixes t k1 k2 :: string
    and extra :: fields
    and guard :: "column_filter list"
  assumes columns: "k1 \<noteq> k2" "k1 \<noteq> ''*''" "k2 \<noteq> ''*''" "k1 \<notin> set (map fst extra)" "k2 \<notin> set (map fst extra)"
    and key: "key_of t = [k1, k2]"
    and known: "known_table t" "t \<noteq> ''devices''" "has_column t k1 TextColumn" "has_column t k2 TextColumn"
    and plain: "plain_row t (link_row k1 k2 extra x y)"
    and fits: "sql_text x \<Longrightarrow> sql_text y \<Longrightarrow> row_fits t (link_row k1 k2 extra x y)"
    and kept_as_sent: "sent (link_row k1 k2 extra x y) = link_row k1 k2 extra x y"
    and stored: "stored_row jsonb (link_row k1 k2 extra x y) = link_row k1 k2 extra x y"
    and guard_fits: "list_all (filter_fits t) guard"
    and guard_passes: "list_all (\<lambda>f. passes f (link_row k1 k2 extra x y)) guard"
begin

abbreviation row :: "string \<Rightarrow> string \<Rightarrow> fields" where
  "row \<equiv> link_row k1 k2 extra"

lemma get_row [simp]: "map_get (row x y) k1 = Some (JStr x)" "map_get (row x y) k2 = Some (JStr y)"
  using columns by (simp_all add: link_row_def)

lemma row_eq [simp]: "row x y = row x' y' \<longleftrightarrow> x = x' \<and> y = y'"
  by (simp add: link_row_def)

lemma chosen_row: "chosen (Some [k1]) (row x y) = [(k1, JStr x)]" "chosen (Some [k2]) (row x y) = [(k2, JStr y)]"
proof -
  have no: "filter (\<lambda>(col, v). col = k) extra = []" if "k \<notin> set (map fst extra)" for k
    using that by (force simp: filter_empty_conv)
  show "chosen (Some [k1]) (row x y) = [(k1, JStr x)]" "chosen (Some [k2]) (row x y) = [(k2, JStr y)]"
    using columns no by (simp_all add: chosen_def link_row_def)
qed

lemma same_key_row: "same_key t (row x y) (row x' y') \<longleftrightarrow> x = x' \<and> y = y'"
  by (simp add: same_key_def key)

lemma key_taken: "links row rs R \<Longrightarrow> list_ex (same_key t (row x y)) rs \<longleftrightarrow> R x y"
  by (force simp: links_def list_ex_iff same_key_row)

lemma links_add: "links row rs R \<Longrightarrow> \<not> R x y \<Longrightarrow> links row (rs @ [row x y]) (\<lambda>a b. a = x \<and> b = y \<or> R a b)"
  by (auto simp: links_def)

text \<open>Is the pair there?\<close>

lemma pair_passing:
  assumes "links row rs R"
  shows "passing (read_query t ([EqText k1 x, EqText k2 y] @ guard) cols n) rs = [] \<longleftrightarrow> \<not> R x y"
  using assms guard_passes [of x y]
  by (force simp: passing_def read_query_def table_only_def links_def filter_empty_conv)

lemma pair_read:
  assumes "links row rs R" and "rows_read (read_query t ([EqText k1 x, EqText k2 y] @ guard) cols (Some 1)) rs out"
  shows "out = [] \<longleftrightarrow> \<not> R x y"
proof -
  from assms(2) obtain ordered where "mset ordered = mset (passing (read_query t ([EqText k1 x, EqText k2 y] @ guard) cols (Some 1)) rs)"
    "out = map (chosen (Some cols)) (take 1 ordered)"
    by (auto simp: rows_read_def read_query_def table_only_def)
  then show ?thesis using pair_passing [OF assms(1)] by (metis Nil_is_map_conv mset_zero_iff_right take_eq_Nil zero_neq_one)
qed

text \<open>The partners of one side.\<close>

lemma partners_passing:
  assumes "links row rs R"
  shows "distinct (passing (read_query t [EqText k1 x] cols None) rs)"
    and "set (passing (read_query t [EqText k1 x] cols None) rs) = row x ` {y. R x y}"
    and "distinct (passing (read_query t [EqText k2 y] cols None) rs)"
    and "set (passing (read_query t [EqText k2 y] cols None) rs) = (\<lambda>x. row x y) ` {x. R x y}"
  using assms by (auto simp: passing_def read_query_def table_only_def links_def)

lemma partners_read:
  assumes "distinct ps" and "set ps = f ` A" and "\<And>z. chosen (Some [k]) (f z) = [(k, JStr z)]"
    and "rows_read q rs out" and "passing q rs = ps" and "tq_order q = None" "tq_limit q = None" "tq_select q = Some [k]"
  shows "\<exists>zs. out = map (\<lambda>z. [(k, JStr z)]) zs \<and> distinct zs \<and> set zs = A"
proof -
  from assms(4-8) obtain ordered where ordered: "mset ordered = mset ps" "out = map (chosen (Some [k])) ordered"
    by (auto simp: rows_read_def)
  then have members: "set ordered = f ` A" "distinct ordered"
    using assms(1,2) mset_eq_setD [OF ordered(1)] mset_eq_imp_distinct_iff [OF ordered(1)] by simp_all
  then have "ordered \<in> map f ` lists A" by (metis in_lists_conv_set lists_image)
  then obtain zs where zs: "ordered = map f zs" by blast
  have "inj f" using assms(3) by (metis injI json.inject(3) list.inject prod.inject)
  then have "set zs = A" using members(1) by (simp add: zs inj_image_eq_iff)
  moreover have "distinct zs" using members(2) by (simp add: zs distinct_map)
  moreover have "out = map (\<lambda>z. [(k, JStr z)]) zs" by (simp add: ordered(2) zs assms(3))
  ultimately show ?thesis by blast
qed

text \<open>The calls of the directory over such a table.\<close>

lemma exists_refines:
  assumes laws: "postgrest_laws fetch key rows jsonb" and lk: "links row (rows db t) R"
    and "sql_text x" "sql_text y" and "known_column t col"
  shows "sd_exists fetch key (read_query t ([EqText k1 x, EqText k2 y] @ guard) [col] (Some 1)) db = (Inr (R x y), db)"
proof -
  let ?q = "read_query t ([EqText k1 x, EqText k2 y] @ guard) [col] (Some 1)"
  have "query_fits ?q" "within_max_rows ?q (rows db t)"
    using assms(3-5) known guard_fits
    by (simp_all add: query_fits_def within_max_rows_def max_rows_def read_query_def table_only_def)
  then obtain out where "rows_read ?q (rows db t) out"
    "fetch (read_request ?q key) db = (Some \<lparr>rs_status = 200, rs_body = JsonText (JArr (map JObj out))\<rparr>, db)"
    using lawsD(1) [OF laws, unfolded read_law_def, rule_format, of ?q db] by auto
  then show ?thesis
    using pair_read [OF lk] by (simp add: sd_exists_def sd_rest_def response_ok_def)
qed

lemma column_refines:
  assumes laws: "postgrest_laws fetch key rows jsonb" and lk: "links row (rows db t) R" and "sql_text z"
    and k: "(k, k', A) = (k1, k2, {y. R z y}) \<or> (k, k', A) = (k2, k1, {x. R x z})" and small: "card A \<le> max_rows"
  shows "\<exists>zs. sd_column fetch key (read_query t [EqText k z] [k'] None) k' db = (Inr zs, db) \<and> distinct zs \<and> set zs = A"
proof -
  let ?q = "read_query t [EqText k z] [k'] None"
  have q: "tq_order ?q = None" "tq_limit ?q = None" "tq_select ?q = Some [k']"
    by (simp_all add: read_query_def table_only_def)
  have "\<exists>f. distinct (passing ?q (rows db t)) \<and> set (passing ?q (rows db t)) = f ` A \<and> inj f \<and>
      (\<forall>z. chosen (Some [k']) (f z) = [(k', JStr z)])"
    using k
  proof (elim disjE)
    assume "(k, k', A) = (k1, k2, {y. R z y})"
    then show ?thesis using partners_passing(1,2) [OF lk] chosen_row(2) by (auto intro!: exI [of _ "row z"] injI)
  next
    assume "(k, k', A) = (k2, k1, {x. R x z})"
    then show ?thesis using partners_passing(3,4) [OF lk] chosen_row(1) by (auto intro!: exI [of _ "\<lambda>x. row x z"] injI)
  qed
  then obtain f where f: "distinct (passing ?q (rows db t))" "set (passing ?q (rows db t)) = f ` A" "inj f"
    "\<And>z. chosen (Some [k']) (f z) = [(k', JStr z)]" by blast
  have "length (passing ?q (rows db t)) = card A"
    using distinct_card [OF f(1)] f(2,3) by (simp add: card_image inj_on_subset [OF f(3) subset_UNIV])
  moreover have "has_column t k TextColumn" "known_column t k'" "k' \<noteq> ''*''"
    using k known columns by (auto simp: known_column_def has_column_def list_ex_iff)
  ultimately have fits: "query_fits ?q" "within_max_rows ?q (rows db t)"
    using assms(3) known small
    by (simp_all add: query_fits_def within_max_rows_def q) (simp_all add: read_query_def table_only_def)
  then obtain out where out: "rows_read ?q (rows db t) out"
    "fetch (read_request ?q key) db = (Some \<lparr>rs_status = 200, rs_body = JsonText (JArr (map JObj out))\<rparr>, db)"
    using lawsD(1) [OF laws, unfolded read_law_def, rule_format, of ?q db] by auto
  obtain zs where zs: "out = map (\<lambda>z. [(k', JStr z)]) zs" "distinct zs" "set zs = A"
    using partners_read [OF f(1,2,4) out(1) refl q] by blast
  have "map_rows (text_of_row k') (map (\<lambda>z. JObj [(k', JStr z)]) zs) = Inr (map (\<lambda>z. z) zs)"
    by (rule map_rows_map) (simp add: text_of_row_def)
  then show ?thesis
    using zs out(2) by (simp add: sd_column_def sd_rest_def response_ok_def read_all_def o_def)
qed

lemma insert_new:
  assumes laws: "postgrest_laws fetch key rows jsonb" and lk: "links row (rows db t) R"
    and "sql_text x" "sql_text y" "\<not> R x y"
  shows "\<exists>db'. sd_write fetch key Post (insert_query t conflict) (JObj (row x y)) db = (Inr (), db') \<and>
    rows db' = (rows db)(t := rows db t @ [row x y])"
proof -
  have "insert_rows jsonb t [row x y] (rows db t) = Some (rows db t @ [row x y])"
    using assms(3-5) fits key_taken [OF lk] stored by simp
  moreover have "list_all (plain_row t) [row x y]" "[row x y] \<noteq> []" "[stringified (JObj (row x y))] = map JObj [row x y]"
    using plain kept_as_sent by simp_all
  ultimately show ?thesis using known(2)
    by (intro sd_insert(2) [where rows = rows and db = db and new = "[row x y]", OF laws known(1)] disjI2)
qed

lemma insert_taken:
  assumes laws: "postgrest_laws fetch key rows jsonb" and lk: "links row (rows db t) R" and "R x y"
  shows "\<exists>status \<in> {400, 409}. sd_write fetch key Post (insert_query t conflict) (JObj (row x y)) db =
    (Inl (TableFailed t ''POST'' status), db)"
proof -
  have "insert_rows jsonb t [row x y] (rows db t) = None"
    using assms(3) key_taken [OF lk] by simp
  moreover have "list_all (plain_row t) [row x y]" "[row x y] \<noteq> []" "[stringified (JObj (row x y))] = map JObj [row x y]"
    using plain kept_as_sent by simp_all
  ultimately show ?thesis by (intro sd_insert(1) [where rows = rows and db = db and new = "[row x y]", OF laws known(1)] disjI2)
qed

text \<open>Both directions of a pair in one request.\<close>

lemma insert_both:
  assumes laws: "postgrest_laws fetch key rows jsonb" and lk: "links row (rows db t) R"
    and "sql_text x" "sql_text y" "\<not> R x y" "\<not> R y x" "x \<noteq> y"
  shows "\<exists>db'. sd_write fetch key Post (insert_query t conflict) (JArr [JObj (row x y), JObj (row y x)]) db = (Inr (), db') \<and>
    rows db' = (rows db)(t := (rows db t @ [row x y]) @ [row y x])"
proof -
  have "insert_rows jsonb t [row x y, row y x] (rows db t) = Some ((rows db t @ [row x y]) @ [row y x])"
    using assms(3-7) fits key_taken [OF lk] stored by (simp add: same_key_row)
  moreover have "list_all (plain_row t) [row x y, row y x]" "[row x y, row y x] \<noteq> []"
    "stringified (JArr [JObj (row x y), JObj (row y x)]) = JArr (map JObj [row x y, row y x])"
    using plain kept_as_sent by simp_all
  ultimately show ?thesis using known(2)
    by (intro sd_insert(2) [where rows = rows and db = db and new = "[row x y, row y x]", OF laws known(1)] disjI1)
qed

lemma insert_both_taken:
  assumes laws: "postgrest_laws fetch key rows jsonb" and lk: "links row (rows db t) R" and "R x y \<or> R y x \<or> x = y"
  shows "\<exists>status \<in> {400, 409}. sd_write fetch key Post (insert_query t conflict) (JArr [JObj (row x y), JObj (row y x)]) db =
    (Inl (TableFailed t ''POST'' status), db)"
proof -
  have "insert_rows jsonb t [row x y, row y x] (rows db t) = None"
    using assms(3) key_taken [OF lk] stored by (auto simp: same_key_row)
  moreover have "list_all (plain_row t) [row x y, row y x]" "[row x y, row y x] \<noteq> []"
    "stringified (JArr [JObj (row x y), JObj (row y x)]) = JArr (map JObj [row x y, row y x])"
    using plain kept_as_sent by simp_all
  ultimately show ?thesis by (intro sd_insert(1) [where rows = rows and db = db and new = "[row x y, row y x]", OF laws known(1)] disjI1)
qed

end

section \<open>The three tables\<close>

lemma link_schema:
  "key_of ''realtime_conversation_members'' = [''conversation_id'', ''account_id'']"
  "key_of ''realtime_contacts'' = [''account_id'', ''peer_id'']"
  "key_of ''realtime_presence_audience'' = [''subject_id'', ''viewer_id'']"
  "known_table ''realtime_conversation_members''" "known_table ''realtime_contacts''" "known_table ''realtime_presence_audience''"
  "known_table ''devices''"
  "has_column ''realtime_conversation_members'' ''conversation_id'' TextColumn"
  "has_column ''realtime_conversation_members'' ''account_id'' TextColumn"
  "has_column ''realtime_contacts'' ''account_id'' TextColumn" "has_column ''realtime_contacts'' ''peer_id'' TextColumn"
  "has_column ''realtime_contacts'' ''blocked'' BooleanColumn"
  "has_column ''realtime_presence_audience'' ''subject_id'' TextColumn"
  "has_column ''realtime_presence_audience'' ''viewer_id'' TextColumn"
  "known_column ''realtime_conversation_members'' ''conversation_id''" "known_column ''realtime_contacts'' ''peer_id''"
  "has_column ''devices'' ''device_id'' TextColumn"
  "list_all (known_column ''devices'') [''account_id'', ''device_id'', ''nova_id'', ''public_key'', ''status'']"
  by code_simp+

lemmas link_facts = link_schema link_row_def stored_row_def plain_row_def row_fits_def column_fits_def

interpretation members: link_table "''realtime_conversation_members''" "''conversation_id''" "''account_id''" "[]" "[]"
  by unfold_locales (simp_all add: link_facts schema)

interpretation contacts: link_table "''realtime_contacts''" "''account_id''" "''peer_id''"
  "[(''blocked'', JBool False)]" "[EqFlag ''blocked'' False]"
  by unfold_locales (simp_all add: link_facts schema)

interpretation viewers: link_table "''realtime_presence_audience''" "''subject_id''" "''viewer_id''" "[]" "[]"
  by unfold_locales (simp_all add: link_facts schema)

end
