(* ===== verification/Directory_Properties.thy ===== *)
theory Directory_Properties
  imports Directory_Refinement Supabase_Properties
begin

text \<open>
  The Supabase directory refines the memory directory where a link is written once, and what
  it refuses: repeated links, contacts with oneself, and every device.
\<close>

section \<open>Related states\<close>

definition describes_device :: "(byte list \<Rightarrow> string) \<Rightarrow> fields \<Rightarrow> device_record \<Rightarrow> bool" where
  "describes_device encodeKey row r \<longleftrightarrow>
     map_get row ''account_id'' = Some (JStr (dev_accountId r)) \<and> map_get row ''device_id'' = Some (JStr (dev_deviceId r)) \<and>
     map_get row ''nova_id'' = Some (JStr (dev_novaId r)) \<and>
     map_get row ''public_key'' = Some (JStr (encodeKey (dev_ed25519PublicKey r))) \<and>
     map_get row ''status'' = Some (JStr (device_status_text (dev_status r)))"

definition devices_represent :: "(byte list \<Rightarrow> string) \<Rightarrow> fields list \<Rightarrow> memory_directory \<Rightarrow> bool" where
  "devices_represent encodeKey rs d \<longleftrightarrow>
     (\<forall>i. case getDevice d i of
            None \<Rightarrow> filter (has_text ''device_id'' i) rs = []
          | Some r \<Rightarrow> \<exists>row. filter (has_text ''device_id'' i) rs = [row] \<and> describes_device encodeKey row r)"

definition directory_represents ::
  "(byte list \<Rightarrow> string) \<Rightarrow> ('db \<Rightarrow> string \<Rightarrow> fields list) \<Rightarrow> 'db \<Rightarrow> memory_directory \<Rightarrow> bool" where
  "directory_represents encodeKey rows db d \<longleftrightarrow> directory_ok d \<and>
     links members.row (rows db ''realtime_conversation_members'') (isConversationMember d) \<and>
     links contacts.row (rows db ''realtime_contacts'') (hasRelationship d) \<and>
     links viewers.row (rows db ''realtime_presence_audience'') (\<lambda>s v. v \<in> set (presenceAudience d s)) \<and>
     devices_represent encodeKey (rows db ''devices'') d"

lemma directoryD:
  assumes "directory_represents encodeKey rows db d"
  shows "directory_ok d" "links members.row (rows db ''realtime_conversation_members'') (isConversationMember d)"
    "links contacts.row (rows db ''realtime_contacts'') (hasRelationship d)"
    "links viewers.row (rows db ''realtime_presence_audience'') (\<lambda>s v. v \<in> set (presenceAudience d s))"
    "devices_represent encodeKey (rows db ''devices'') d"
  using assms by (simp_all add: directory_represents_def)

text \<open>What the operations of the memory directory leave alone.\<close>

lemma addMember_frame:
  "hasRelationship (addConversationMember d c a) = hasRelationship d"
  "presenceAudience (addConversationMember d c a) = presenceAudience d"
  "getDevice (addConversationMember d c a) = getDevice d"
  by (simp_all add: fun_eq_iff addConversationMember_def hasRelationship_def presenceAudience_def getDevice_def)

lemma addRelationship_frame:
  "isConversationMember (addRelationship d a b) = isConversationMember d"
  "presenceAudience (addRelationship d a b) = presenceAudience d" "getDevice (addRelationship d a b) = getDevice d"
  by (simp_all add: fun_eq_iff addRelationship_def Let_def isConversationMember_def presenceAudience_def getDevice_def)

lemma allowPresence_frame:
  "isConversationMember (allowPresence d s v) = isConversationMember d"
  "hasRelationship (allowPresence d s v) = hasRelationship d" "getDevice (allowPresence d s v) = getDevice d"
  by (simp_all add: fun_eq_iff allowPresence_def isConversationMember_def hasRelationship_def getDevice_def)

lemma revokeDevice_frame:
  "isConversationMember (snd (revokeDevice d i)) = isConversationMember d"
  "hasRelationship (snd (revokeDevice d i)) = hasRelationship d"
  "presenceAudience (snd (revokeDevice d i)) = presenceAudience d"
  by (auto simp: fun_eq_iff revokeDevice_def isConversationMember_def hasRelationship_def presenceAudience_def
      split: option.splits)

lemma devices_same: "getDevice d' = getDevice d \<Longrightarrow> devices_represent encodeKey rs d' = devices_represent encodeKey rs d"
  by (simp add: devices_represent_def)

lemma links_cong: "(\<And>x y. R x y = R' x y) \<Longrightarrow> links row rs R \<Longrightarrow> links row rs R'"
  by (simp add: links_def)

section \<open>Writes\<close>

lemma sd_addConversationMember_refines:
  assumes laws: "postgrest_laws fetch key rows jsonb" and rep: "directory_represents encodeKey rows db d"
    and "sql_text c" "sql_text a" "\<not> isConversationMember d c a"
  shows "\<exists>db'. sd_addConversationMember fetch key c a db = (Inr (), db') \<and>
    directory_represents encodeKey rows db' (addConversationMember d c a)"
proof -
  obtain db' where db': "sd_addConversationMember fetch key c a db = (Inr (), db')"
    "rows db' = (rows db)(''realtime_conversation_members'' := rows db ''realtime_conversation_members'' @ [members.row c a])"
    using members.insert_new [where rows = rows and db = db and conflict = "''conversation_id,account_id''", OF laws directoryD(2) [OF rep] assms(3-5)]
    by (auto simp: sd_addConversationMember_def link_row_def)
  have "links members.row (rows db ''realtime_conversation_members'' @ [members.row c a])
      (isConversationMember (addConversationMember d c a))"
    by (rule links_cong [OF _ members.links_add [OF directoryD(2) [OF rep] assms(5)]])
      (simp add: memory_directory.member_add [OF directoryD(1) [OF rep]])
  then have "directory_represents encodeKey rows db' (addConversationMember d c a)"
    using rep by (simp add: directory_represents_def db'(2) addMember_frame directory_ok_addMember devices_same [OF addMember_frame(3)])
  with db'(1) show ?thesis by blast
qed

lemma sd_addRelationship_refines:
  assumes laws: "postgrest_laws fetch key rows jsonb" and rep: "directory_represents encodeKey rows db d"
    and "sql_text a" "sql_text b" "\<not> hasRelationship d a b" "a \<noteq> b"
  shows "\<exists>db'. sd_addRelationship fetch key a b db = (Inr (), db') \<and>
    directory_represents encodeKey rows db' (addRelationship d a b)"
proof -
  note ok = directoryD(1) [OF rep]
  have sym: "\<not> hasRelationship d b a" using assms(5) memory_directory.related_sym [OF ok] by blast
  obtain db' where db': "sd_addRelationship fetch key a b db = (Inr (), db')"
    "rows db' = (rows db)(''realtime_contacts'' := (rows db ''realtime_contacts'' @ [contacts.row a b]) @ [contacts.row b a])"
    using contacts.insert_both [where rows = rows and db = db and conflict = "''account_id,peer_id''", OF laws directoryD(3) [OF rep] assms(3-5) sym assms(6)]
    by (auto simp: sd_addRelationship_def link_row_def)
  have "links contacts.row ((rows db ''realtime_contacts'' @ [contacts.row a b]) @ [contacts.row b a])
      (hasRelationship (addRelationship d a b))"
    by (rule links_cong [OF _ contacts.links_add [OF contacts.links_add [OF directoryD(3) [OF rep] assms(5)]]])
      (use sym assms(6) in \<open>auto simp: memory_directory.related_relate [OF ok]\<close>)
  then have "directory_represents encodeKey rows db' (addRelationship d a b)"
    using rep by (simp add: directory_represents_def db'(2) addRelationship_frame directory_ok_addRelationship
        devices_same [OF addRelationship_frame(3)])
  with db'(1) show ?thesis by blast
qed

lemma sd_allowPresence_refines:
  assumes laws: "postgrest_laws fetch key rows jsonb" and rep: "directory_represents encodeKey rows db d"
    and "sql_text s" "sql_text v" "v \<notin> set (presenceAudience d s)"
  shows "\<exists>db'. sd_allowPresence fetch key s v db = (Inr (), db') \<and>
    directory_represents encodeKey rows db' (allowPresence d s v)"
proof -
  obtain db' where db': "sd_allowPresence fetch key s v db = (Inr (), db')"
    "rows db' = (rows db)(''realtime_presence_audience'' := rows db ''realtime_presence_audience'' @ [viewers.row s v])"
    using viewers.insert_new [where rows = rows and db = db and conflict = "''subject_id,viewer_id''", OF laws directoryD(4) [OF rep] assms(3-5)]
    by (auto simp: sd_allowPresence_def link_row_def)
  have "links viewers.row (rows db ''realtime_presence_audience'' @ [viewers.row s v])
      (\<lambda>s' v'. v' \<in> set (presenceAudience (allowPresence d s v) s'))"
    by (rule links_cong [OF _ viewers.links_add [OF directoryD(4) [OF rep] assms(5)]])
      (simp add: memory_directory.audience_allow [OF directoryD(1) [OF rep]])
  then have "directory_represents encodeKey rows db' (allowPresence d s v)"
    using rep by (simp add: directory_represents_def db'(2) allowPresence_frame directory_ok_allowPresence
        devices_same [OF allowPresence_frame(3)])
  with db'(1) show ?thesis by blast
qed

text \<open>A device can never be written: \<open>device_name\<close> and \<open>platform\<close> are required and not sent.\<close>

lemma sd_upsertDevice_refused:
  assumes "postgrest_laws fetch key rows jsonb"
  shows "\<exists>status \<in> {400, 409}. sd_upsertDevice encodeKey fetch key r db = (Inl (TableFailed ''devices'' ''POST'' status), db)"
proof -
  have "list_all (plain_row ''devices'') [sd_device_row encodeKey r]"
    by (simp add: plain_row_def schema sd_device_row_def)
  moreover have "[stringified (JObj (sd_device_row encodeKey r))] = map JObj [sd_device_row encodeKey r]"
    by (simp add: sd_device_row_def)
  moreover have "\<not> row_fits ''devices'' (sd_device_row encodeKey r)"
    by (simp add: row_fits_def schema sd_device_row_def column_fits_def)
  then have "insert_rows jsonb ''devices'' [sd_device_row encodeKey r] (rows db ''devices'') = None" by simp
  ultimately show ?thesis
    unfolding sd_upsertDevice_def
    by (intro sd_insert(1) [where rows = rows and db = db and new = "[sd_device_row encodeKey r]", OF assms link_schema(7)] disjI2) simp_all
qed

text \<open>Revoking a device always reports success, whether the device is there or not.\<close>

lemma update_request_sent:
  assumes laws: "postgrest_laws fetch key rows jsonb" and "sql_text i"
  shows "\<exists>db'. sd_revokeDevice fetch key i db = (Inr True, db') \<and>
    rows db' = (rows db)(''devices'' := updated (EqText ''device_id'' i) ''status'' (JStr ''revoked'') (rows db ''devices''))"
proof -
  have "update_law fetch key rows" using laws by (simp add: postgrest_laws_def)
  moreover have "sql_text ''revoked''" by (simp add: sql_text_def)
  ultimately obtain db' out where
    "rows db' = (rows db)(''devices'' := updated (EqText ''device_id'' i) ''status'' (JStr ''revoked'') (rows db ''devices''))"
    "fetch (update_request ((table_only ''devices'')\<lparr>tq_filters := [EqText ''device_id'' i]\<rparr>) (JObj [(''status'', JStr ''revoked'')]) key) db =
      (Some \<lparr>rs_status = 200, rs_body = JsonText (JArr out)\<rparr>, db')"
    using assms(2) unfolding update_law_def only_table_def by blast
  then show ?thesis by (simp add: sd_revokeDevice_def sd_write_def sd_rest_def response_ok_def)
qed

lemma updated_filter:
  "filter (has_text ''device_id'' j) (updated (EqText ''device_id'' i) ''status'' v rs) =
    (if j = i then map (map_set ''status'' v) (filter (has_text ''device_id'' i) rs) else filter (has_text ''device_id'' j) rs)"
  unfolding updated_def has_text_def [abs_def] by (induction rs) auto

lemma sd_revokeDevice_refines:
  assumes laws: "postgrest_laws fetch key rows jsonb" and rep: "directory_represents encodeKey rows db d" and "sql_text i"
  shows "\<exists>db'. sd_revokeDevice fetch key i db = (Inr True, db') \<and>
    directory_represents encodeKey rows db' (snd (revokeDevice d i))"
proof -
  obtain db' where db': "sd_revokeDevice fetch key i db = (Inr True, db')"
    "rows db' = (rows db)(''devices'' := updated (EqText ''device_id'' i) ''status'' (JStr ''revoked'') (rows db ''devices''))"
    using update_request_sent [OF laws assms(3)] by blast
  have get: "getDevice (snd (revokeDevice d i)) j =
      (if j = i then map_option (\<lambda>r. r\<lparr>dev_status := Revoked\<rparr>) (getDevice d i) else getDevice d j)" for j
    by (auto simp: revokeDevice_def getDevice_def split: option.splits)
  have revoked: "describes_device encodeKey (map_set ''status'' (JStr ''revoked'') row) (r\<lparr>dev_status := Revoked\<rparr>)"
    if "describes_device encodeKey row r" for row r
    using that by (simp add: describes_device_def device_status_text_def)
  have "devices_represent encodeKey (updated (EqText ''device_id'' i) ''status'' (JStr ''revoked'') (rows db ''devices''))
      (snd (revokeDevice d i))"
    unfolding devices_represent_def updated_filter
  proof
    fix j
    from directoryD(5) [OF rep, unfolded devices_represent_def, rule_format, of j]
    show "case getDevice (snd (revokeDevice d i)) j of
        None \<Rightarrow> (if j = i then map (map_set ''status'' (JStr ''revoked'')) (filter (has_text ''device_id'' i) (rows db ''devices''))
          else filter (has_text ''device_id'' j) (rows db ''devices'')) = []
      | Some r \<Rightarrow> \<exists>row. (if j = i then map (map_set ''status'' (JStr ''revoked'')) (filter (has_text ''device_id'' i) (rows db ''devices''))
          else filter (has_text ''device_id'' j) (rows db ''devices'')) = [row] \<and> describes_device encodeKey row r"
      by (cases "j = i"; cases "getDevice d j") (auto simp: get revoked)
  qed
  then have "directory_represents encodeKey rows db' (snd (revokeDevice d i))"
    using rep by (simp add: directory_represents_def db'(2) revokeDevice_frame directory_ok_revokeDevice)
  with db'(1) show ?thesis by blast
qed


section \<open>Reads\<close>

lemma read_one_row:
  assumes "query_fits (read_query t [EqText col v] cols (Some 1))" and "postgrest_laws fetch key rows jsonb"
    and one: "length (filter (has_text col v) (rows db t)) \<le> 1"
  shows "sd_rest fetch key Get (read_query t [EqText col v] cols (Some 1)) None db =
    (Inr (JArr (map JObj (map (chosen (Some cols)) (filter (has_text col v) (rows db t))))), db)"
proof -
  let ?q = "read_query t [EqText col v] cols (Some 1)"
  have "within_max_rows ?q (rows db t)" by (simp add: within_max_rows_def max_rows_def read_query_def table_only_def)
  then obtain out where out: "rows_read ?q (rows db t) out"
    "fetch (read_request ?q key) db = (Some \<lparr>rs_status = 200, rs_body = JsonText (JArr (map JObj out))\<rparr>, db)"
    using lawsD(1) [OF assms(2), unfolded read_law_def, rule_format, of ?q db] assms(1) by auto
  then show ?thesis unfolding rows_read_one [OF one] by (simp add: sd_rest_def response_ok_def)
qed

lemma map_of_columns: "col \<in> set cols \<Longrightarrow> map_of (filter (\<lambda>(k, v). k \<in> set cols) row) col = map_of row col"
  by (induction row) auto

lemma normalize_status [simp]: "normalizeStatus (Some (JStr (device_status_text st))) = st"
  by (cases st) (simp_all add: normalizeStatus_def device_status_text_def)

lemma sd_getDevice_refines:
  assumes laws: "postgrest_laws fetch key rows jsonb" and rep: "directory_represents encodeKey rows db d" and i: "sql_text i"
    and base64: "\<And>bs. decodeKey (encodeKey bs) = bs"
  shows "sd_getDevice decodeKey fetch key i db = (Inr (getDevice d i), db)"
proof -
  let ?cols = "[''account_id'', ''device_id'', ''nova_id'', ''public_key'', ''status'']"
  note here = directoryD(5) [OF rep, unfolded devices_represent_def, rule_format, of i]
  have "query_fits (read_query ''devices'' [EqText ''device_id'' i] ?cols (Some 1))"
    unfolding query_fits_def using link_schema(7,17,18) i by (simp add: read_query_def table_only_def)
  moreover have "length (filter (has_text ''device_id'' i) (rows db ''devices'')) \<le> 1"
    using here by (auto split: option.splits)
  ultimately have read: "sd_rest fetch key Get (read_query ''devices'' [EqText ''device_id'' i] ?cols (Some 1)) None db =
      (Inr (JArr (map JObj (map (chosen (Some ?cols)) (filter (has_text ''device_id'' i) (rows db ''devices''))))), db)"
    by (intro read_one_row [where rows = rows and db = db, OF _ laws])
  have chosen: "map_of (chosen (Some ?cols) row) col = map_of row col" if "col \<in> set ?cols" for col row
    using map_of_columns [OF that, of row] by (simp add: chosen_def)
  have "device_of_row decodeKey (chosen (Some ?cols) row) = Inr r" if "describes_device encodeKey row r" for row r
    using that by (cases r) (simp add: device_of_row_def chosen describes_device_def base64)
  then show ?thesis
    using here unfolding sd_getDevice_def read
    by (cases "getDevice d i") (auto simp: read_one_def)
qed

lemma sd_isConversationMember_refines:
  assumes laws: "postgrest_laws fetch key rows jsonb" and rep: "directory_represents encodeKey rows db d"
    and "sql_text c" "sql_text a"
  shows "sd_isConversationMember fetch key c a db = (Inr (isConversationMember d c a), db)"
  using members.exists_refines [where rows = rows and db = db, OF laws directoryD(2) [OF rep] assms(3,4) link_schema(15)]
  by (simp add: sd_isConversationMember_def)

lemma sd_hasRelationship_refines:
  assumes laws: "postgrest_laws fetch key rows jsonb" and rep: "directory_represents encodeKey rows db d"
    and "sql_text a" "sql_text b"
  shows "sd_hasRelationship fetch key a b db = (Inr (hasRelationship d a b), db)"
  using contacts.exists_refines [where rows = rows and db = db, OF laws directoryD(3) [OF rep] assms(3,4) link_schema(16)]
  by (simp add: sd_hasRelationship_def)

lemma sd_listConversations_refines:
  assumes laws: "postgrest_laws fetch key rows jsonb" and rep: "directory_represents encodeKey rows db d"
    and "sql_text a" and "length (listConversationsForAccount d a) \<le> max_rows"
  shows "\<exists>cs. sd_listConversationsForAccount fetch key a db = (Inr cs, db) \<and> distinct cs \<and>
    set cs = set (listConversationsForAccount d a)"
proof -
  note ok = directoryD(1) [OF rep]
  have set: "{c. isConversationMember d c a} = set (listConversationsForAccount d a)"
    using memory_directory.conversations_member [OF ok] by blast
  have "card {c. isConversationMember d c a} \<le> max_rows"
    using assms(4) card_length le_trans unfolding set by blast
  from members.column_refines [where rows = rows and db = db, OF laws directoryD(2) [OF rep] assms(3) disjI2 [OF refl] this]
  show ?thesis by (simp add: sd_listConversationsForAccount_def set)
qed

lemma sd_presenceAudience_refines:
  assumes laws: "postgrest_laws fetch key rows jsonb" and rep: "directory_represents encodeKey rows db d"
    and "sql_text s" and "length (presenceAudience d s) \<le> max_rows"
  shows "\<exists>vs. sd_presenceAudience fetch key s db = (Inr vs, db) \<and> distinct vs \<and> set vs = set (presenceAudience d s)"
proof -
  have set: "{v. v \<in> set (presenceAudience d s)} = set (presenceAudience d s)" by blast
  have "card {v. v \<in> set (presenceAudience d s)} \<le> max_rows"
    using assms(4) card_length le_trans unfolding set by blast
  from viewers.column_refines [where rows = rows and db = db, OF laws directoryD(4) [OF rep] assms(3) disjI1 [OF refl] this]
  show ?thesis by (simp add: sd_presenceAudience_def set)
qed


section \<open>Runs of directory operations\<close>

datatype directory_op =
    GetDevice string
  | RevokeDevice string
  | IsMember string string
  | AddMember string string
  | Conversations string
  | HasContact string string
  | AddContact string string
  | Audience string
  | AllowViewer string string

datatype directory_answer = Flag bool | Names "string list" | Device "device_record option" | Written

fun memory_directory_op :: "directory_op \<Rightarrow> memory_directory \<Rightarrow> directory_answer \<times> memory_directory" where
  "memory_directory_op (GetDevice i) d = (Device (getDevice d i), d)"
| "memory_directory_op (RevokeDevice i) d = (let (found, d') = revokeDevice d i in (Flag found, d'))"
| "memory_directory_op (IsMember c a) d = (Flag (isConversationMember d c a), d)"
| "memory_directory_op (AddMember c a) d = (Written, addConversationMember d c a)"
| "memory_directory_op (Conversations a) d = (Names (listConversationsForAccount d a), d)"
| "memory_directory_op (HasContact a b) d = (Flag (hasRelationship d a b), d)"
| "memory_directory_op (AddContact a b) d = (Written, addRelationship d a b)"
| "memory_directory_op (Audience s) d = (Names (presenceAudience d s), d)"
| "memory_directory_op (AllowViewer s v) d = (Written, allowPresence d s v)"

definition reply :: "('a \<Rightarrow> directory_answer) \<Rightarrow> (store_error + 'a) \<times> 'db \<Rightarrow> (store_error + directory_answer) \<times> 'db" where
  "reply f r = (case r of (Inl err, db) \<Rightarrow> (Inl err, db) | (Inr v, db) \<Rightarrow> (Inr (f v), db))"

lemma reply_simps [simp]: "reply f (Inr v, db) = (Inr (f v), db)" "reply f (Inl err, db) = (Inl err, db)"
  by (simp_all add: reply_def)

fun sd_op :: "(string \<Rightarrow> byte list) \<Rightarrow> 'db rest_fetch \<Rightarrow> string \<Rightarrow> directory_op \<Rightarrow> 'db \<Rightarrow> (store_error + directory_answer) \<times> 'db" where
  "sd_op decodeKey fetch key (GetDevice i) db = reply Device (sd_getDevice decodeKey fetch key i db)"
| "sd_op decodeKey fetch key (RevokeDevice i) db = reply Flag (sd_revokeDevice fetch key i db)"
| "sd_op decodeKey fetch key (IsMember c a) db = reply Flag (sd_isConversationMember fetch key c a db)"
| "sd_op decodeKey fetch key (AddMember c a) db = reply (\<lambda>_. Written) (sd_addConversationMember fetch key c a db)"
| "sd_op decodeKey fetch key (Conversations a) db = reply Names (sd_listConversationsForAccount fetch key a db)"
| "sd_op decodeKey fetch key (HasContact a b) db = reply Flag (sd_hasRelationship fetch key a b db)"
| "sd_op decodeKey fetch key (AddContact a b) db = reply (\<lambda>_. Written) (sd_addRelationship fetch key a b db)"
| "sd_op decodeKey fetch key (Audience s) db = reply Names (sd_presenceAudience fetch key s db)"
| "sd_op decodeKey fetch key (AllowViewer s v) db = reply (\<lambda>_. Written) (sd_allowPresence fetch key s v db)"

fun memory_directory_ops :: "directory_op list \<Rightarrow> memory_directory \<Rightarrow> directory_answer list \<times> memory_directory" where
  "memory_directory_ops [] d = ([], d)"
| "memory_directory_ops (op # ops) d =
     (let (v, d1) = memory_directory_op op d; (vs, d2) = memory_directory_ops ops d1 in (v # vs, d2))"

fun sd_ops ::
  "(string \<Rightarrow> byte list) \<Rightarrow> 'db rest_fetch \<Rightarrow> string \<Rightarrow> directory_op list \<Rightarrow> 'db \<Rightarrow> (store_error + directory_answer) list \<times> 'db" where
  "sd_ops decodeKey fetch key [] db = ([], db)"
| "sd_ops decodeKey fetch key (op # ops) db =
     (let (v, db1) = sd_op decodeKey fetch key op db; (vs, db2) = sd_ops decodeKey fetch key ops db1 in (v # vs, db2))"

text \<open>Texts without NUL, lists of at most \<open>max_rows\<close>, known devices, and links that are not there yet.\<close>

fun directory_op_ok :: "memory_directory \<Rightarrow> directory_op \<Rightarrow> bool" where
  "directory_op_ok d (GetDevice i) \<longleftrightarrow> sql_text i"
| "directory_op_ok d (RevokeDevice i) \<longleftrightarrow> sql_text i \<and> getDevice d i \<noteq> None"
| "directory_op_ok d (IsMember c a) \<longleftrightarrow> sql_text c \<and> sql_text a"
| "directory_op_ok d (AddMember c a) \<longleftrightarrow> sql_text c \<and> sql_text a \<and> \<not> isConversationMember d c a"
| "directory_op_ok d (Conversations a) \<longleftrightarrow> sql_text a \<and> length (listConversationsForAccount d a) \<le> max_rows"
| "directory_op_ok d (HasContact a b) \<longleftrightarrow> sql_text a \<and> sql_text b"
| "directory_op_ok d (AddContact a b) \<longleftrightarrow> sql_text a \<and> sql_text b \<and> \<not> hasRelationship d a b \<and> a \<noteq> b"
| "directory_op_ok d (Audience s) \<longleftrightarrow> sql_text s \<and> length (presenceAudience d s) \<le> max_rows"
| "directory_op_ok d (AllowViewer s v) \<longleftrightarrow> sql_text s \<and> sql_text v \<and> v \<notin> set (presenceAudience d s)"

fun directory_ops_ok :: "memory_directory \<Rightarrow> directory_op list \<Rightarrow> bool" where
  "directory_ops_ok d [] \<longleftrightarrow> True"
| "directory_ops_ok d (op # ops) \<longleftrightarrow> directory_op_ok d op \<and> directory_ops_ok (snd (memory_directory_op op d)) ops"

text \<open>The same answer: a list of names in any order, each once.\<close>

fun same_answer :: "store_error + directory_answer \<Rightarrow> directory_answer \<Rightarrow> bool" where
  "same_answer (Inr (Names xs)) (Names ys) \<longleftrightarrow> distinct xs \<and> set xs = set ys"
| "same_answer (Inr v) w \<longleftrightarrow> v = w"
| "same_answer (Inl err) w \<longleftrightarrow> False"

lemma sd_op_refines:
  assumes laws: "postgrest_laws fetch key rows jsonb" and base64: "\<And>bs. decodeKey (encodeKey bs) = bs"
    and rep: "directory_represents encodeKey rows db d" and "directory_op_ok d op"
  shows "\<exists>v db'. sd_op decodeKey fetch key op db = (Inr v, db') \<and> same_answer (Inr v) (fst (memory_directory_op op d)) \<and>
    directory_represents encodeKey rows db' (snd (memory_directory_op op d))"
proof (cases op)
  case (GetDevice i)
  then show ?thesis using assms(4) rep sd_getDevice_refines [where decodeKey = decodeKey, OF laws rep _ base64, of i] by simp
next
  case (RevokeDevice i)
  moreover have "fst (revokeDevice d i)" if "getDevice d i \<noteq> None"
    using that by (auto simp: revokeDevice_def getDevice_def)
  ultimately show ?thesis
    using assms(4) sd_revokeDevice_refines [OF laws rep, of i] by (auto simp: case_prod_beta)
next
  case (IsMember c a)
  then show ?thesis using assms(4) rep sd_isConversationMember_refines [OF laws rep, of c a] by simp
next
  case (AddMember c a)
  then show ?thesis using assms(4) sd_addConversationMember_refines [OF laws rep, of c a] by auto
next
  case (Conversations a)
  then show ?thesis using assms(4) rep sd_listConversations_refines [OF laws rep, of a] by auto
next
  case (HasContact a b)
  then show ?thesis using assms(4) rep sd_hasRelationship_refines [OF laws rep, of a b] by simp
next
  case (AddContact a b)
  then show ?thesis using assms(4) sd_addRelationship_refines [OF laws rep, of a b] by auto
next
  case (Audience s)
  then show ?thesis using assms(4) rep sd_presenceAudience_refines [OF laws rep, of s] by auto
next
  case (AllowViewer s v)
  then show ?thesis using assms(4) sd_allowPresence_refines [OF laws rep, of s v] by auto
qed

section \<open>Properties\<close>

text \<open>
  C25: the Supabase directory refines the memory directory. From a database that represents a
  memory directory, any run of operations that writes no link twice and revokes known devices
  gives the answers of \<open>MemoryDirectory\<close> over PostgREST (lists of names in any order), fails
  nowhere, and ends in a database that represents the end of the memory run.
\<close>

theorem supabase_directory_refines:
  assumes "postgrest_laws fetch key rows jsonb" and "\<And>bs. decodeKey (encodeKey bs) = bs"
    and "directory_represents encodeKey rows db d" and "directory_ops_ok d ops"
  shows "list_all2 same_answer (fst (sd_ops decodeKey fetch key ops db)) (fst (memory_directory_ops ops d)) \<and>
    directory_represents encodeKey rows (snd (sd_ops decodeKey fetch key ops db)) (snd (memory_directory_ops ops d))"
  using assms(3,4)
proof (induction ops arbitrary: db d)
  case Nil
  then show ?case by simp
next
  case (Cons op ops)
  obtain w d1 where d1: "memory_directory_op op d = (w, d1)" by fastforce
  obtain v db1 where db1: "sd_op decodeKey fetch key op db = (Inr v, db1)" "same_answer (Inr v) w"
    "directory_represents encodeKey rows db1 d1"
    using sd_op_refines [where decodeKey = decodeKey, OF assms(1,2) Cons.prems(1), of op] Cons.prems(2) d1 by auto
  show ?case
    using Cons.IH [OF db1(3)] Cons.prems(2) d1 db1(2) by (simp add: db1(1) case_prod_beta)
qed

definition letters :: "byte list \<Rightarrow> string" where
  "letters bs = map (\<lambda>b. char_of (unat b)) bs"

definition unletters :: "string \<Rightarrow> byte list" where
  "unletters s = map (\<lambda>ch. word_of_nat (of_char ch)) s"

lemma unletters_letters: "unletters (letters bs) = bs"
proof -
  have "unat b < 256" for b :: byte by (rule order_less_le_trans [OF unsigned_less]) simp
  then have "word_of_nat (of_char (char_of (unat b :: nat) :: char)) = b" for b :: byte by simp
  then show ?thesis by (simp add: unletters_def letters_def o_def)
qed

definition sample_device :: device_record where
  "sample_device = \<lparr>dev_accountId = ''alice'', dev_deviceId = ''d1'', dev_novaId = ''n1'', dev_ed25519PublicKey = [1, 2, 3],
     dev_status = Active\<rparr>"

definition sample_directory :: memory_directory where
  "sample_directory = upsertDevice new_directory sample_device"

definition sample_tables :: "string \<Rightarrow> fields list" where
  "sample_tables t = (if t = ''devices''
     then [sd_device_row letters sample_device @ [(''device_name'', JStr ''phone''), (''platform'', JStr ''android'')]] else [])"

lemma sample_directory_empty:
  "isConversationMember sample_directory c a = False" "hasRelationship sample_directory a b = False"
  "presenceAudience sample_directory s = []"
  by (simp_all add: sample_directory_def upsertDevice_def new_directory_def isConversationMember_def hasRelationship_def
      presenceAudience_def get_set_def)

lemma sample_represents: "directory_represents letters (\<lambda>db. db) sample_tables sample_directory"
proof -
  have none: "links row [] (\<lambda>x y. False)" for row by (simp add: links_def)
  have get: "getDevice sample_directory i = (if i = ''d1'' then Some sample_device else None)" for i
    by (simp add: sample_directory_def getDevice_def upsertDevice_def new_directory_def sample_device_def)
  have "devices_represent letters (sample_tables ''devices'') sample_directory"
    by (simp add: devices_represent_def get sample_tables_def has_text_def sd_device_row_def describes_device_def sample_device_def)
  moreover have "directory_ok sample_directory"
    by (simp add: sample_directory_def directory_ok_upsertDevice directory_ok_new)
  ultimately show ?thesis
    using none by (simp add: directory_represents_def sample_directory_empty [abs_def] sample_tables_def)
qed

definition sample_directory_ops :: "directory_op list" where
  "sample_directory_ops = [GetDevice ''d1'', AddMember ''c'' ''alice'', IsMember ''c'' ''alice'', Conversations ''alice'',
     AddContact ''alice'' ''bob'', HasContact ''bob'' ''alice'', AllowViewer ''alice'' ''bob'', Audience ''alice'',
     RevokeDevice ''d1'', GetDevice ''d1'']"

lemma sample_directory_ops_ok: "directory_ops_ok sample_directory sample_directory_ops"
  by (simp add: sample_directory_ops_def sql_text_def sample_directory_def new_directory_def upsertDevice_def sample_device_def
      addConversationMember_def addRelationship_def allowPresence_def add_to_set_def Let_def isConversationMember_def
      hasRelationship_def presenceAudience_def listConversationsForAccount_def get_set_def set_add_def getDevice_def max_rows_def)

theorem supabase_directory_refines_witness:
  "list_all2 same_answer (fst (sd_ops unletters sample_fetch ''key'' sample_directory_ops sample_tables))
     (fst (memory_directory_ops sample_directory_ops sample_directory))"
  using supabase_directory_refines [where decodeKey = unletters,
      OF sample_postgrest_laws unletters_letters sample_represents sample_directory_ops_ok]
  by blast

text \<open>
  C27: with the Supabase backends a write of what is already there fails, where the memory
  backends accept it: the header \<open>Prefer: return=minimal\<close> asks for no upsert, so
  \<open>on_conflict\<close> has no effect. A second presence of an account, a stored message, a membership, a
  contact, a viewer: each is a 400 or 409, thrown, and nothing changes; a later read gives the
  old presence. A contact with oneself fails as well, and so does every \<open>upsertDevice\<close>, since
  \<open>device_name\<close> and \<open>platform\<close> are required and not sent. \<open>revokeDevice\<close> of a device that is
  not there answers true.
\<close>

theorem supabase_repeated_writes_refused:
  assumes laws: "postgrest_laws fetch key rows jsonb"
    and store: "store_represents rows jsonb db st" and directory: "directory_represents encodeKey rows db d"
  shows "(getPresence st (pr_accountId r) = Some old \<and> sql_text (pr_accountId r) \<longrightarrow>
      (\<exists>status \<in> {400, 409}. sb_setPresence fetch key r db = (Inl (RestFailed ''POST'' status), db)) \<and>
      sb_getPresence fetch key (pr_accountId r) db = (Inr (Some old), db)) \<and>
    (findMessage st (sm_messageId m) \<noteq> None \<longrightarrow>
      (\<exists>status \<in> {400, 409}. sb_persistMessage fetch key m db = (Inl (RestFailed ''POST'' status), db))) \<and>
    (isConversationMember d c a \<longrightarrow>
      (\<exists>status \<in> {400, 409}. sd_addConversationMember fetch key c a db =
        (Inl (TableFailed ''realtime_conversation_members'' ''POST'' status), db))) \<and>
    (hasRelationship d x y \<or> x = y \<longrightarrow>
      (\<exists>status \<in> {400, 409}. sd_addRelationship fetch key x y db = (Inl (TableFailed ''realtime_contacts'' ''POST'' status), db))) \<and>
    (v \<in> set (presenceAudience d s) \<longrightarrow>
      (\<exists>status \<in> {400, 409}. sd_allowPresence fetch key s v db =
        (Inl (TableFailed ''realtime_presence_audience'' ''POST'' status), db))) \<and>
    (\<exists>status \<in> {400, 409}. sd_upsertDevice encodeKey fetch key device db = (Inl (TableFailed ''devices'' ''POST'' status), db)) \<and>
    (sql_text i \<and> getDevice d i = None \<longrightarrow> fst (sd_revokeDevice fetch key i db) = Inr True \<and> fst (revokeDevice d i) = False)"
proof (intro conjI impI)
  assume "getPresence st (pr_accountId r) = Some old \<and> sql_text (pr_accountId r)"
  then show "\<exists>status \<in> {400, 409}. sb_setPresence fetch key r db = (Inl (RestFailed ''POST'' status), db)"
    and "sb_getPresence fetch key (pr_accountId r) db = (Inr (Some old), db)"
    using sb_setPresence_refused [OF laws store, of r] sb_getPresence_refines [OF laws store, of "pr_accountId r"] by auto
next
  assume "findMessage st (sm_messageId m) \<noteq> None"
  then show "\<exists>status \<in> {400, 409}. sb_persistMessage fetch key m db = (Inl (RestFailed ''POST'' status), db)"
    using sb_persistMessage_refused [OF laws store, of m] by blast
next
  assume "isConversationMember d c a"
  then show "\<exists>status \<in> {400, 409}. sd_addConversationMember fetch key c a db =
      (Inl (TableFailed ''realtime_conversation_members'' ''POST'' status), db)"
    using members.insert_taken [where rows = rows and db = db, OF laws directoryD(2) [OF directory]]
    by (simp add: sd_addConversationMember_def link_row_def)
next
  assume "hasRelationship d x y \<or> x = y"
  then show "\<exists>status \<in> {400, 409}. sd_addRelationship fetch key x y db = (Inl (TableFailed ''realtime_contacts'' ''POST'' status), db)"
    using contacts.insert_both_taken [where rows = rows and db = db and x = x and y = y, OF laws directoryD(3) [OF directory]]
    by (auto simp: sd_addRelationship_def link_row_def)
next
  assume "v \<in> set (presenceAudience d s)"
  then show "\<exists>status \<in> {400, 409}. sd_allowPresence fetch key s v db =
      (Inl (TableFailed ''realtime_presence_audience'' ''POST'' status), db)"
    using viewers.insert_taken [where rows = rows and db = db, OF laws directoryD(4) [OF directory]]
    by (simp add: sd_allowPresence_def link_row_def)
next
  show "\<exists>status \<in> {400, 409}. sd_upsertDevice encodeKey fetch key device db = (Inl (TableFailed ''devices'' ''POST'' status), db)"
    by (rule sd_upsertDevice_refused [OF laws])
next
  assume "sql_text i \<and> getDevice d i = None"
  then show "fst (sd_revokeDevice fetch key i db) = Inr True" and "fst (revokeDevice d i) = False"
    using update_request_sent [OF laws, of i db] by (auto simp: getDevice_def revokeDevice_def)
qed

text \<open>The first presence of an account is written, the second and every device refused.\<close>

theorem supabase_repeated_writes_refused_witness:
  "\<exists>db status. sb_setPresence sample_fetch ''key'' sample_presence sample_tables = (Inr (), db) \<and>
     sb_setPresence sample_fetch ''key'' (sample_presence\<lparr>pr_status := Offline\<rparr>) db = (Inl (RestFailed ''POST'' status), db) \<and>
     sb_getPresence sample_fetch ''key'' ''alice'' db = (Inr (Some sample_presence), db)"
proof -
  have store: "store_represents (\<lambda>db. db) (\<lambda>fs. fs) sample_tables new_store"
    by (simp add: store_represents_def store_ok_new sample_tables_def)
      (simp add: new_store_def latestSeq_def latestLogSeq_def findMessage_def getPresence_def)
  have none: "getPresence new_store a = None" for a by (simp add: new_store_def getPresence_def)
  obtain db where db: "sb_setPresence sample_fetch ''key'' sample_presence sample_tables = (Inr (), db)"
    "store_represents (\<lambda>db. db) (\<lambda>fs. fs) db (setPresence new_store sample_presence)"
    "db ''realtime_conversation_members'' = []" "db ''realtime_contacts'' = []" "db ''realtime_presence_audience'' = []"
    "db ''devices'' = sample_tables ''devices''"
    using setPresence_tables [where key = "''key''", OF sample_postgrest_laws store sample_fits(2) none]
    by (elim exE conjE) (auto simp: sample_tables_def)
  have directory: "directory_represents letters (\<lambda>db. db) db sample_directory"
    using sample_represents by (simp add: directory_represents_def db(3-6) sample_tables_def)
  let ?again = "sample_presence\<lparr>pr_status := Offline\<rparr>"
  have again: "pr_accountId ?again = ''alice''" by (simp add: sample_presence_def)
  have "getPresence (setPresence new_store sample_presence) (pr_accountId ?again) = Some sample_presence \<and> sql_text (pr_accountId ?again)"
    by (simp add: presence_set sample_presence_def sql_text_def)
  from supabase_repeated_writes_refused [where key = "''key''" and r = ?again and old = sample_presence,
      OF sample_postgrest_laws db(2) directory, THEN conjunct1, THEN mp, OF this]
  show ?thesis using db(1) unfolding again by blast
qed

end
