(* ===== verification/Entry_Point.thy ===== *)
theory Entry_Point
  imports Server_State Supabase_Directory
begin

text \<open>
  \<^verbatim>\<open>server/src/index.ts\<close> and the lifecycle of \<^verbatim>\<open>realtime_server.ts\<close>: which backends a
  process runs on, the port, the start-up line and the shutdown. The port the operating system
  binds is the parameter \<open>bind\<close>; a start that throws ends the process.
\<close>

section \<open>Start\<close>

datatype backends = InMemory | InSupabase "string \<times> string" "string \<times> string"

datatype boot_error = MissingCredentials | BadPort

text \<open>The directory is built before the store; a constructor without credentials throws.\<close>

definition main_backends :: "realtime_config \<Rightarrow> backends option" where
  "main_backends config =
     (case cf_storeBackend config of
        MemoryBackend \<Rightarrow> Some InMemory
      | SupabaseBackend \<Rightarrow>
          (case new_supabase_directory (cf_supabaseUrl config) (cf_supabaseServiceRoleKey config) of
             None \<Rightarrow> None
           | Some dir \<Rightarrow>
               (case new_supabase_store (cf_supabaseUrl config) (cf_supabaseServiceRoleKey config) of
                  None \<Rightarrow> None
                | Some st \<Rightarrow> Some (InSupabase dir st))))"

text \<open>\<open>parseInt(process.env.PORT ?? '4000', 10)\<close>; Node refuses a port that is no 16-bit number.\<close>

definition boot_port :: "process_env \<Rightarrow> int option" where
  "boot_port penv =
     (case parseInt (or_default (penv ''PORT'') ''4000'') of
        None \<Rightarrow> None
      | Some port \<Rightarrow> if 0 \<le> port \<and> port < 65536 then Some port else None)"

definition backend_name :: "store_backend \<Rightarrow> string" where
  "backend_name b = (case b of MemoryBackend \<Rightarrow> ''memory'' | SupabaseBackend \<Rightarrow> ''supabase'')"

definition startup_line :: "realtime_config \<Rightarrow> int \<Rightarrow> fields" where
  "startup_line config boundPort =
     [(''msg'', JStr ''novaapp-realtime-server up''),
      (''port'', jint boundPort),
      (''socket_path'', JStr (cf_socketPath config)),
      (''transports'', JArr [JStr ''websocket'']),
      (''store'', JStr (backend_name (cf_storeBackend config))),
      (''challenge_ttl_ms'', jint (cf_challengeTtlMs config)),
      (''session_ttl_ms'', jint (cf_sessionTtlMs config)),
      (''admin_api'', JStr (if cf_adminToken config \<noteq> [] then ''token-protected'' else ''open (set ADMIN_TOKEN in prod)''))]"

definition main_boot :: "(int \<Rightarrow> int) \<Rightarrow> process_env \<Rightarrow> boot_error + backends \<times> fields" where
  "main_boot bind penv =
     (let config = configFromEnv penv penv in
      case main_backends config of
        None \<Rightarrow> Inl MissingCredentials
      | Some backends \<Rightarrow>
          (case boot_port penv of
             None \<Rightarrow> Inl BadPort
           | Some port \<Rightarrow> Inr (backends, startup_line config (bind port))))"

section \<open>Stop\<close>

text \<open>\<open>stop\<close>: \<open>system.shutdown\<close> to every socket, then, 30 ms later, all are closed.\<close>

definition stop_effects :: "server \<Rightarrow> effect list" where
  "stop_effects sv =
     map (\<lambda>s. Emit s SystemShutdown [(''reason'', JStr ''server_shutdown'')]) (map fst (sv_sockets sv)) @
     map Disconnect (map fst (sv_sockets sv))"

definition shutdown_line :: "string \<Rightarrow> fields" where
  "shutdown_line signal_name = [(''msg'', JStr ''shutdown''), (''signal'', JStr signal_name)]"

section \<open>What start and stop guarantee\<close>

lemma boot_memory:
  assumes "penv ''STORE_BACKEND'' \<noteq> Some ''supabase''" and "boot_port penv = Some port"
  shows "main_boot bind penv = Inr (InMemory, startup_line (configFromEnv penv penv) (bind port))"
proof -
  have "cf_storeBackend (configFromEnv penv penv) = MemoryBackend" using assms(1) by (simp add: configFromEnv_def Let_def)
  then show ?thesis using assms(2) by (simp add: main_boot_def main_backends_def Let_def)
qed

text \<open>On Supabase the process starts exactly with a URL, a service key and a usable port.\<close>

lemma boot_supabase:
  assumes "penv ''STORE_BACKEND'' = Some ''supabase''"
  shows "(\<exists>r. main_boot bind penv = Inr r) \<longleftrightarrow>
    or_default (penv ''SUPABASE_URL'') [] \<noteq> [] \<and> or_default (penv ''SUPABASE_SERVICE_ROLE_KEY'') [] \<noteq> [] \<and> boot_port penv \<noteq> None"
proof -
  have "cf_storeBackend (configFromEnv penv penv) = SupabaseBackend"
    "cf_supabaseUrl (configFromEnv penv penv) = or_default (penv ''SUPABASE_URL'') []"
    "cf_supabaseServiceRoleKey (configFromEnv penv penv) = or_default (penv ''SUPABASE_SERVICE_ROLE_KEY'') []"
    using assms by (simp_all add: configFromEnv_def Let_def)
  then show ?thesis
    by (auto simp: main_boot_def main_backends_def Let_def new_supabase_directory_def new_supabase_store_def split: option.splits)
qed

text \<open>The start-up line says whether there is an admin token and nothing more about the secrets.\<close>

lemma startup_line_without_secrets:
  assumes "token = [] \<longleftrightarrow> cf_adminToken config = []"
  shows "startup_line (config\<lparr>cf_adminToken := token, cf_supabaseUrl := url, cf_supabaseServiceRoleKey := key\<rparr>) port =
    startup_line config port"
  using assms by (simp add: startup_line_def)

text \<open>Every connected socket hears of the shutdown before it is closed.\<close>

lemma stop_tells_everyone:
  "s \<in> set (map fst (sv_sockets sv)) \<Longrightarrow>
   \<exists>before between after. stop_effects sv =
     before @ Emit s SystemShutdown [(''reason'', JStr ''server_shutdown'')] # between @ Disconnect s # after"
proof -
  assume "s \<in> set (map fst (sv_sockets sv))"
  then obtain xs ys where "map fst (sv_sockets sv) = xs @ s # ys" by (auto dest: split_list)
  then have "stop_effects sv = map (\<lambda>s. Emit s SystemShutdown [(''reason'', JStr ''server_shutdown'')]) xs @
      Emit s SystemShutdown [(''reason'', JStr ''server_shutdown'')] #
      (map (\<lambda>s. Emit s SystemShutdown [(''reason'', JStr ''server_shutdown'')]) ys @ map Disconnect xs) @ Disconnect s # map Disconnect ys"
    by (simp add: stop_effects_def)
  then show ?thesis by blast
qed

end
