(* ===== verification/Spec2Isabelle.thy ===== *)
theory Spec2Isabelle
  imports Server_Reading Demo_Run E2EE_Conversation Client_Properties Admin_Api Supabase_Sync Directory_Properties Entry_Point
begin

text \<open>
  NovaApp's realtime tier: a messaging server on Socket.IO and its client library, TypeScript
  under \<^verbatim>\<open>server/src\<close>. Clients authenticate a socket by a signed challenge,
  then send end-to-end encrypted messages, receipts, presence and call signals; the server
  authorises, numbers, stores and relays them, and replays what a client missed. This library
  models that code and proves what it promises.

  \<^bold>\<open>Parts and theories.\<close>

    \<^item> \<open>Prelude\<close>: JavaScript's insertion-ordered \<open>Map\<close> and \<open>Set\<close>, slices, strings, lemma collections.

    \<^item> \<open>Wire\<close> (\<^verbatim>\<open>events.ts\<close>, \<^verbatim>\<open>errors.ts\<close>, the payload guards of \<^verbatim>\<open>realtime_server.ts\<close>): JSON
    values and the catalogue of events and error codes.

    \<^item> The server's components, one theory each: \<open>Rate_Limiter\<close>, \<open>Challenge_Store\<close>,
    \<open>Device_Registry\<close>, \<open>Session_Registry\<close>, \<open>Message_Dedup\<close>, \<open>Auth_Failure_Tracker\<close>,
    \<open>Canonical\<close>, \<open>Handshake_Engine\<close>, \<open>Directory_Model\<close>, \<open>Authorization_Policy\<close>,
    \<open>Realtime_Store\<close>, \<open>Security_Log\<close>, \<open>Config\<close>. Each holds a record with the class's fields, one
    function per method, the class's invariant and what the method does on every branch.

    \<^item> The server (\<^verbatim>\<open>realtime_server.ts\<close>): \<open>Server_State\<close> (its state, the guard \<open>requireSession\<close>),
    \<open>Server_Auth\<close>, \<open>Server_Messaging\<close>, \<open>Server_Sync\<close>, \<open>Server_Presence_Calls\<close>, \<open>Server_Admin\<close> (the
    handlers), \<open>Server_Machine\<close> (the dispatcher, the inductive \<open>server_step\<close> and its reachable
    states). A handler maps the state, the environment (clock, random draws) and a payload to the
    list of effects (what is emitted, which rooms are joined, which sockets are disconnected) and
    the next state.
    \<open>Server_Invariant\<close> states the invariant \<open>server_ok\<close>; every handler keeps it, so every
    reachable state has it (\<open>reachable_ok\<close>). \<open>Server_Guarantees\<close> and \<open>Server_Reading\<close> characterise
    the effects of each handler, \<open>Demo_Run\<close> is a reachable run of two accounts on which the
    witnesses of this theory stand.

    \<^item> End-to-end encryption (\<^verbatim>\<open>client/e2ee.ts\<close>): \<open>E2EE_Keys\<close> (X3DH), \<open>E2EE_Ratchet\<close> (the Double
    Ratchet), \<open>E2EE_Conversation\<close> (two parties talking over it).

    \<^item> The client (\<^verbatim>\<open>client/nova_client.ts\<close>): \<open>Nova_Client\<close> (its state and methods, cut at their
    awaits), \<open>Client_Machine\<close> (every piece as an input of one machine, the invariant \<open>client_ok\<close>),
    \<open>Client_Progress\<close> (what no piece takes back; the outbox), \<open>Client_Server\<close> (sync and handshake
    against the server, over the packets each sends), \<open>Client_Properties\<close>.

    \<^item> The admin surface (\<^verbatim>\<open>admin_api.ts\<close>): \<open>Admin_Api\<close>.

    \<^item> The Supabase backends (\<^verbatim>\<open>store/supabase_store.ts\<close>, \<^verbatim>\<open>directory/supabase_directory.ts\<close>):
    \<open>Postgrest\<close> (requests, the tables of the schema, the laws of PostgREST), \<open>Supabase_Store\<close> and
    \<open>Supabase_Directory\<close> (one definition per method, from the request to the decoded rows),
    \<open>Supabase_Refinement\<close> and \<open>Directory_Refinement\<close> (when a database represents a memory
    backend, and that each method keeps it so; the locale \<open>link_table\<close> for the tables of pairs),
    \<open>Supabase_Properties\<close> and \<open>Directory_Properties\<close>; \<open>Supabase_Sync\<close> puts the page of
    \<open>onSyncRequest\<close> over the Supabase store.

    \<^item> The entry point (\<^verbatim>\<open>index.ts\<close>, \<open>start\<close> and \<open>stop\<close>): \<open>Entry_Point\<close>.

  \<^bold>\<open>How they interact.\<close> The server owns one instance of every component and reaches the
  directory and the stores through interfaces; the interfaces are locales
  (\<open>directory\<close>, \<open>realtime_store\<close> and the contracts of the registries), interpreted on the
  model's own operations, and the properties rest on the interpreted facts. A server step is one
  whole handler: the model does not interleave two handlers at their awaits.

  \<^bold>\<open>What the lemmas show.\<close> Below, in sections: who may act (sessions, revocation, lockout, rooms),
  messages (numbers, identity, duplicates, receipts, read marks), reading back (replay of the
  log by cursors), presence and calls. In the component theories: one-use challenges, sliding
  sessions, the least-recently-used window of the deduplication, the exact lockout window, the
  bound of the token buckets, the redaction of log lines, the configuration's bounds; for the
  encryption, that any conversation in turns decrypts, and that a body under another ratchet key
  replaces the session's chains before anything of it is authenticated, so that a message that is
  only late breaks the session, which is a defect of the code. For the client, that a genuine one
  within the server's limits gets in, that its inbox and order agree, that cursors and outbox
  entries are never taken back, and that syncing to the end holds the whole log when no response
  of an earlier sync is buffered or awaited; two defects again: a live message before a sync hides
  what was missed, and a response that comes after its sync timed out is what the next sync takes in. For the
  Supabase backends, that runs without repeated writes answer as the memory backends do, that a
  repeated write is refused, and that an append between its two requests is lost to a sync.

  \<^bold>\<open>Numbers, bounds and fuel.\<close> Time is an \<open>int\<close> of milliseconds and counters are \<open>nat\<close> or \<open>int\<close>:
  the code's numbers are doubles, exact for integers below 2 to the 53rd, which neither clock nor
  counters reach. The buckets of the rate limiter are rationals where the code rounds doubles.
  Bytes are \<open>8 word\<close>. There is no fuel anywhere but in the client's loop over replay pages
  (\<open>sync_all\<close>, \<open>sync_rounds\<close>), whose bound, the number of events left plus one, is proved enough by
  \<open>sync_catches_up\<close> and \<open>client_catches_up\<close>; every loop of the code is a structural recursion or a function with a proved
  measure.

  \<^bold>\<open>Parameters.\<close> node:crypto (Ed25519 verification, X25519, HKDF, AES-GCM), base64, JSON text and
  PostgREST are arguments. Where a theorem relies on them, the documented law is a hypothesis
  (\<open>crypto_laws\<close>, \<open>postgrest_laws\<close> and so on) and a concrete instance satisfies it in the witness.

  \<^bold>\<open>Not modelled.\<close> Socket.IO and the HTTP listener (the transport) and the signals of the
  process, timers as such (their callbacks are steps), the text of a log line on stdout, binary
  payloads, and the interleaving of handlers at awaits. The server's handlers run over the memory
  backends; the Supabase backends are compared with these operation by operation (and, for a sync page, as a handler
  uses them), with no other writer and no failing network, and the rest of \<^verbatim>\<open>novaapp_schema.sql\<close> is not modelled.
\<close>

section \<open>Who may act\<close>

text \<open>
  C8: Nothing is accepted before authentication. On a socket without a session, every event a
  client may emit other than \<open>auth.response\<close> is answered by FORBIDDEN and a disconnect, and
  the only thing it changes is the socket's drained aggregate bucket; any other event name is
  ignored.
\<close>

theorem unauthenticated_events_refused:
  assumes "map_get (sv_sockets sv) k = Some d" and "sd_session d = None" and "event \<noteq> event_name AuthResponse"
  shows "dispatch nc sv e k event payload =
    (if isClientEmittableEvent event
     then ([Emit k SystemError [(''code'', JStr ''FORBIDDEN''), (''event'', JStr event)], Disconnect k],
           put_data k (d\<lparr>sd_limiters := drainAggregate (sd_limiters d)\<rparr>) sv)
     else ([], sv))"
proof -
  obtain effs sv' where r: "dispatch nc sv e k event payload = (effs, sv')" by fastforce
  from r assms(1,3) show ?thesis
    by (cases rule: dispatch_cases)
      (use r in \<open>auto simp: admit_anonymous [OF assms(2)] system_error_def\<close>)
qed

lemma unauthenticated_events_refused_witness:
  "fst (dispatch demo_crypto connected_server (demo_env 5) ''s1'' ''message.send'' (room_message ''m1'')) =
   [Emit ''s1'' SystemError [(''code'', JStr ''FORBIDDEN''), (''event'', JStr ''message.send'')], Disconnect ''s1'']"
  using unauthenticated_events_refused [OF connected_socket, of "''message.send''" demo_crypto "demo_env 5" "room_message ''m1''"]
  by (simp add: anonymous_data_def isClientEmittableEvent_def CLIENT_EMITTABLE_EVENTS_def)

text \<open>
  C1: An event is acted on only for a live session of an active device. If an event other than
  \<open>auth.response\<close> has any effect besides a refusal, the socket's session is registered under
  its id, not expired, bound to this very socket, of the same account and device, and the
  device is active.
\<close>

theorem accepted_event_has_live_session:
  assumes "reachable nc config sv" and "map_get (sv_sockets sv) k = Some d" and "event \<noteq> event_name AuthResponse"
    and "dispatch nc sv e k event payload = (effs, sv')" and "\<not> list_all (is_refusal k) effs"
  shows "\<exists>ses s. sd_session d = Some ses \<and> bySessionId (sv_sessions sv) (ses_sessionId ses) = Some s \<and>
    en_now e \<le> ses_expiresAtMs s \<and> ses_socketKey s = k \<and> ses_accountId s = ses_accountId ses \<and>
    ses_deviceId s = ses_deviceId ses \<and> isActive (sv_devices sv) (ses_deviceId ses)"
  using assms(4,2,3)
proof (cases rule: dispatch_cases)
  case ignored
  with assms(5) show ?thesis by simp
next
  case (refused ev rd extra)
  from admit_refusal [OF this(3)] assms(5) show ?thesis by simp
next
  case (admitted ev rd extra ses sv1)
  note ok = reachable_ok [OF assms(1)]
  note adm = admit_Inr [OF ok assms(2) admitted(3)]
  obtain s where s: "bySessionId (sv_sessions sv) (ses_sessionId ses) = Some s" "en_now e \<le> ses_expiresAtMs s"
    "ses_socketKey s = k" using adm(9) by blast
  then have "same_holder k ses s"
    using sessions_boundD [OF server_okD(7) [OF ok] assms(2) adm(2)] by (simp add: bySessionId_def)
  moreover have "isActive (sv_devices sv) (ses_deviceId s)"
    using server_okD(2) [OF ok] s(1) by (auto simp: sessions_live_def bySessionId_def)
  ultimately show ?thesis using adm(2) s by (auto simp: same_holder_def)
qed

lemma accepted_event_has_live_session_witness:
  "isActive (sv_devices demo_server) ''a1''"
proof -
  obtain effs sv' where r: "dispatch demo_crypto demo_server (demo_env 10) ''s1'' ''message.read''
      (Some (JObj [(''conversation_id'', JStr ''room'')])) = (effs, sv')" by fastforce
  have "\<not> list_all (is_refusal ''s1'') (fst (dispatch demo_crypto demo_server (demo_env 10) ''s1'' ''message.read''
      (Some (JObj [(''conversation_id'', JStr ''room'')]))))" by code_simp
  with r have "\<not> list_all (is_refusal ''s1'') effs" by simp
  from accepted_event_has_live_session [OF reachable_demo demo_socket _ r this] show ?thesis
    by (auto simp: alice_data_def alice_session_def)
qed

text \<open>
  C5: Revoking a device takes effect at once. From then on every event of a socket that holds
  a session of the device is answered by SESSION\_EXPIRED and a disconnect, and no response
  claiming the device is accepted, whatever it is signed with.
\<close>

theorem revoked_device_is_out:
  assumes "reachable nc config sv" and "map_get (sv_sockets sv) k = Some d" and "sd_session d = Some ses"
    and "sv1 = snd (snd (adminRevokeDevice sv (ses_deviceId ses)))"
  shows "(event \<noteq> event_name AuthResponse \<longrightarrow> isClientEmittableEvent event \<longrightarrow>
      fst (dispatch nc sv1 e k event payload) =
        [Emit k SystemError [(''code'', JStr ''SESSION_EXPIRED''), (''event'', JStr event)], Disconnect k]) \<and>
    (response_accepted nc (sv_devices sv1) chs now k2 rec c \<longrightarrow> cl_deviceId c \<noteq> ses_deviceId ses)"
proof -
  note ok = reachable_ok [OF assms(1)]
  have sess: "sessions_ok (sv_sessions sv)" using server_okD(1) [OF ok] by (simp add: stores_ok_def)
  note st = assms(4) [unfolded adminRevokeDevice_state]
  have "map_get (sr_sessions (sv_sessions sv1)) (ses_sessionId ses) = None"
    using sessions_boundD [OF server_okD(7) [OF ok] assms(2,3)]
    by (auto simp: st revokeByDevice_get [OF sess] same_holder_def split: option.splits)
  then have dead: "\<exists>sv'. admit sv1 e k d ev rd extra = Inl ([system_error k SessionExpired ev [], Disconnect k], sv')"
    for ev rd extra by (rule admit_dead [OF assms(3)])
  have "fst (dispatch nc sv1 e k event payload) =
        [Emit k SystemError [(''code'', JStr ''SESSION_EXPIRED''), (''event'', JStr event)], Disconnect k]"
    if "event \<noteq> event_name AuthResponse" "isClientEmittableEvent event"
  proof -
    obtain effs sv' where r: "dispatch nc sv1 e k event payload = (effs, sv')" by fastforce
    have "map_get (sv_sockets sv1) k = Some d" using assms(2) st by simp
    from r this that(1) show ?thesis
    proof (cases rule: dispatch_cases)
      case (refused ev rd extra)
      with dead [of ev rd extra] r show ?thesis by (auto simp: system_error_def)
    next
      case (admitted ev rd extra ses' sv2)
      with dead [of ev rd extra] show ?thesis by auto
    qed (use that in simp)
  qed
  moreover have "cl_deviceId c \<noteq> ses_deviceId ses" if "response_accepted nc (sv_devices sv1) chs now k2 rec c"
    using that revoke_not_active [of "sv_devices sv" "ses_deviceId ses"]
    by (auto simp: response_accepted_def st isActive_def byDeviceId_def)
  ultimately show ?thesis by blast
qed

lemma revoked_device_is_out_witness:
  "fst (dispatch demo_crypto (snd (snd (adminRevokeDevice demo_server ''a1''))) (demo_env 10) ''s1'' ''message.send''
      (room_message ''m1'')) =
   [Emit ''s1'' SystemError [(''code'', JStr ''SESSION_EXPIRED''), (''event'', JStr ''message.send'')], Disconnect ''s1'']"
proof -
  have "sd_session alice_data = Some alice_session" "ses_deviceId alice_session = ''a1''"
    by (simp_all add: alice_data_def alice_session_def)
  with revoked_device_is_out [OF reachable_demo demo_socket _ refl, of alice_session "''message.send''"] show ?thesis
    by (simp add: isClientEmittableEvent_def CLIENT_EMITTABLE_EVENTS_def)
qed

text \<open>
  C9: One live session per device. In a reachable state, two sessions of the same device that
  both validate, at whatever times, are the same session on the same socket.
\<close>

theorem one_live_session_per_device:
  assumes "reachable nc config sv"
    and "fst (validate (sv_sessions sv) t1 i k1) = SessionOk" and "fst (validate (sv_sessions sv) t2 j k2) = SessionOk"
    and "map_option ses_deviceId (bySessionId (sv_sessions sv) i) = map_option ses_deviceId (bySessionId (sv_sessions sv) j)"
  shows "i = j \<and> k1 = k2"
proof -
  have ok: "sessions_ok (sv_sessions sv)"
    using server_okD(1) [OF reachable_ok [OF assms(1)]] by (simp add: stores_ok_def)
  obtain s1 s2 where s: "bySessionId (sv_sessions sv) i = Some s1" "ses_socketKey s1 = k1"
    "bySessionId (sv_sessions sv) j = Some s2" "ses_socketKey s2 = k2"
    using assms(2,3) by (auto simp: validate_ok_iff)
  with assms(4) have "ses_deviceId s1 = ses_deviceId s2" by simp
  with ok s have "i = j" unfolding sessions_ok_def bySessionId_def by blast
  with s show ?thesis by simp
qed

lemma one_live_session_per_device_witness:
  "(fst (validate (sv_sessions demo_server) 5 ''SA'' ''s1'') = SessionOk \<and>
    fst (validate (sv_sessions demo_server) 7 ''SA'' ''s1'') = SessionOk) \<and>
   (''SA'' = (''SA'' :: string) \<and> ''s1'' = (''s1'' :: string))"
proof
  show valid: "fst (validate (sv_sessions demo_server) 5 ''SA'' ''s1'') = SessionOk \<and>
    fst (validate (sv_sessions demo_server) 7 ''SA'' ''s1'') = SessionOk"
    by (simp add: demo_server_def validate_def alice_session_def)
  show "''SA'' = (''SA'' :: string) \<and> ''s1'' = (''s1'' :: string)"
    by (rule one_live_session_per_device [OF reachable_demo conjunct1 [OF valid] conjunct2 [OF valid] refl])
qed

text \<open>
  C6: What \<open>auth.success\<close> stands for. It is sent only for an accepted response, to the
  socket that answered; it names the identity whose device signed; the session is registered
  for that identity and socket under a fresh deadline; and the rooms joined are exactly the
  account's, the device's and those of the account's conversations.
\<close>

theorem auth_success_grants:
  assumes "onAuthResponse nc sv e k d payload = (effs, sv')" and "Emit k' AuthSuccess fs \<in> set effs"
  shows "\<exists>c s. response_accepted nc (sv_devices sv) (sv_challenges sv) (en_now e) k (payloadObject payload) c \<and>
    k' = k \<and> map_of fs ''account_id'' = Some (JStr (cl_accountId c)) \<and>
    map_of fs ''device_id'' = Some (JStr (cl_deviceId c)) \<and>
    map_of fs ''session_id'' = Some (JStr (en_sessionId e)) \<and>
    bySessionId (sv_sessions sv') (en_sessionId e) = Some s \<and> ses_socketKey s = k \<and>
    ses_accountId s = cl_accountId c \<and> ses_deviceId s = cl_deviceId c \<and>
    ses_expiresAtMs s = en_now e + sr_sessionTtlMs (sv_sessions sv) \<and>
    {r. Join k r \<in> set effs} = {account_room (cl_accountId c), device_room (cl_deviceId c)} \<union>
      conv_room ` set (listConversationsForAccount (sv_directory sv) (cl_accountId c))"
proof -
  from onAuthResponse_success [OF assms] obtain sv3 d3 keys where
    c: "complete_auth nc sv3 e k d3 (payloadObject payload) keys = (effs, sv')"
      "sv_devices sv3 = sv_devices sv" "sv_challenges sv3 = sv_challenges sv" "sv_sessions sv3 = sv_sessions sv"
      "sv_directory sv3 = sv_directory sv" .
  have "Emit k' AuthSuccess fs \<in> set (fst (complete_auth nc sv3 e k d3 (payloadObject payload) keys))"
    using assms(2) c(1) by simp
  note success = complete_auth_success [OF this, unfolded c fst_conv snd_conv]
  obtain a ses where
    "response_accepted nc (sv_devices sv) (sv_challenges sv) (en_now e) k (payloadObject payload) a"
    "ses = \<lparr>ses_sessionId = en_sessionId e, ses_socketKey = k, ses_accountId = cl_accountId a,
        ses_deviceId = cl_deviceId a, ses_novaId = cl_novaId a, ses_createdAtMs = en_now e,
        ses_expiresAtMs = en_now e + sr_sessionTtlMs (sv_sessions sv)\<rparr>"
    "k' = k" "fs = [(''session_id'', JStr (ses_sessionId ses)), (''account_id'', JStr (ses_accountId ses)),
       (''device_id'', JStr (ses_deviceId ses)), (''nova_id'', JStr (ses_novaId ses)),
       (''expires_at_ms'', jint (ses_expiresAtMs ses))]"
    "map_get (sr_sessions (sv_sessions sv')) (en_sessionId e) = Some ses"
    "{r. Join k r \<in> set effs} = {account_room (cl_accountId a), device_room (cl_deviceId a)} \<union>
      conv_room ` set (listConversationsForAccount (sv_directory sv) (cl_accountId a))"
    by (rule success)
  then show ?thesis by (intro exI [of _ a] exI [of _ ses]) (simp add: bySessionId_def)
qed

lemma auth_success_grants_witness:
  "\<exists>c. response_accepted demo_crypto (sv_devices connected_server) (sv_challenges connected_server) 2 ''s1''
     (payloadObject (demo_response alice_claims)) c"
proof -
  let ?fs = "[(''session_id'', JStr ''SA''), (''account_id'', JStr ''alice''), (''device_id'', JStr ''a1''),
    (''nova_id'', JStr ''NA''), (''expires_at_ms'', jint 86400002)]"
  obtain effs sv' where r: "onAuthResponse demo_crypto connected_server (demo_env 2) ''s1'' anonymous_data
      (demo_response alice_claims) = (effs, sv')" by fastforce
  have "Emit ''s1'' AuthSuccess ?fs \<in> set (fst (onAuthResponse demo_crypto connected_server (demo_env 2) ''s1''
      anonymous_data (demo_response alice_claims)))" by code_simp
  with r have "Emit ''s1'' AuthSuccess ?fs \<in> set effs" by simp
  from auth_success_grants [OF r this] show ?thesis by (auto simp: demo_env_def)
qed

text \<open>
  C11: A locked identity or address cannot burn challenges. While any lockout scope of the
  response is locked, the answer is RATE\_LIMITED and a disconnect, and neither the challenges
  nor the sessions change.
\<close>

theorem lockout_protects_challenges:
  assumes "key \<in> set (lockoutScopeKeys (sv_config sv) d (payloadObject payload))"
    and "fst (isLocked (sv_authFailures sv) (en_now e) key)"
  shows "fst (onAuthResponse nc sv e k d payload) =
      [Emit k AuthFailure [(''code'', JStr ''RATE_LIMITED'')], Disconnect k] \<and>
    sv_challenges (snd (onAuthResponse nc sv e k d payload)) = sv_challenges sv \<and>
    sv_sessions (snd (onAuthResponse nc sv e k d payload)) = sv_sessions sv"
  using onAuthResponse_locked [OF assms] by (simp add: auth_refused_def)

lemma lockout_protects_challenges_witness:
  "sv_challenges (snd (onAuthResponse demo_crypto
     (connected_server\<lparr>sv_authFailures := fail_run (new_tracker 2 100 None) ''ip:10.0.0.1'' [1, 2]\<rparr>)
     (demo_env 3) ''s1'' anonymous_data None)) = sv_challenges connected_server"
proof -
  let ?sv = "connected_server\<lparr>sv_authFailures := fail_run (new_tracker 2 100 None) ''ip:10.0.0.1'' [1, 2]\<rparr>"
  have "''ip:10.0.0.1'' \<in> set (lockoutScopeKeys (sv_config ?sv) anonymous_data (payloadObject None))"
    by (simp add: lockoutScopeKeys_def connected_server_def new_server_def demo_config_def anonymous_data_def)
  moreover have "fst (isLocked (sv_authFailures ?sv) (en_now (demo_env 3)) ''ip:10.0.0.1'')"
    by (simp add: new_tracker_def recordFailure_def isLocked_def demo_env_def)
  ultimately show ?thesis
    using lockout_protects_challenges [of "''ip:10.0.0.1''" ?sv anonymous_data None "demo_env 3" demo_crypto "''s1''"]
    by simp
qed

section \<open>What a socket may see\<close>

text \<open>
  C10: Rooms are granted by membership. In a reachable state, a socket that is in any room has
  a session, and the room is its account's, its device's, or that of a conversation its
  account is a member of.
\<close>

theorem rooms_are_granted:
  assumes "reachable nc config sv" and "map_get (sv_sockets sv) k = Some d" and "r \<in> set (sd_rooms d)"
  shows "\<exists>s. sd_session d = Some s \<and> (r = account_room (ses_accountId s) \<or> r = device_room (ses_deviceId s) \<or>
    (\<exists>c. r = conv_room c \<and> isConversationMember (sv_directory sv) c (ses_accountId s)))"
  using server_okD(5) [OF reachable_ok [OF assms(1)] assms(2)] assms(3)
  by (auto simp: socket_ok_def room_granted_def split: option.splits)

lemma rooms_are_granted_witness: "isConversationMember (sv_directory demo_server) ''room'' ''alice''"
  using rooms_are_granted [OF reachable_demo demo_socket, of "conv_room ''room''"]
  by (auto simp: alice_data_def alice_session_def conv_room_def account_room_def device_room_def)

section \<open>Messages\<close>

text \<open>
  C2: A conversation's history is faithful in every reachable state: the log is numbered
  1, 2, \<dots>; the messages in it carry the sequence numbers 1, 2, \<dots> up to the latest, in
  order; and every message, receipt and read mark names as its author a member of the
  conversation.
\<close>

theorem history_is_faithful:
  assumes "reachable nc config sv"
  shows "map ev_logSeq (log_of (sv_store sv) c) = [1 .. latestLogSeq (sv_store sv) c] \<and>
    map ev_serverSeq (filter (\<lambda>ev. ev_type ev = EvMessageNew) (log_of (sv_store sv) c)) =
      [1 .. latestSeq (sv_store sv) c] \<and>
    (\<forall>ev \<in> set (log_of (sv_store sv) c). \<exists>a. map_of (ev_payload ev) (author_field (ev_type ev)) = Some (JStr a) \<and>
      isConversationMember (sv_directory sv) c a)"
proof -
  have "store_ok (sv_store sv)" "history_ok (sv_directory sv) (sv_store sv)"
    using server_okD(1,4) [OF reachable_ok [OF assms]] by (simp_all add: stores_ok_def)
  then show ?thesis
    unfolding store_ok_def history_ok_def message_numbers_def event_ok_def by blast
qed

lemma history_is_faithful_witness:
  "map ev_logSeq (log_of (sv_store demo_server) ''room'') = [1 .. latestLogSeq (sv_store demo_server) ''room'']"
  using history_is_faithful [OF reachable_demo] by blast

text \<open>
  C3: The sender of a message is stamped by the server. Whatever the payload claims, a
  \<open>message.new\<close> that goes out carries the account and the device of the sending socket's
  session, a member of the conversation, with the payload's ciphertext unchanged and the next
  number of the conversation; the sending socket is left out.
\<close>

theorem sent_message_identity:
  assumes "reachable nc config sv" and "map_get (sv_sockets sv) k = Some d"
    and "onMessageSend sv e k d payload = (effs, sv')" and "Broadcast room ex MessageNew fs \<in> set effs"
  shows "\<exists>ses c. sd_session d = Some ses \<and> isConversationMember (sv_directory sv) c (ses_accountId ses) \<and>
    map_of fs ''conversation_id'' = Some (JStr c) \<and> payload_field payload ''conversation_id'' = Some (JStr c) \<and>
    map_of fs ''sender_account_id'' = Some (JStr (ses_accountId ses)) \<and>
    map_of fs ''sender_device_id'' = Some (JStr (ses_deviceId ses)) \<and>
    map_of fs ''ciphertext'' = payload_field payload ''ciphertext'' \<and>
    map_of fs ''server_seq'' = Some (jint (latestSeq (sv_store sv) c + 1)) \<and> ex = Some k"
proof -
  have eff: "\<not> is_refusal k (Broadcast room ex MessageNew fs)" "Broadcast room ex MessageNew fs \<noteq> RejectedPromise"
    by simp_all
  obtain ses sv1 env extra where
    adm: "admit sv e k d MessageSend RMessage extra = Inr (ses, sv1)"
    and parse: "parseMessageEnvelope (sv_config sv1) payload ses = Parsed env"
    and mem: "isConversationMember (sv_directory sv1) (pe_conversationId env) (ses_accountId ses)"
    and out: "(effs, sv') = (if dedup_contains (sv_dedup sv1) (dedup_key ses env)
       then send_duplicate (sv1\<lparr>sv_dedup := snd (accept (sv_dedup sv1) (dedup_key ses env))\<rparr>) e k ses env
       else send_fresh (sv1\<lparr>sv_dedup := snd (accept (sv_dedup sv1) (dedup_key ses env))\<rparr>) e k ses env)"
    by (rule onMessageSend_admitted [OF assms(3,4) eff])
  note a = admit_Inr [OF reachable_ok [OF assms(1)] assms(2) adm]
  let ?sv2 = "sv1\<lparr>sv_dedup := snd (accept (sv_dedup sv1) (dedup_key ses env))\<rparr>"
  let ?c = "pe_conversationId env"
  have fresh: "\<not> dedup_contains (sv_dedup sv1) (dedup_key ses env)"
  proof
    assume "dedup_contains (sv_dedup sv1) (dedup_key ses env)"
    then have "effs = fst (send_duplicate ?sv2 e k ses env)" using out by (metis fst_conv)
    with assms(4) show False by (simp add: send_duplicate_effects)
  qed
  obtain n st1 where n: "nextSeq (sv_store ?sv2) ?c = (n, st1)" by fastforce
  note eff1 = send_fresh_effects(1) [OF n refl refl]
  note eff4 = send_fresh_effects(4) [OF n refl refl]
  have "effs = fst (send_fresh ?sv2 e k ses env)" using out fresh by (metis fst_conv)
  then have fs: "fs = spread (message_wire ses env n (en_now e)) [(''log_seq'', jint (latestLogSeq (sv_store ?sv2) ?c + 1))]"
    "ex = Some k"
    using assms(4) eff1 by auto
  obtain rec where rec: "payload = Some (JObj rec)" "map_get rec ''conversation_id'' = Some (JStr ?c)"
    "map_get rec ''ciphertext'' = Some (JStr (pe_ciphertextBase64 env))" "pe_senderDeviceId env = ses_deviceId ses"
    using parse_Parsed [OF parse] by metis
  have "n = latestSeq (sv_store sv) ?c + 1" using eff4 a(4) by simp
  then show ?thesis
    using a(2,3) mem rec fs by (auto simp: map_of_spread message_wire_def map_add_def)
qed

lemma sent_message_identity_witness:
  "map_of (first_wire @ [(''log_seq'', jint 1)]) ''sender_account_id'' = Some (JStr ''alice'') \<and>
   map_of (first_wire @ [(''log_seq'', jint 1)]) ''server_seq'' = Some (jint (latestSeq (sv_store demo_server) ''room'' + 1))"
proof -
  have "Broadcast (conv_room ''room'') (Some ''s1'') MessageNew (first_wire @ [(''log_seq'', jint 1)])
      \<in> set (fst (onMessageSend demo_server (demo_env 10) ''s1'' alice_data (room_message ''m1'')))"
    by (simp add: first_send)
  from sent_message_identity [OF reachable_demo demo_socket first_send this [unfolded first_send fst_conv]]
  show ?thesis by (auto simp: alice_data_def alice_session_def first_wire_def)
qed

text \<open>
  C4: Sending is idempotent. When a message has been acknowledged, sending it again from the
  same socket is acknowledged with the same number, marked as a duplicate, and does nothing
  else: no other effect, and the store is unchanged.
\<close>

theorem resend_is_idempotent:
  assumes "reachable nc config sv" and "map_get (sv_sockets sv) k = Some d"
    and "dd_clockTick (sv_dedup sv) + 1 < MAX_SAFE_INTEGER"
    and "onMessageSend sv e1 k d payload = (effs1, sv1)" and "Emit k MessageAck ack1 \<in> set effs1"
    and "map_get (sv_sockets sv1) k = Some d1"
    and "onMessageSend sv1 e2 k d1 payload = (effs2, sv2)" and "Emit k MessageAck ack2 \<in> set effs2"
  shows "effs2 = [Emit k MessageAck ack2] \<and> map_of ack2 ''server_seq'' = map_of ack1 ''server_seq'' \<and>
    map_of ack2 ''duplicate'' = Some (JBool True) \<and> sv_store sv2 = sv_store sv1"
proof -
  have ok: "server_ok sv" by (rule reachable_ok [OF assms(1)])
  have tick0: "dd_clockTick (sv_dedup sv) < MAX_SAFE_INTEGER" using assms(3) by linarith
  obtain ses env where one: "sd_session d = Some ses" "parseMessageEnvelope (sv_config sv) payload ses = Parsed env"
    "sv_config sv1 = sv_config sv" "dedup_contains (sv_dedup sv1) (dedup_key ses env)"
    "\<And>d1. map_get (sv_sockets sv1) k = Some d1 \<Longrightarrow> sd_session d1 = Some ses"
    "map_of ack1 ''server_seq'' = Some (jint (original_seq sv1 ses env))"
    "dd_clockTick (sv_dedup sv1) \<le> dd_clockTick (sv_dedup sv) + 1"
    by (rule acked_send [OF ok assms(2) tick0 assms(4,5)]) (rule that; assumption)
  have ok1: "server_ok sv1"
    using server_ok_onMessageSend [OF ok assms(2), of e1 payload] assms(4) by simp
  have tick: "dd_clockTick (sv_dedup sv1) < MAX_SAFE_INTEGER"
    using assms(3) one(7) by linarith
  obtain ses2 env2 where two: "sd_session d1 = Some ses2" "parseMessageEnvelope (sv_config sv1) payload ses2 = Parsed env2"
    "map_of ack2 ''server_seq'' = Some (jint (original_seq sv2 ses2 env2))"
    "dedup_contains (sv_dedup sv1) (dedup_key ses2 env2) \<Longrightarrow>
       effs2 = [Emit k MessageAck ack2] \<and> map_of ack2 ''duplicate'' = Some (JBool True) \<and> sv_store sv2 = sv_store sv1"
    by (rule acked_send [OF ok1 assms(6) tick assms(7,8)]) (rule that; assumption)
  have same: "ses2 = ses" "env2 = env" using one(2,3) one(5) [OF assms(6)] two(1,2) by simp_all
  then have dup: "effs2 = [Emit k MessageAck ack2] \<and> map_of ack2 ''duplicate'' = Some (JBool True) \<and> sv_store sv2 = sv_store sv1"
    using two(4) one(4) by simp
  then show ?thesis using one(6) two(3) same by (simp add: original_seq_def)
qed

lemma resend_is_idempotent_witness:
  "map_of [(''message_id'', JStr ''m1''), (''conversation_id'', JStr ''room''), (''server_seq'', jint 1), (''duplicate'', JBool True)]
     ''server_seq'' = map_of first_ack ''server_seq''"
proof -
  define second where "second = onMessageSend sent_server (demo_env 20) ''s1'' sent_data (room_message ''m1'')"
  have "dd_clockTick (sv_dedup demo_server) + 1 < MAX_SAFE_INTEGER"
    by (simp add: demo_server_def connected_server_def new_server_def new_dedup_def MAX_SAFE_INTEGER_def)
  moreover have "Emit ''s1'' MessageAck first_ack \<in> set [Join ''s1'' (conv_room ''room''), Emit ''s1'' MessageAck first_ack,
      Broadcast (conv_room ''room'') (Some ''s1'') MessageNew (first_wire @ [(''log_seq'', jint 1)])]"
    by simp
  moreover have "onMessageSend sent_server (demo_env 20) ''s1'' sent_data (room_message ''m1'') = (fst second, snd second)"
    by (simp add: second_def)
  moreover have "Emit ''s1'' MessageAck [(''message_id'', JStr ''m1''), (''conversation_id'', JStr ''room''), (''server_seq'', jint 1), (''duplicate'', JBool True)]
      \<in> set (fst second)"
    by (simp add: second_def second_send_effects)
  ultimately show ?thesis
    using resend_is_idempotent [OF reachable_demo demo_socket _ first_send _ sent_socket] by blast
qed

section \<open>Receipts, sync, presence and calls\<close>

text \<open>
  C14: A delivery receipt is genuine. One that goes out is for a message that exists in the
  conversation named, sent by another account; sender and reporter are members, the reporter
  is the session's account and device, and the number is the message's own.
\<close>

theorem delivery_receipt_genuine:
  assumes "reachable nc config sv" and "map_get (sv_sockets sv) k = Some d"
    and "onMessageDelivered sv e k d payload = (effs, sv')" and "Broadcast room ex event fs \<in> set effs"
  shows "\<exists>ses c i m. sd_session d = Some ses \<and> findMessage (sv_store sv) i = Some m \<and> sm_conversationId m = c \<and>
    room = conv_room c \<and> ex = Some k \<and> sm_senderAccountId m \<noteq> ses_accountId ses \<and>
    isConversationMember (sv_directory sv) c (ses_accountId ses) \<and>
    isConversationMember (sv_directory sv) c (sm_senderAccountId m) \<and>
    map_of fs ''message_id'' = Some (JStr i) \<and> map_of fs ''by_account_id'' = Some (JStr (ses_accountId ses)) \<and>
    map_of fs ''by_device_id'' = Some (JStr (ses_deviceId ses)) \<and> map_of fs ''server_seq'' = Some (jint (sm_serverSeq m))"
  using assms(3,4)
proof (cases rule: delivered_form)
  case (1 ses sv1 c i m)
  note ok = reachable_ok [OF assms(1)]
  note a = admit_Inr [OF ok assms(2) 1(1)]
  have "message_ok (sv_directory sv) (sv_store sv) m"
    using server_okD(4) [OF ok] 1(5) a(4) by (auto simp: history_ok_def)
  then show ?thesis using 1 a(2,3,4) by (auto simp: message_ok_def map_of_spread map_add_def)
qed

lemma delivery_receipt_genuine_witness:
  "\<exists>m. findMessage (sv_store bob_server) ''m1'' = Some m \<and> sm_senderAccountId m \<noteq> ''bob'' \<and>
    map_of delivered_receipt ''server_seq'' = Some (jint (sm_serverSeq m))"
proof -
  have "Broadcast (conv_room ''room'') (Some ''s2'') MessageDelivered delivered_receipt
      \<in> set (fst (onMessageDelivered bob_server (bob_env 20) ''s2'' bob_data bob_delivered))"
    by (simp add: delivered_effects)
  from delivery_receipt_genuine [OF reachable_bob bob_socket prod.collapse [symmetric] this]
  show ?thesis by (auto simp: delivered_receipt_def)
qed

text \<open>
  C15: A read mark is clamped. Whatever number the client sends, the mark that goes out is
  between 0 and the latest number of the conversation, it is the client's own number when that
  is such an integer, and it does not move the conversation's numbers.
\<close>

theorem read_mark_clamped:
  assumes "reachable nc config sv" and "map_get (sv_sockets sv) k = Some d"
    and "onMessageRead sv e k d payload = (effs, sv')" and "Broadcast room ex event fs \<in> set effs"
  shows "\<exists>ses c n. sd_session d = Some ses \<and> room = conv_room c \<and> ex = Some k \<and>
    isConversationMember (sv_directory sv) c (ses_accountId ses) \<and>
    map_of fs ''by_account_id'' = Some (JStr (ses_accountId ses)) \<and>
    map_of fs ''last_read_seq'' = Some (jint n) \<and> 0 \<le> n \<and> n \<le> latestSeq (sv_store sv) c \<and>
    (\<forall>m. 0 \<le> m \<longrightarrow> m \<le> latestSeq (sv_store sv) c \<longrightarrow> payload_field payload ''last_read_seq'' = Some (jint m) \<longrightarrow> n = m) \<and>
    latestSeq (sv_store sv') c = latestSeq (sv_store sv) c"
  using assms(3,4)
proof (cases rule: read_form)
  case (1 ses sv1 c)
  note ok = reachable_ok [OF assms(1)]
  note a = admit_Inr [OF ok assms(2) 1(1)]
  have "0 \<le> latestSeq (sv_store sv) c"
    using server_okD(1) [OF ok] by (simp add: stores_ok_def store_ok_def)
  note b = read_mark_bounds [OF this]
  have own: "read_mark (payload_field payload ''last_read_seq'') (latestSeq (sv_store sv) c) = m"
    if "0 \<le> m" "m \<le> latestSeq (sv_store sv) c" "payload_field payload ''last_read_seq'' = Some (jint m)" for m
    using that by (simp add: read_mark_def)
  show ?thesis
    using 1 a(2,3,4) b own by (auto simp: map_of_spread map_add_def)
qed

lemma read_mark_clamped_witness:
  "\<exists>n. map_of read_receipt ''last_read_seq'' = Some (jint n) \<and> n \<le> latestSeq (sv_store bob_server) ''room''"
proof -
  have "Broadcast (conv_room ''room'') (Some ''s2'') MessageRead read_receipt
      \<in> set (fst (onMessageRead bob_server (bob_env 20) ''s2'' bob_data bob_read))"
    by (simp add: read_effects conv_room_def)
  from read_mark_clamped [OF reachable_bob bob_socket prod.collapse [symmetric] this]
  show ?thesis by auto
qed

text \<open>
  C13: Sync serves what was asked for, to a member. A \<open>sync.response\<close> has a page for each
  conversation the request asks for (the one it names, or all of the account's), each of them
  one the session's account is a member of. The page starts after as many events as the
  request's own number for that conversation says (none when it says nothing), holds the next
  events of the log up to the page limit without a gap, and when it does not announce more it
  holds all the rest and its cursor is the head of the log.
\<close>

theorem sync_serves_members:
  assumes "reachable nc config sv" and "map_get (sv_sockets sv) k = Some d"
    and "0 < cf_syncPageLimit (sv_config sv)"
    and "onSyncRequest sv e k d payload = (effs, sv')" and "Emit k' SyncResponse resp \<in> set effs"
  shows "\<exists>ses pages. sd_session d = Some ses \<and> k' = k \<and> resp = sync_response pages \<and>
    map sp_conversationId pages = asked_conversations (sv_directory sv) (ses_accountId ses) payload \<and>
    (\<forall>p \<in> set pages. isConversationMember (sv_directory sv) (sp_conversationId p) (ses_accountId ses) \<and>
      (\<exists>n \<ge> 0. leaves_behind (asked_cursor payload (sp_conversationId p)) n \<and>
        page_from (sv_store sv) (cf_syncPageLimit (sv_config sv)) n p))"
  using assms(4,5)
proof (cases rule: sync_form)
  case (1 ses sv1 targets cursors pages)
  note ok = reachable_ok [OF assms(1)]
  note a = admit_Inr [OF ok assms(2) 1(1)]
  have st: "store_ok (sv_store sv)" and dir: "directory_ok (sv_directory sv1)"
    using server_okD(1) [OF ok] a(3) by (simp_all add: stores_ok_def)
  have "map sp_conversationId pages = targets"
    using serve_pages_all [OF assms(3), of "sv_store sv1" cursors targets] 1(3) unfolding a(7) by simp
  moreover have "isConversationMember (sv_directory sv) (sp_conversationId p) (ses_accountId ses) \<and>
      (\<exists>n \<ge> 0. leaves_behind (asked_cursor payload (sp_conversationId p)) n \<and>
        page_from (sv_store sv) (cf_syncPageLimit (sv_config sv)) n p)"
    if "p \<in> set pages" for p
  proof -
    let ?n = "case map_get cursors (sp_conversationId p) of None \<Rightarrow> 0 | Some n \<Rightarrow> n"
    note m = serve_pages_members [OF 1(3) that, unfolded a(4,7)]
    note n = sync_targets_cursors [OF 1(2), of "sp_conversationId p"]
    have "isConversationMember (sv_directory sv) (sp_conversationId p) (ses_accountId ses)"
      using sync_targets_readable [OF dir 1(2) conjunct1 [OF m]] unfolding a(3) .
    moreover have "leaves_behind (asked_cursor payload (sp_conversationId p)) ?n"
      by (rule sync_targets_asked(2) [OF 1(2) conjunct1 [OF m]])
    moreover have "page_from (sv_store sv) (cf_syncPageLimit (sv_config sv)) ?n p"
      by (rule served_page [OF st assms(3) n conjunct2 [OF m]])
    ultimately show ?thesis using n by blast
  qed
  ultimately show ?thesis using 1(4,5) a(2) sync_targets_asked(1) [OF 1(2), unfolded a(3)] by blast
qed

lemma sync_serves_members_witness:
  "\<exists>pages. sync_response [room_page] = sync_response pages \<and>
    map sp_conversationId pages = asked_conversations (sv_directory bob_server) ''bob'' (Some (JObj [])) \<and>
    (\<forall>p \<in> set pages. isConversationMember (sv_directory bob_server) (sp_conversationId p) ''bob'')"
proof -
  have limit: "0 < cf_syncPageLimit (sv_config bob_server)"
    by (simp add: bob_server_def joined_server_def sent_server_def demo_server_def connected_server_def new_server_def demo_config_def)
  have "Emit ''s2'' SyncResponse (sync_response [room_page])
      \<in> set (fst (onSyncRequest bob_server (bob_env 20) ''s2'' bob_data (Some (JObj []))))"
    by (simp add: sync_effects)
  from sync_serves_members [OF reachable_bob bob_socket limit prod.collapse [symmetric] this]
  show ?thesis by auto
qed

text \<open>
  C12: Syncing catches up. A client that asks again from the cursor it is given, as long as
  \<open>has_more\<close> is set, ends after finitely many requests, with every event of the log after
  its own cursor, each once and in order, and with the head of the log as its cursor.
\<close>

theorem sync_catches_up:
  assumes "reachable nc config sv" and "0 < cf_syncPageLimit (sv_config sv)" and "0 \<le> k"
    and "length (drop (nat k) (log_of (sv_store sv) c)) < fuel"
  shows "sync_all fuel (sv_store sv) (cf_syncPageLimit (sv_config sv)) c k =
    (drop (nat k) (log_of (sv_store sv) c), latestLogSeq (sv_store sv) c, False)"
proof -
  have "store_ok (sv_store sv)"
    using server_okD(1) [OF reachable_ok [OF assms(1)]] by (simp add: stores_ok_def)
  from memory_log.pages_complete [OF this assms(3,2,4)] show ?thesis
    by (simp add: sync_all_fetch [OF assms(2)])
qed

lemma sync_catches_up_witness:
  "sync_all 2 (sv_store bob_server) (cf_syncPageLimit (sv_config bob_server)) ''room'' 0 =
    (log_of (sv_store bob_server) ''room'', latestLogSeq (sv_store bob_server) ''room'', False)"
proof -
  have limit: "0 < cf_syncPageLimit (sv_config bob_server)"
    by (simp add: bob_server_def joined_server_def sent_server_def demo_server_def connected_server_def new_server_def demo_config_def)
  have "length (drop (nat 0) (log_of (sv_store bob_server) ''room'')) < 2"
    by (simp add: bob_server_def joined_server_def sent_server_def get_or_def)
  from sync_catches_up [OF reachable_bob limit _ this] show ?thesis by simp
qed

text \<open>
  C16: Presence is stored as the client states it, and is private. A \<open>presence.update\<close> that
  is let through with the status \<open>online\<close> or \<open>offline\<close> stores that status for the
  session's account, with the client's own time if it is a positive number and the server's
  otherwise, and sends both to the rooms of exactly the accounts in the audience of the
  account, and nowhere else; the presence of every other account stays. With any other status
  it changes nothing in the store and answers \<open>PAYLOAD_INVALID\<close>.
\<close>

theorem presence_reaches_audience:
  assumes "reachable nc config sv" and "map_get (sv_sockets sv) k = Some d"
    and "admit sv e k d PresenceUpdate RPresence [] = Inr (ses, sv1)"
    and "onPresenceUpdate sv e k d payload = (effs, sv')"
  shows "sd_session d = Some ses \<and>
    (if \<exists>s \<in> {''online'', ''offline''}. payload_field payload ''status'' = Some (JStr s)
     then \<exists>status seen.
       payload_field payload ''status'' = Some (JStr (if status = Online then ''online'' else ''offline'')) \<and>
       (\<forall>x > 0. payload_field payload ''last_seen_ms'' = Some (JNum (Finite x)) \<longrightarrow> seen = Finite x) \<and>
       ((\<forall>x. payload_field payload ''last_seen_ms'' \<noteq> Some (JNum x)) \<longrightarrow> seen = js_int (en_now e)) \<and>
       (\<forall>x \<le> 0. payload_field payload ''last_seen_ms'' = Some (JNum (Finite x)) \<longrightarrow> seen = js_int (en_now e)) \<and>
       getPresence (sv_store sv') (ses_accountId ses) =
         Some \<lparr>pr_accountId = ses_accountId ses, pr_status = status, pr_lastSeenMs = seen\<rparr> \<and>
       (\<forall>a. a \<noteq> ses_accountId ses \<longrightarrow> getPresence (sv_store sv') a = getPresence (sv_store sv) a) \<and>
       effs = map (\<lambda>viewer. Broadcast (account_room viewer) None PresenceChanged
           [(''account_id'', JStr (ses_accountId ses)),
            (''status'', JStr (if status = Online then ''online'' else ''offline'')), (''last_seen_ms'', JNum seen)])
         (presenceAudience (sv_directory sv) (ses_accountId ses))
     else effs = [system_error k PayloadInvalid PresenceUpdate []] \<and> sv_store sv' = sv_store sv)"
proof -
  note a = admit_Inr [OF reachable_ok [OF assms(1)] assms(2,3)]
  show ?thesis
  proof (cases "parse_status (payload_field payload ''status'')")
    case None
    then show ?thesis
      using assms(4) a(2,4) by (auto simp: onPresenceUpdate_def assms(3) Let_def parse_status_def split: if_splits)
  next
    case (Some status)
    let ?seen = "last_seen (payload_field payload ''last_seen_ms'') (en_now e)"
    have st: "payload_field payload ''status'' = Some (JStr (if status = Online then ''online'' else ''offline''))"
      using Some by (auto simp: parse_status_def split: if_splits)
    have name: "status_name status = (if status = Online then ''online'' else ''offline'')" by (cases status) simp_all
    have stored: "sv_store sv' = setPresence (sv_store sv)
        \<lparr>pr_accountId = ses_accountId ses, pr_status = status, pr_lastSeenMs = ?seen\<rparr>"
      and effs: "effs = presence_changed sv1 (ses_accountId ses) (status_name status) ?seen"
      using assms(4) Some a(4)
      by (auto simp: onPresenceUpdate_def assms(3) Let_def log_to_def presence_changed_def)
    show ?thesis
      using st a(2,3) presence_seen [of "payload_field payload ''last_seen_ms''" "en_now e"]
      by (auto simp: effs presence_changed_def name stored getPresence_set intro!: exI [of _ status] exI [of _ ?seen])
  qed
qed

lemma presence_reaches_audience_witness:
  "getPresence (sv_store (snd (onPresenceUpdate demo_server (demo_env 20) ''s1'' alice_data alice_online))) ''alice'' =
     Some \<lparr>pr_accountId = ''alice'', pr_status = Online, pr_lastSeenMs = js_int 20\<rparr>"
proof -
  obtain reg where reg: "validate (sv_sessions demo_server) (en_now (demo_env 20)) (ses_sessionId alice_session) ''s1'' = (SessionOk, reg)"
    by (simp add: demo_server_def validate_def alice_session_def)
  have rate: "fst (consumeRate (sd_limiters alice_data) RPresence (en_now (demo_env 20)))"
    using bob_rates(4) by simp
  have "payload_field alice_online ''status'' = Some (JStr ''online'')"
    "payload_field alice_online ''last_seen_ms'' = None" "en_now (demo_env 20) = 20"
    by (simp_all add: alice_online_def demo_env_def)
  with presence_reaches_audience [OF reachable_demo demo_socket admitted [OF demo_sessions(1) reg rate] prod.collapse [symmetric], of alice_online]
  show ?thesis by (auto split: if_splits)
qed

text \<open>
  C17: The caller is who the server says. A relayed call signal goes to a related account's room
  only, carries the account and the device of the sender's session whatever the payload claims,
  drops the addressing field, and leaves every other field as it came.
\<close>

theorem call_signal_identity:
  assumes "reachable nc config sv" and "map_get (sv_sockets sv) k = Some d"
    and "onCallSignal sv e k d event payload = (effs, sv')" and "Broadcast room ex event' fs \<in> set effs"
  shows "\<exists>ses peer. sd_session d = Some ses \<and> payload_field payload ''peer_account_id'' = Some (JStr peer) \<and>
    hasRelationship (sv_directory sv) (ses_accountId ses) peer \<and> room = account_room peer \<and> event' = event \<and>
    map_of fs ''from_account_id'' = Some (JStr (ses_accountId ses)) \<and>
    map_of fs ''from_device_id'' = Some (JStr (ses_deviceId ses)) \<and> map_of fs ''peer_account_id'' = None \<and>
    (\<forall>key. key \<notin> {''peer_account_id'', ''from_account_id'', ''from_device_id''} \<longrightarrow>
       map_of fs key = map_of (rev (payloadObject payload)) key)"
  using assms(3,4)
proof (cases rule: signal_form)
  case (1 ses sv1 p)
  note a = admit_Inr [OF reachable_ok [OF assms(1)] assms(2) 1(1)]
  show ?thesis
    using 1 a(2,3) by (intro exI [of _ ses] exI [of _ p]) (simp add: signal_identity signal_rest)
qed

lemma call_signal_identity_witness:
  "hasRelationship (sv_directory bob_server) ''bob'' ''alice''"
proof -
  have "Broadcast (account_room ''alice'') None CallOffer
      [(''from_account_id'', JStr ''bob''), (''from_device_id'', JStr ''b1''), (''sdp'', JStr ''v=0'')]
      \<in> set (fst (onCallSignal bob_server (bob_env 20) ''s2'' bob_data CallOffer bob_call))"
    by (simp add: call_effects)
  from call_signal_identity [OF reachable_bob bob_socket prod.collapse [symmetric] this]
  show ?thesis by (auto simp: bob_call_def)
qed

end
